theory Spec2Isabelle
  imports Complex_Main
begin

section \<open>Doubles, matrices and cubes\<close>

text \<open>
  The filter works on \<^verbatim>\<open>arma::mat\<close> values. Arithmetic is modelled exactly, over the
  reals. A cell of the data matrix \<^verbatim>\<open>X\<close> or of the transition matrix \<^verbatim>\<open>A\<close> may hold a
  non-finite double, which the code tests for with \<^verbatim>\<open>find_finite\<close>; such cells are of
  type \<open>dbl\<close>.
\<close>

datatype dbl = Fin real | NaN | PosInf | NegInf

fun is_finite :: "dbl \<Rightarrow> bool" where
  "is_finite (Fin x) = True"
| "is_finite NaN = False"
| "is_finite PosInf = False"
| "is_finite NegInf = False"

text \<open>The value of a finite cell; a non-finite cell that was overwritten by zero reads 0.\<close>

fun fin_val :: "dbl \<Rightarrow> real" where
  "fin_val (Fin x) = x"
| "fin_val NaN = 0"
| "fin_val PosInf = 0"
| "fin_val NegInf = 0"

text \<open>A matrix carries its shape, so that a \<open>0 \<times> k\<close> matrix differs from a \<open>k \<times> 0\<close> one.\<close>

datatype 'a mat = Mat (n_rows: nat) (n_cols: nat) (rows_of: "'a list list")

definition wf_mat :: "'a mat \<Rightarrow> bool" where
  "wf_mat M \<longleftrightarrow>
     length (rows_of M) = n_rows M \<and> list_all (\<lambda>r. length r = n_cols M) (rows_of M)"

definition ent :: "'a mat \<Rightarrow> nat \<Rightarrow> nat \<Rightarrow> 'a" where
  "ent M i j = rows_of M ! i ! j"

definition tab :: "nat \<Rightarrow> nat \<Rightarrow> (nat \<Rightarrow> nat \<Rightarrow> 'a) \<Rightarrow> 'a mat" where
  "tab nr nc f = Mat nr nc (map (\<lambda>i. map (f i) [0..<nc]) [0..<nr])"

definition zeros :: "nat \<Rightarrow> nat \<Rightarrow> real mat" where
  "zeros nr nc = tab nr nc (\<lambda>i j. 0)"

definition eye :: "nat \<Rightarrow> nat \<Rightarrow> real mat" where
  "eye nr nc = tab nr nc (\<lambda>i j. if i = j then 1 else 0)"

definition t_mat :: "real mat \<Rightarrow> real mat" where
  "t_mat M = tab (n_cols M) (n_rows M) (\<lambda>i j. ent M j i)"

definition plus_mat :: "real mat \<Rightarrow> real mat \<Rightarrow> real mat" where
  "plus_mat M N = tab (n_rows M) (n_cols M) (\<lambda>i j. ent M i j + ent N i j)"

definition minus_mat :: "real mat \<Rightarrow> real mat \<Rightarrow> real mat" where
  "minus_mat M N = tab (n_rows M) (n_cols M) (\<lambda>i j. ent M i j - ent N i j)"

definition times_mat :: "real mat \<Rightarrow> real mat \<Rightarrow> real mat" where
  "times_mat M N =
     tab (n_rows M) (n_cols N) (\<lambda>i j. \<Sum>k\<leftarrow>[0..<n_cols M]. ent M i k * ent N k j)"

datatype cube = Cube (c_rows: nat) (c_cols: nat) (slices: "real mat list")

definition wf_cube :: "cube \<Rightarrow> bool" where
  "wf_cube Q \<longleftrightarrow>
     list_all (\<lambda>M. wf_mat M \<and> n_rows M = c_rows Q \<and> n_cols M = c_cols Q) (slices Q)"

definition zeros_cube :: "nat \<Rightarrow> nat \<Rightarrow> nat \<Rightarrow> cube" where
  "zeros_cube nr nc ns = Cube nr nc (replicate ns (zeros nr nc))"

section \<open>Exceptions of the matrix library\<close>

text \<open>
  Every size and bounds check of the library raises; a raise is the \<open>Inl\<close> branch.
  \<open>NonFiniteArith\<close> is not an exception: it marks a run that does arithmetic on a
  non-finite cell of \<^verbatim>\<open>A\<close>, which exact arithmetic does not describe.
\<close>

datatype error = IncompatibleDims | IndexOutOfBounds | NotSquare | Singular | FixedSize
  | NonFiniteArith

definition bindE :: "error + 'a \<Rightarrow> ('a \<Rightarrow> error + 'b) \<Rightarrow> error + 'b" where
  "bindE m f = (case m of Inl e \<Rightarrow> Inl e | Inr x \<Rightarrow> f x)"

definition arma_plus :: "real mat \<Rightarrow> real mat \<Rightarrow> error + real mat" where
  "arma_plus M N =
     (if n_rows M = n_rows N \<and> n_cols M = n_cols N then Inr (plus_mat M N)
      else Inl IncompatibleDims)"

definition arma_minus :: "real mat \<Rightarrow> real mat \<Rightarrow> error + real mat" where
  "arma_minus M N =
     (if n_rows M = n_rows N \<and> n_cols M = n_cols N then Inr (minus_mat M N)
      else Inl IncompatibleDims)"

definition arma_times :: "real mat \<Rightarrow> real mat \<Rightarrow> error + real mat" where
  "arma_times M N =
     (if n_cols M = n_rows N then Inr (times_mat M N) else Inl IncompatibleDims)"

text \<open>\<^verbatim>\<open>A * B * C\<close>: both size checks, then the product.\<close>

definition arma_times3 :: "real mat \<Rightarrow> real mat \<Rightarrow> real mat \<Rightarrow> error + real mat" where
  "arma_times3 M N K = bindE (arma_times M N) (\<lambda>MN. arma_times MN K)"

text \<open>\<^verbatim>\<open>M.row(i)\<close> as a \<open>1 \<times> n_cols\<close> matrix; the index is the C++ \<^verbatim>\<open>int\<close>.\<close>

definition row :: "real mat \<Rightarrow> int \<Rightarrow> error + real mat" where
  "row M i =
     (if 0 \<le> i \<and> i < int (n_rows M) then Inr (tab 1 (n_cols M) (\<lambda>a j. ent M (nat i) j))
      else Inl IndexOutOfBounds)"

text \<open>\<^verbatim>\<open>M.row(i) = v\<close>: the target row keeps its size.\<close>

definition set_row :: "real mat \<Rightarrow> int \<Rightarrow> real mat \<Rightarrow> error + real mat" where
  "set_row M i v =
     (if 0 \<le> i \<and> i < int (n_rows M)
      then (if n_rows v = 1 \<and> n_cols v = n_cols M
            then Inr (tab (n_rows M) (n_cols M)
                       (\<lambda>a j. if a = nat i then ent v 0 j else ent M a j))
            else Inl IncompatibleDims)
      else Inl IndexOutOfBounds)"

definition slice :: "cube \<Rightarrow> int \<Rightarrow> error + real mat" where
  "slice Q i =
     (if 0 \<le> i \<and> i < int (length (slices Q)) then Inr (slices Q ! nat i)
      else Inl IndexOutOfBounds)"

text \<open>\<^verbatim>\<open>Q.slice(i) = M\<close>: a slice of a cube has a fixed size.\<close>

definition set_slice :: "cube \<Rightarrow> int \<Rightarrow> real mat \<Rightarrow> error + cube" where
  "set_slice Q i M =
     (if 0 \<le> i \<and> i < int (length (slices Q))
      then (if n_rows M = c_rows Q \<and> n_cols M = c_cols Q
            then Inr (Cube (c_rows Q) (c_cols Q) ((slices Q)[nat i := M]))
            else Inl FixedSize)
      else Inl IndexOutOfBounds)"

text \<open>\<^verbatim>\<open>find_finite(M.row(i))\<close>: the column indices of the finite cells of row \<open>i\<close>.\<close>

definition find_finite_row :: "dbl mat \<Rightarrow> int \<Rightarrow> error + nat list" where
  "find_finite_row M i =
     (if 0 \<le> i \<and> i < int (n_rows M)
      then Inr (filter (\<lambda>j. is_finite (ent M (nat i) j)) [0..<n_cols M])
      else Inl IndexOutOfBounds)"

text \<open>
  \<^verbatim>\<open>M.submat(ri, ci)\<close> with index vectors. The library walks the column indices and, for
  each, the row indices, checking each index as it reaches it.
\<close>

definition submat :: "real mat \<Rightarrow> nat list \<Rightarrow> nat list \<Rightarrow> error + real mat" where
  "submat M ri ci =
     (if (\<exists>c \<in> set ci. n_cols M \<le> c) \<or> (ci \<noteq> [] \<and> (\<exists>r \<in> set ri. n_rows M \<le> r))
      then Inl IndexOutOfBounds
      else Inr (tab (length ri) (length ci) (\<lambda>i j. ent M (ri ! i) (ci ! j))))"

text \<open>
  \<^verbatim>\<open>X.submat(a, miss).t()\<close> with \<^verbatim>\<open>a = [t]\<close> and \<^verbatim>\<open>miss\<close> the finite cells of row \<open>t\<close>:
  the observed values of step \<open>t\<close> as a column.
\<close>

definition x_obs :: "dbl mat \<Rightarrow> int \<Rightarrow> nat list \<Rightarrow> real mat" where
  "x_obs X t miss = tab (length miss) 1 (\<lambda>i j. fin_val (ent X (nat t) (miss ! i)))"

text \<open>\<^verbatim>\<open>conv_to<double>::from(M)\<close> asks for exactly one element.\<close>

definition conv_to_double :: "real mat \<Rightarrow> error + real" where
  "conv_to_double M =
     (if n_rows M * n_cols M = 1 then Inr (ent M 0 0) else Inl IncompatibleDims)"

subsection \<open>Determinant and inverse\<close>

text \<open>
  The determinant, by expansion along the first row; the determinant of the empty matrix
  is 1, as in the library.
\<close>

definition drop_col :: "nat \<Rightarrow> 'a list \<Rightarrow> 'a list" where
  "drop_col j r = take j r @ drop (Suc j) r"

fun det_rows :: "real list list \<Rightarrow> real" where
  "det_rows [] = 1"
| "det_rows (r # rs) =
     (\<Sum>j\<leftarrow>[0..<length r]. (- 1) ^ j * r ! j * det_rows (map (drop_col j) rs))"

definition arma_det :: "real mat \<Rightarrow> error + real" where
  "arma_det M = (if n_rows M = n_cols M then Inr (det_rows (rows_of M)) else Inl NotSquare)"

text \<open>
  The inverse \<^verbatim>\<open>M.i()\<close>, by Gauss-Jordan elimination on the rows of \<open>[M | I]\<close>, each kept
  as a pair. A column without a pivot means a singular matrix, which raises. In exact
  arithmetic the inverse does not depend on the pivot order.
\<close>

type_synonym aug_row = "real list \<times> real list"

fun find_pivot :: "nat \<Rightarrow> aug_row list \<Rightarrow> (aug_row \<times> aug_row list) option" where
  "find_pivot j [] = None"
| "find_pivot j (r # rs) =
     (if fst r ! j \<noteq> 0 then Some (r, rs)
      else (case find_pivot j rs of None \<Rightarrow> None | Some (p, rest) \<Rightarrow> Some (p, r # rest)))"

definition scale_row :: "real \<Rightarrow> aug_row \<Rightarrow> aug_row" where
  "scale_row c r = (map (\<lambda>x. c * x) (fst r), map (\<lambda>x. c * x) (snd r))"

definition sub_row :: "aug_row \<Rightarrow> aug_row \<Rightarrow> aug_row" where
  "sub_row r p = (map2 (-) (fst r) (fst p), map2 (-) (snd r) (snd p))"

definition eliminate :: "nat \<Rightarrow> aug_row \<Rightarrow> aug_row \<Rightarrow> aug_row" where
  "eliminate j p r = sub_row r (scale_row (fst r ! j) p)"

lemma find_pivot_length:
  "find_pivot j rs = Some (p, rest) \<Longrightarrow> length rest < length rs"
  by (induction rs arbitrary: p rest) (auto split: if_splits option.splits)

function gauss_jordan :: "aug_row list \<Rightarrow> aug_row list \<Rightarrow> aug_row list option" where
  "gauss_jordan done [] = Some done"
| "gauss_jordan done (r # rs) =
     (case find_pivot (length done) (r # rs) of
        None \<Rightarrow> None
      | Some (p, rest) \<Rightarrow>
          (let q = scale_row (1 / fst p ! length done) p
           in gauss_jordan (map (eliminate (length done) q) done @ [q])
                (map (eliminate (length done) q) rest)))"
  by pat_completeness auto
termination
  by (relation "measure (\<lambda>(done, todo). length todo)")
    (auto split: if_splits option.splits dest: find_pivot_length)

definition unit_row :: "nat \<Rightarrow> nat \<Rightarrow> real list" where
  "unit_row n i = map (\<lambda>j. if i = j then 1 else 0) [0..<n]"

definition arma_inv :: "real mat \<Rightarrow> error + real mat" where
  "arma_inv M =
     (if n_rows M = n_cols M
      then (case gauss_jordan []
                   (zip (rows_of M) (map (unit_row (n_rows M)) [0..<n_rows M])) of
              None \<Rightarrow> Inl Singular
            | Some rs \<Rightarrow> Inr (Mat (n_rows M) (n_rows M) (map snd rs)))
      else Inl NotSquare)"


subsection \<open>Arithmetic on the transition matrix\<close>

definition all_finite :: "dbl mat \<Rightarrow> bool" where
  "all_finite M \<longleftrightarrow>
     list_all (\<lambda>i. list_all (\<lambda>j. is_finite (ent M i j)) [0..<n_cols M]) [0..<n_rows M]"

definition real_of :: "dbl mat \<Rightarrow> real mat" where
  "real_of M = tab (n_rows M) (n_cols M) (\<lambda>i j. fin_val (ent M i j))"

text \<open>
  A statement that does arithmetic on \<^verbatim>\<open>A\<close>: the checks the statement makes come first
  (none of them reads a cell of \<^verbatim>\<open>A\<close>); then the run leaves the model when \<^verbatim>\<open>A\<close> holds
  a non-finite cell.
\<close>

definition needs_finite :: "dbl mat \<Rightarrow> error + 'a \<Rightarrow> error + 'a" where
  "needs_finite M m =
     (case m of Inl e \<Rightarrow> Inl e
      | Inr x \<Rightarrow> if all_finite M then Inr x else Inl NonFiniteArith)"

subsection \<open>Loops\<close>

text \<open>\<^verbatim>\<open>for (int i = lo; i < hi; ++i) body\<close>, stopping at the first exception.\<close>

function for_loop :: "int \<Rightarrow> int \<Rightarrow> (int \<Rightarrow> 's \<Rightarrow> error + 's) \<Rightarrow> 's \<Rightarrow> error + 's" where
  "for_loop i hi body s =
     (if i < hi then (case body i s of Inl e \<Rightarrow> Inl e | Inr s' \<Rightarrow> for_loop (i + 1) hi body s')
      else Inr s)"
  by pat_completeness auto
termination
  by (relation "measure (\<lambda>(i, hi, body, s). nat (hi - i))") auto

declare for_loop.simps [simp del]

section \<open>The Kalman filter (KalmanFiltering.cpp, KalmanFilter)\<close>

text \<open>
  The variables that live across iterations of the filter loop. \<^verbatim>\<open>C\<close> and \<^verbatim>\<open>R\<close> are the
  function's own parameters, which the loop overwrites with the restricted matrices.
\<close>

record kf_state =
  s_C :: "real mat"
  s_R :: "real mat"
  s_fp :: "real mat"
  s_Pp :: "real mat"
  s_loglik :: real
  s_PT :: "real mat"
  s_PpT :: cube
  s_FT :: "real mat"
  s_PfT :: cube

text \<open>Lines 54 to 63: inverted innovation covariance, prediction error, gain, update.\<close>

definition innov_S :: "real mat \<Rightarrow> real mat \<Rightarrow> real mat \<Rightarrow> error + real mat" where
  "innov_S C Pp R =
     bindE (arma_times3 C Pp (t_mat C)) (\<lambda>CPC. bindE (arma_plus CPC R) arma_inv)"

definition pred_error :: "real mat \<Rightarrow> real mat \<Rightarrow> real mat \<Rightarrow> error + real mat" where
  "pred_error x C fp = bindE (arma_times C fp) (\<lambda>Cfp. arma_minus x Cfp)"

definition kalman_gain :: "real mat \<Rightarrow> real mat \<Rightarrow> real mat \<Rightarrow> error + real mat" where
  "kalman_gain Pp C S = arma_times3 Pp (t_mat C) S"

definition upd_mean :: "real mat \<Rightarrow> real mat \<Rightarrow> real mat \<Rightarrow> error + real mat" where
  "upd_mean fp K xe = bindE (arma_times K xe) (\<lambda>Kxe. arma_plus fp Kxe)"

definition upd_cov :: "real mat \<Rightarrow> real mat \<Rightarrow> real mat \<Rightarrow> error + real mat" where
  "upd_cov Pp K C = bindE (arma_times3 K C Pp) (\<lambda>KCP. arma_minus Pp KCP)"

text \<open>Lines 66 to 69: the likelihood is skipped unless \<^verbatim>\<open>det(S) > 0\<close>.\<close>

definition loglik_term :: "nat \<Rightarrow> real \<Rightarrow> real \<Rightarrow> real" where
  "loglik_term n d q = - (1 / 2) * (real n * ln (2 * pi) - ln d + q)"

definition upd_loglik :: "nat \<Rightarrow> real mat \<Rightarrow> real mat \<Rightarrow> real \<Rightarrow> error + real" where
  "upd_loglik n S xe loglik =
     bindE (arma_det S) (\<lambda>d.
       if d > 0
       then bindE (bindE (arma_times3 (t_mat xe) S xe) conv_to_double) (\<lambda>q.
              Inr (loglik + loglik_term n d q))
       else Inr loglik)"

text \<open>Lines 78 and 79: the prediction for the next step.\<close>

definition predict_mean :: "dbl mat \<Rightarrow> real mat \<Rightarrow> int \<Rightarrow> error + real mat" where
  "predict_mean A FT t =
     needs_finite A (bindE (row FT t) (\<lambda>r. arma_times (real_of A) (t_mat r)))"

definition predict_cov :: "dbl mat \<Rightarrow> cube \<Rightarrow> int \<Rightarrow> real mat \<Rightarrow> error + real mat" where
  "predict_cov A PfT t Q =
     needs_finite A
       (bindE (slice PfT t) (\<lambda>P.
        bindE (arma_times3 (real_of A) P (t_mat (real_of A))) (\<lambda>APA. arma_plus APA Q)))"

text \<open>One iteration of the loop of lines 45 to 81.\<close>

definition kf_step ::
  "dbl mat \<Rightarrow> real mat \<Rightarrow> real mat \<Rightarrow> real mat \<Rightarrow> dbl mat \<Rightarrow> nat list \<Rightarrow> int \<Rightarrow> kf_state
     \<Rightarrow> error + kf_state" where
  "kf_step X tC tR Q A nmiss t s =
     bindE (find_finite_row X t) (\<lambda>miss.
     bindE (submat tC miss nmiss) (\<lambda>C.
     bindE (submat tR miss miss) (\<lambda>R.
     bindE (innov_S C (s_Pp s) R) (\<lambda>S.
     bindE (pred_error (x_obs X t miss) C (s_fp s)) (\<lambda>xe.
     bindE (kalman_gain (s_Pp s) C S) (\<lambda>K.
     bindE (upd_mean (s_fp s) K xe) (\<lambda>ff.
     bindE (upd_cov (s_Pp s) K C) (\<lambda>Pf.
     bindE (upd_loglik (n_cols X) S xe (s_loglik s)) (\<lambda>loglik.
     bindE (set_row (s_PT s) t (t_mat (s_fp s))) (\<lambda>PT.
     bindE (set_slice (s_PpT s) t (s_Pp s)) (\<lambda>PpT.
     bindE (set_row (s_FT s) t (t_mat ff)) (\<lambda>FT.
     bindE (set_slice (s_PfT s) t Pf) (\<lambda>PfT.
     bindE (predict_mean A FT t) (\<lambda>fp.
     bindE (predict_cov A PfT t Q) (\<lambda>Pp.
     Inr \<lparr>s_C = C, s_R = R, s_fp = fp, s_Pp = Pp, s_loglik = loglik,
          s_PT = PT, s_PpT = PpT, s_FT = FT, s_PfT = PfT\<rparr>)))))))))))))))"

text \<open>Lines 20 to 43: sizes, zero-filled histories, the loop's starting state.\<close>

definition kf_init :: "dbl mat \<Rightarrow> real mat \<Rightarrow> real mat \<Rightarrow> dbl mat \<Rightarrow> real mat \<Rightarrow> real mat
    \<Rightarrow> kf_state" where
  "kf_init X C R A F0 P0 =
     \<lparr>s_C = C, s_R = R, s_fp = F0, s_Pp = P0, s_loglik = 0,
      s_PT = zeros (n_rows X + 1) (n_rows A),
      s_PpT = zeros_cube (n_rows A) (n_rows A) (n_rows X + 1),
      s_FT = zeros (n_rows X) (n_rows A),
      s_PfT = zeros_cube (n_rows A) (n_rows A) (n_rows X)\<rparr>"

definition kf_run :: "dbl mat \<Rightarrow> real mat \<Rightarrow> real mat \<Rightarrow> real mat \<Rightarrow> dbl mat \<Rightarrow> real mat
    \<Rightarrow> real mat \<Rightarrow> error + kf_state" where
  "kf_run X C Q R A F0 P0 =
     bindE (find_finite_row A 0) (\<lambda>nmiss.
       for_loop 0 (int (n_rows X)) (kf_step X C R Q A nmiss) (kf_init X C R A F0 P0))"

record kf_out =
  kf_F :: "real mat"
  kf_Pf :: cube
  kf_P :: "real mat"
  kf_Pp :: cube
  kf_loglik :: real

definition KalmanFilter :: "dbl mat \<Rightarrow> real mat \<Rightarrow> real mat \<Rightarrow> real mat \<Rightarrow> dbl mat
    \<Rightarrow> real mat \<Rightarrow> real mat \<Rightarrow> error + kf_out" where
  "KalmanFilter X C Q R A F0 P0 =
     bindE (kf_run X C Q R A F0 P0) (\<lambda>s.
       Inr \<lparr>kf_F = s_FT s, kf_Pf = s_PfT s, kf_P = s_PT s, kf_Pp = s_PpT s,
            kf_loglik = s_loglik s\<rparr>)"


section \<open>The smoother (KalmanFiltering.cpp, KalmanSmoother)\<close>

text \<open>The cubes and the matrix that the smoother fills in (lines 112 to 120).\<close>

record sm_state =
  m_J :: cube
  m_L :: cube
  m_K :: cube
  m_PsTm :: cube
  m_FsT :: "real mat"
  m_PsT :: cube

definition sm_init :: "nat \<Rightarrow> nat \<Rightarrow> nat \<Rightarrow> sm_state" where
  "sm_init rp n T =
     \<lparr>m_J = zeros_cube rp rp T, m_L = zeros_cube n n T, m_K = zeros_cube rp n T,
      m_PsTm = zeros_cube rp rp T, m_FsT = zeros T rp, m_PsT = zeros_cube rp rp T\<rparr>"

text \<open>Lines 122 and 123: the last smoothed step is the last filtered step.\<close>

definition sm_last :: "int \<Rightarrow> real mat \<Rightarrow> cube \<Rightarrow> sm_state \<Rightarrow> error + sm_state" where
  "sm_last T FT PfT m =
     bindE (row FT (T - 1)) (\<lambda>f.
     bindE (set_row (m_FsT m) (T - 1) f) (\<lambda>FsT.
     bindE (slice PfT (T - 1)) (\<lambda>P.
     bindE (set_slice (m_PsT m) (T - 1) P) (\<lambda>PsT.
     Inr (m\<lparr>m_FsT := FsT, m_PsT := PsT\<rparr>)))))"

text \<open>Line 127: \<^verbatim>\<open>J.slice(t) = PfT.slice(t) * A.t() * PpT.slice(t+1).i()\<close>.\<close>

definition smoother_gain :: "dbl mat \<Rightarrow> real mat \<Rightarrow> real mat \<Rightarrow> error + real mat" where
  "smoother_gain A Pf Pp1 =
     bindE (arma_inv Pp1) (\<lambda>Pi. arma_times3 Pf (t_mat (real_of A)) Pi)"

definition j_step :: "dbl mat \<Rightarrow> cube \<Rightarrow> cube \<Rightarrow> int \<Rightarrow> sm_state \<Rightarrow> error + sm_state" where
  "j_step A PfT PpT t m =
     needs_finite A
       (bindE (slice PfT t) (\<lambda>Pf.
        bindE (slice PpT (t + 1)) (\<lambda>Pp1.
        bindE (smoother_gain A Pf Pp1) (\<lambda>v.
        bindE (set_slice (m_J m) t v) (\<lambda>J.
        Inr (m\<lparr>m_J := J\<rparr>))))))"

text \<open>Lines 133 to 137, with \<open>i = T - j\<close>.\<close>

definition smooth_mean :: "real mat \<Rightarrow> real mat \<Rightarrow> real mat \<Rightarrow> real mat \<Rightarrow> error + real mat" where
  "smooth_mean f Ji fs1 p1 =
     bindE (arma_minus fs1 p1) (\<lambda>d.
     bindE (arma_times Ji (t_mat d)) (\<lambda>Jd.
     arma_plus f (t_mat Jd)))"

definition smooth_cov :: "real mat \<Rightarrow> real mat \<Rightarrow> real mat \<Rightarrow> real mat \<Rightarrow> error + real mat" where
  "smooth_cov Pf Ji Ps1 Pp1 =
     bindE (arma_minus Ps1 Pp1) (\<lambda>D.
     bindE (arma_times3 Ji D (t_mat Ji)) (\<lambda>JDJ.
     arma_plus Pf JDJ))"

definition fs_step :: "int \<Rightarrow> real mat \<Rightarrow> real mat \<Rightarrow> cube \<Rightarrow> cube \<Rightarrow> int \<Rightarrow> sm_state
    \<Rightarrow> error + sm_state" where
  "fs_step T FT PT PfT PpT j m =
     bindE (row FT (T - j)) (\<lambda>f.
     bindE (slice (m_J m) (T - j)) (\<lambda>Ji.
     bindE (row (m_FsT m) (T - j + 1)) (\<lambda>fs1.
     bindE (row PT (T - j + 1)) (\<lambda>p1.
     bindE (smooth_mean f Ji fs1 p1) (\<lambda>v.
     bindE (set_row (m_FsT m) (T - j) v) (\<lambda>FsT.
     bindE (slice PfT (T - j)) (\<lambda>Pf.
     bindE (slice (m_PsT m) (T - j + 1)) (\<lambda>Ps1.
     bindE (slice PpT (T - j + 1)) (\<lambda>Pp1.
     bindE (smooth_cov Pf Ji Ps1 Pp1) (\<lambda>V.
     bindE (set_slice (m_PsT m) (T - j) V) (\<lambda>PsT.
     Inr (m\<lparr>m_FsT := FsT, m_PsT := PsT\<rparr>))))))))))))"

text \<open>Lines 143 and 144, on the \<^verbatim>\<open>C\<close> and \<^verbatim>\<open>R\<close> in scope.\<close>

definition lk_step :: "real mat \<Rightarrow> real mat \<Rightarrow> cube \<Rightarrow> int \<Rightarrow> sm_state \<Rightarrow> error + sm_state" where
  "lk_step C R PpT i m =
     bindE (slice PpT i) (\<lambda>Pp.
     bindE (innov_S C Pp R) (\<lambda>S.
     bindE (set_slice (m_L m) i S) (\<lambda>L.
     bindE (slice L i) (\<lambda>Li.
     bindE (kalman_gain Pp C Li) (\<lambda>G.
     bindE (set_slice (m_K m) i G) (\<lambda>K.
     Inr (m\<lparr>m_L := L, m_K := K\<rparr>)))))))"

text \<open>Line 147: \<^verbatim>\<open>PsTm.slice(T-1) = (eye(rp,rp) - K.slice(T-1) * C) * A * PfT.slice(T-2)\<close>.\<close>

definition lag_last :: "dbl mat \<Rightarrow> real mat \<Rightarrow> int \<Rightarrow> cube \<Rightarrow> sm_state \<Rightarrow> error + sm_state" where
  "lag_last A C T PfT m =
     needs_finite A
       (bindE (slice (m_K m) (T - 1)) (\<lambda>Kl.
        bindE (arma_times Kl C) (\<lambda>KC.
        bindE (arma_minus (eye (n_rows A) (n_rows A)) KC) (\<lambda>IKC.
        bindE (slice PfT (T - 2)) (\<lambda>Pf2.
        bindE (arma_times3 IKC (real_of A) Pf2) (\<lambda>v.
        bindE (set_slice (m_PsTm m) (T - 1) v) (\<lambda>W.
        Inr (m\<lparr>m_PsTm := W\<rparr>))))))))"

text \<open>Lines 150 to 152, with \<open>i = T - j\<close>.\<close>

definition lag_one :: "dbl mat \<Rightarrow> real mat \<Rightarrow> real mat \<Rightarrow> real mat \<Rightarrow> real mat
    \<Rightarrow> error + real mat" where
  "lag_one A Pf Jm Ji W1 =
     bindE (arma_times Pf (t_mat Jm)) (\<lambda>PJ.
     bindE (arma_times (real_of A) Pf) (\<lambda>AP.
     bindE (arma_minus W1 AP) (\<lambda>D.
     bindE (arma_times3 Ji D (t_mat Jm)) (\<lambda>JDJ.
     arma_plus PJ JDJ))))"

definition lag_step :: "dbl mat \<Rightarrow> int \<Rightarrow> cube \<Rightarrow> int \<Rightarrow> sm_state \<Rightarrow> error + sm_state" where
  "lag_step A T PfT j m =
     needs_finite A
       (bindE (slice PfT (T - j)) (\<lambda>Pf.
        bindE (slice (m_J m) (T - j - 1)) (\<lambda>Jm.
        bindE (slice (m_J m) (T - j)) (\<lambda>Ji.
        bindE (slice (m_PsTm m) (T - j + 1)) (\<lambda>W1.
        bindE (lag_one A Pf Jm Ji W1) (\<lambda>v.
        bindE (set_slice (m_PsTm m) (T - j) v) (\<lambda>W.
        Inr (m\<lparr>m_PsTm := W\<rparr>))))))))"

text \<open>
  Lines 112 to 153. The same text is the second half of \<^verbatim>\<open>KalmanFilterSmoother\<close>
  (lines 237 to 277), so it is one definition over the names it reads: \<^verbatim>\<open>T\<close>, \<^verbatim>\<open>n\<close>,
  \<^verbatim>\<open>A\<close>, \<^verbatim>\<open>C\<close>, \<^verbatim>\<open>R\<close> and the four histories.
\<close>

definition smoother_body :: "int \<Rightarrow> nat \<Rightarrow> dbl mat \<Rightarrow> real mat \<Rightarrow> real mat \<Rightarrow> real mat
    \<Rightarrow> real mat \<Rightarrow> cube \<Rightarrow> cube \<Rightarrow> error + sm_state" where
  "smoother_body T n A C R FT PT PfT PpT =
     bindE (sm_last T FT PfT (sm_init (n_rows A) n (nat T))) (\<lambda>m1.
     bindE (for_loop 0 (T - 1) (j_step A PfT PpT) m1) (\<lambda>m2.
     bindE (for_loop 2 (T + 1) (fs_step T FT PT PfT PpT) m2) (\<lambda>m3.
     bindE (for_loop 0 T (lk_step C R PpT) m3) (\<lambda>m4.
     bindE (lag_last A C T PfT m4) (\<lambda>m5.
     for_loop 2 (T - 1) (lag_step A T PfT) m5)))))"

record ks_out =
  ks_Fs :: "real mat"
  ks_Ps :: cube
  ks_PsTm :: cube

text \<open>
  \<^verbatim>\<open>array2cube\<close> of helper.h turns an R array into a cube; the two covariance histories
  are cubes here from the start.
\<close>

definition KalmanSmoother :: "dbl mat \<Rightarrow> real mat \<Rightarrow> real mat \<Rightarrow> real mat \<Rightarrow> real mat
    \<Rightarrow> cube \<Rightarrow> cube \<Rightarrow> error + ks_out" where
  "KalmanSmoother A C R FT PT PfT PpT =
     bindE (smoother_body (int (n_rows FT)) (n_rows C) A C R FT PT PfT PpT) (\<lambda>m.
       Inr \<lparr>ks_Fs = m_FsT m, ks_Ps = m_PsT m, ks_PsTm = m_PsTm m\<rparr>)"

section \<open>Filter and smoother in one call (KalmanFiltering.cpp, KalmanFilterSmoother)\<close>

record kfs_out =
  kfs_Fs :: "real mat"
  kfs_Ps :: cube
  kfs_PsTm :: cube
  kfs_loglik :: real

text \<open>
  Lines 174 to 234 are the filter, lines 237 to 277 the smoother; the smoother reads
  \<^verbatim>\<open>C\<close> and \<^verbatim>\<open>R\<close> as the filter loop left them.
\<close>

definition KalmanFilterSmoother :: "dbl mat \<Rightarrow> real mat \<Rightarrow> real mat \<Rightarrow> real mat \<Rightarrow> dbl mat
    \<Rightarrow> real mat \<Rightarrow> real mat \<Rightarrow> error + kfs_out" where
  "KalmanFilterSmoother X C Q R A F0 P0 =
     bindE (kf_run X C Q R A F0 P0) (\<lambda>s.
     bindE (smoother_body (int (n_rows X)) (n_cols X) A (s_C s) (s_R s)
              (s_FT s) (s_PT s) (s_PfT s) (s_PpT s)) (\<lambda>m.
       Inr \<lparr>kfs_Fs = m_FsT m, kfs_Ps = m_PsT m, kfs_PsTm = m_PsTm m,
            kfs_loglik = s_loglik s\<rparr>))"

text \<open>
  The composition the specification compares it with: \<^verbatim>\<open>KalmanFilter\<close> on the input,
  then \<^verbatim>\<open>KalmanSmoother\<close> on the full \<^verbatim>\<open>A\<close>, \<^verbatim>\<open>C\<close>, \<^verbatim>\<open>R\<close> and the four histories the
  filter returned, with the filter's log-likelihood.
\<close>

definition filter_then_smooth :: "dbl mat \<Rightarrow> real mat \<Rightarrow> real mat \<Rightarrow> real mat \<Rightarrow> dbl mat
    \<Rightarrow> real mat \<Rightarrow> real mat \<Rightarrow> error + kfs_out" where
  "filter_then_smooth X C Q R A F0 P0 =
     bindE (KalmanFilter X C Q R A F0 P0) (\<lambda>f.
     bindE (KalmanSmoother A C R (kf_F f) (kf_P f) (kf_Pf f) (kf_Pp f)) (\<lambda>k.
       Inr \<lparr>kfs_Fs = ks_Fs k, kfs_Ps = ks_Ps k, kfs_PsTm = ks_PsTm k,
            kfs_loglik = kf_loglik f\<rparr>))"

section \<open>The E-step (EM_algorithm.cpp, Estep)\<close>

record acc_state =
  a_delta :: "real mat"
  a_gamma :: "real mat"
  a_beta :: "real mat"

text \<open>\<^verbatim>\<open>u.t() * v\<close> for two rows.\<close>

definition outer :: "real mat \<Rightarrow> real mat \<Rightarrow> error + real mat" where
  "outer u v = arma_times (t_mat u) v"

text \<open>Lines 37 to 41; \<^verbatim>\<open>X\<close> is the data with its non-finite cells set to zero.\<close>

definition acc_step :: "real mat \<Rightarrow> real mat \<Rightarrow> cube \<Rightarrow> cube \<Rightarrow> int \<Rightarrow> acc_state
    \<Rightarrow> error + acc_state" where
  "acc_step X Fs Psmooth Wsmooth t a =
     bindE (row X t) (\<lambda>x.
     bindE (row Fs t) (\<lambda>f.
     bindE (outer x f) (\<lambda>xf.
     bindE (arma_plus (a_delta a) xf) (\<lambda>delta.
     bindE (outer f f) (\<lambda>ff.
     bindE (slice Psmooth t) (\<lambda>P.
     bindE (arma_plus ff P) (\<lambda>g.
     bindE (arma_plus (a_gamma a) g) (\<lambda>gamma.
     if t > 0
     then bindE (row Fs (t - 1)) (\<lambda>f1.
          bindE (outer f f1) (\<lambda>ff1.
          bindE (slice Wsmooth t) (\<lambda>W.
          bindE (arma_plus ff1 W) (\<lambda>b.
          bindE (arma_plus (a_beta a) b) (\<lambda>beta.
          Inr \<lparr>a_delta = delta, a_gamma = gamma, a_beta = beta\<rparr>)))))
     else Inr \<lparr>a_delta = delta, a_gamma = gamma, a_beta = a_beta a\<rparr>))))))))"

text \<open>Lines 44 and 45: \<^verbatim>\<open>gamma - Fs.row(i).t() * Fs.row(i) - Psmooth.slice(i)\<close>.\<close>

definition leave_out :: "real mat \<Rightarrow> real mat \<Rightarrow> cube \<Rightarrow> int \<Rightarrow> error + real mat" where
  "leave_out gamma Fs Psmooth i =
     bindE (row Fs i) (\<lambda>f.
     bindE (outer f f) (\<lambda>ff.
     bindE (arma_minus gamma ff) (\<lambda>g.
     bindE (slice Psmooth i) (\<lambda>P.
     arma_minus g P))))"

record estep_out =
  e_beta :: "real mat"
  e_gamma :: "real mat"
  e_delta :: "real mat"
  e_gamma1 :: "real mat"
  e_gamma2 :: "real mat"
  e_F0 :: "real mat"
  e_P0 :: "real mat"
  e_loglik :: real

definition Estep :: "dbl mat \<Rightarrow> real mat \<Rightarrow> real mat \<Rightarrow> real mat \<Rightarrow> dbl mat \<Rightarrow> real mat
    \<Rightarrow> real mat \<Rightarrow> error + estep_out" where
  "Estep X C Q R A F0 P0 =
     bindE (KalmanFilterSmoother X C Q R A F0 P0) (\<lambda>ks.
     bindE (for_loop 0 (int (n_rows X))
              (acc_step (real_of X) (kfs_Fs ks) (kfs_Ps ks) (kfs_PsTm ks))
              \<lparr>a_delta = zeros (n_cols X) (n_rows A), a_gamma = zeros (n_rows A) (n_rows A),
               a_beta = zeros (n_rows A) (n_rows A)\<rparr>) (\<lambda>a.
     bindE (leave_out (a_gamma a) (kfs_Fs ks) (kfs_Ps ks) (int (n_rows X) - 1)) (\<lambda>gamma1.
     bindE (leave_out (a_gamma a) (kfs_Fs ks) (kfs_Ps ks) 0) (\<lambda>gamma2.
     bindE (row (kfs_Fs ks) 0) (\<lambda>f0.
     bindE (slice (kfs_Ps ks) 0) (\<lambda>P1.
       Inr \<lparr>e_beta = a_beta a, e_gamma = a_gamma a, e_delta = a_delta a,
            e_gamma1 = gamma1, e_gamma2 = gamma2, e_F0 = t_mat f0, e_P0 = P1,
            e_loglik = kfs_loglik ks\<rparr>))))))"


section \<open>A worked model\<close>

text \<open>
  The scalar model of the specification's end-to-end scenario: one state, one channel,
  four steps, the second observation missing.
\<close>

definition ex_X :: "dbl mat" where
  "ex_X = Mat 4 1 [[Fin 1], [NaN], [Fin (4 / 5)], [Fin (6 / 5)]]"

definition ex_A :: "dbl mat" where
  "ex_A = Mat 1 1 [[Fin (9 / 10)]]"

definition ex_C :: "real mat" where
  "ex_C = Mat 1 1 [[1]]"

definition ex_Q :: "real mat" where
  "ex_Q = Mat 1 1 [[1 / 10]]"

definition ex_R :: "real mat" where
  "ex_R = Mat 1 1 [[1 / 2]]"

definition ex_F0 :: "real mat" where
  "ex_F0 = Mat 1 1 [[0]]"

definition ex_P0 :: "real mat" where
  "ex_P0 = Mat 1 1 [[1]]"

text \<open>The loop state of the worked model after step 0 and after step 1.\<close>

definition ex_s1 :: kf_state where
  "ex_s1 =
     \<lparr>s_C = Mat 1 1 [[1]], s_R = Mat 1 1 [[1 / 2]],
      s_fp = Mat 1 1 [[3 / 5]], s_Pp = Mat 1 1 [[37 / 100]],
      s_loglik = loglik_term 1 (2 / 3) (2 / 3),
      s_PT = Mat 5 1 [[0], [0], [0], [0], [0]],
      s_PpT = Cube 1 1 [Mat 1 1 [[1]], Mat 1 1 [[0]], Mat 1 1 [[0]], Mat 1 1 [[0]],
                Mat 1 1 [[0]]],
      s_FT = Mat 4 1 [[2 / 3], [0], [0], [0]],
      s_PfT = Cube 1 1 [Mat 1 1 [[1 / 3]], Mat 1 1 [[0]], Mat 1 1 [[0]], Mat 1 1 [[0]]]\<rparr>"

definition ex_s2 :: kf_state where
  "ex_s2 =
     \<lparr>s_C = Mat 0 1 [], s_R = Mat 0 0 [],
      s_fp = Mat 1 1 [[27 / 50]], s_Pp = Mat 1 1 [[3997 / 10000]],
      s_loglik = loglik_term 1 (2 / 3) (2 / 3) + loglik_term 1 1 0,
      s_PT = Mat 5 1 [[0], [3 / 5], [0], [0], [0]],
      s_PpT = Cube 1 1 [Mat 1 1 [[1]], Mat 1 1 [[37 / 100]], Mat 1 1 [[0]], Mat 1 1 [[0]],
                Mat 1 1 [[0]]],
      s_FT = Mat 4 1 [[2 / 3], [3 / 5], [0], [0]],
      s_PfT = Cube 1 1 [Mat 1 1 [[1 / 3]], Mat 1 1 [[37 / 100]], Mat 1 1 [[0]],
                Mat 1 1 [[0]]]\<rparr>"

section \<open>Shapes\<close>

text \<open>
  The shapes of the specification's data model: \<open>C\<close> is \<open>n \<times> r\<close>, \<open>A\<close>, \<open>Q\<close> and \<open>P0\<close> are
  \<open>r \<times> r\<close>, \<open>R\<close> is \<open>n \<times> n\<close>, \<open>F0\<close> is a column of \<open>r\<close> cells, with \<open>n\<close> the number of
  columns of \<open>X\<close> and \<open>r \<ge> 1\<close> the number of rows of \<open>A\<close>, and every cell of \<open>A\<close> finite.
\<close>

definition conforming :: "dbl mat \<Rightarrow> real mat \<Rightarrow> real mat \<Rightarrow> real mat \<Rightarrow> dbl mat \<Rightarrow> real mat
    \<Rightarrow> real mat \<Rightarrow> bool" where
  "conforming X C Q R A F0 P0 \<longleftrightarrow>
     0 < n_rows A \<and> n_cols A = n_rows A \<and> all_finite A \<and>
     n_rows C = n_cols X \<and> n_cols C = n_rows A \<and>
     n_rows Q = n_rows A \<and> n_cols Q = n_rows A \<and>
     n_rows R = n_cols X \<and> n_cols R = n_cols X \<and>
     wf_mat F0 \<and> n_rows F0 = n_rows A \<and> n_cols F0 = 1 \<and>
     wf_mat P0 \<and> n_rows P0 = n_rows A \<and> n_cols P0 = n_rows A"

definition kf_shaped :: "nat \<Rightarrow> nat \<Rightarrow> kf_state \<Rightarrow> bool" where
  "kf_shaped T rp s \<longleftrightarrow>
     wf_mat (s_fp s) \<and> n_rows (s_fp s) = rp \<and> n_cols (s_fp s) = 1 \<and>
     wf_mat (s_Pp s) \<and> n_rows (s_Pp s) = rp \<and> n_cols (s_Pp s) = rp \<and>
     n_rows (s_PT s) = T + 1 \<and> n_cols (s_PT s) = rp \<and>
     c_rows (s_PpT s) = rp \<and> c_cols (s_PpT s) = rp \<and> length (slices (s_PpT s)) = T + 1 \<and>
     n_rows (s_FT s) = T \<and> n_cols (s_FT s) = rp \<and>
     c_rows (s_PfT s) = rp \<and> c_cols (s_PfT s) = rp \<and> length (slices (s_PfT s)) = T"

text \<open>The histories the filter returns on the worked model, and the smoother's result.\<close>

definition ex_FT :: "real mat" where
  "ex_FT = Mat 4 1 [[2 / 3], [3 / 5], [29488 / 44985], [630678 / 779665]]"

definition ex_PT :: "real mat" where
  "ex_PT = Mat 5 1 [[0], [3 / 5], [27 / 50], [44232 / 74975], [0]]"

definition ex_PfT :: cube where
  "ex_PfT = Cube 1 1 [Mat 1 1 [[1 / 3]], Mat 1 1 [[37 / 100]], Mat 1 1 [[3997 / 17994]],
     Mat 1 1 [[167899 / 935598]]]"

definition ex_PpT :: cube where
  "ex_PpT = Cube 1 1 [Mat 1 1 [[1]], Mat 1 1 [[37 / 100]], Mat 1 1 [[3997 / 10000]],
     Mat 1 1 [[167899 / 599800]], Mat 1 1 [[0]]]"

definition ex_sm :: sm_state where
  "ex_sm =
     \<lparr>m_J = Cube 1 1 [Mat 1 1 [[30 / 37]], Mat 1 1 [[3330 / 3997]],
              Mat 1 1 [[119910 / 167899]], Mat 1 1 [[0]]],
      m_L = Cube 1 1 [Mat 1 1 [[2 / 3]], Mat 1 1 [[100 / 87]], Mat 1 1 [[10000 / 8997]],
              Mat 1 1 [[599800 / 467799]]],
      m_K = Cube 1 1 [Mat 1 1 [[2 / 3]], Mat 1 1 [[37 / 87]], Mat 1 1 [[3997 / 8997]],
              Mat 1 1 [[167899 / 467799]]],
      m_PsTm = Cube 1 1 [Mat 1 1 [[0]], Mat 1 1 [[0]], Mat 1 1 [[22200 / 155933]],
              Mat 1 1 [[19985 / 155933]]],
      m_FsT = Mat 4 1 [[397780 / 467799], [128880 / 155933], [379796 / 467799],
              [630678 / 779665]],
      m_PsT = Cube 1 1 [Mat 1 1 [[107090 / 467799]], Mat 1 1 [[32930 / 155933]],
              Mat 1 1 [[79940 / 467799]], Mat 1 1 [[167899 / 935598]]]\<rparr>"

text \<open>
  A second model: one factor, two channels, two time steps, the second channel missing at
  the last step.
\<close>

definition ex2_X :: "dbl mat" where
  "ex2_X = Mat 2 2 [[Fin 1, Fin 1], [Fin 1, NaN]]"

definition ex2_C :: "real mat" where
  "ex2_C = Mat 2 1 [[1], [1]]"

definition ex2_R :: "real mat" where
  "ex2_R = Mat 2 2 [[1, 0], [0, 1]]"

definition ex2_A :: "dbl mat" where
  "ex2_A = Mat 1 1 [[Fin 1]]"

definition ex2_Q :: "real mat" where
  "ex2_Q = Mat 1 1 [[1]]"

definition ex2_F0 :: "real mat" where
  "ex2_F0 = Mat 1 1 [[0]]"

definition ex2_P0 :: "real mat" where
  "ex2_P0 = Mat 1 1 [[1]]"

text \<open>
  A third model: two factors, one channel, one time step; the transition matrix has a
  non-finite cell in its first row.
\<close>

definition ex3_X :: "dbl mat" where
  "ex3_X = Mat 1 1 [[Fin 1]]"

definition ex3_C :: "real mat" where
  "ex3_C = Mat 1 2 [[1, 1]]"

definition ex3_Q :: "real mat" where
  "ex3_Q = Mat 2 2 [[1, 0], [0, 1]]"

definition ex3_R :: "real mat" where
  "ex3_R = Mat 1 1 [[1]]"

definition ex3_A :: "dbl mat" where
  "ex3_A = Mat 2 2 [[Fin 1, NaN], [Fin 0, Fin 1]]"

definition ex3_F0 :: "real mat" where
  "ex3_F0 = Mat 2 1 [[0], [0]]"

definition ex3_P0 :: "real mat" where
  "ex3_P0 = Mat 2 2 [[1, 0], [0, 1]]"

text \<open>
  A fourth model: two factors, one channel, two fully observed time steps; \<^verbatim>\<open>P0\<close>, \<^verbatim>\<open>Q\<close>
  and \<^verbatim>\<open>R\<close> are identity matrices.
\<close>

definition ex4_X :: "dbl mat" where
  "ex4_X = Mat 2 1 [[Fin 1], [Fin 1]]"

definition ex4_C :: "real mat" where
  "ex4_C = Mat 1 2 [[1, 0]]"

definition ex4_Q :: "real mat" where
  "ex4_Q = Mat 2 2 [[1, 0], [0, 1]]"

definition ex4_R :: "real mat" where
  "ex4_R = Mat 1 1 [[1]]"

definition ex4_A :: "dbl mat" where
  "ex4_A = Mat 2 2 [[Fin 1, Fin 1], [Fin 0, Fin 1]]"

definition ex4_F0 :: "real mat" where
  "ex4_F0 = Mat 2 1 [[0], [0]]"

definition ex4_P0 :: "real mat" where
  "ex4_P0 = Mat 2 2 [[1, 0], [0, 1]]"

section \<open>Symmetric matrices; the invariant of the elimination\<close>

text \<open>A matrix is symmetric when it equals its transpose.\<close>

definition symmetric :: "real mat \<Rightarrow> bool" where
  "symmetric M \<longleftrightarrow> t_mat M = M"

text \<open>
  An augmented row \<open>(a, b)\<close> of the elimination on \<open>[M | I]\<close> satisfies \<open>a = b M\<close>; the rows
  already reduced carry the unit vectors on the columns already treated.
\<close>

definition lin :: "real mat \<Rightarrow> nat \<Rightarrow> aug_row \<Rightarrow> bool" where
  "lin M n r \<longleftrightarrow> length (fst r) = n \<and> length (snd r) = n \<and>
     (\<forall>c<n. fst r ! c = (\<Sum>k<n. snd r ! k * ent M k c))"

definition gj_inv :: "real mat \<Rightarrow> nat \<Rightarrow> aug_row list \<Rightarrow> aug_row list \<Rightarrow> bool" where
  "gj_inv M n done todo \<longleftrightarrow>
     (\<forall>r \<in> set done \<union> set todo. lin M n r) \<and>
     (\<forall>i<length done. \<forall>c<length done. fst (done ! i) ! c = (if i = c then 1 else 0)) \<and>
     (\<forall>r \<in> set todo. \<forall>c<length done. fst r ! c = 0) \<and>
     length done + length todo = n"

section \<open>Basic facts\<close>

lemma bindE_Inr [simp]: "bindE (Inr x) f = f x"
  by (simp add: bindE_def)

lemma bindE_Inl [simp]: "bindE (Inl e) f = Inl e"
  by (simp add: bindE_def)

lemma bindE_eq_Inr: "bindE m f = Inr y \<longleftrightarrow> (\<exists>x. m = Inr x \<and> f x = Inr y)"
  by (cases m) simp_all

lemma bindE_weak_cong: "m = m' \<Longrightarrow> bindE m f = bindE m' f"
  by simp

lemma n_rows_tab [simp]: "n_rows (tab nr nc f) = nr"
  and n_cols_tab [simp]: "n_cols (tab nr nc f) = nc"
  by (simp_all add: tab_def)

lemma wf_tab [simp]: "wf_mat (tab nr nc f)"
  by (simp add: wf_mat_def tab_def list_all_iff)

lemma ent_tab [simp]: "i < nr \<Longrightarrow> j < nc \<Longrightarrow> ent (tab nr nc f) i j = f i j"
  by (simp add: ent_def tab_def)

lemma tab_cong: "(\<And>i j. i < nr \<Longrightarrow> j < nc \<Longrightarrow> f i j = g i j) \<Longrightarrow> tab nr nc f = tab nr nc g"
  by (simp add: tab_def)

lemma tab_ent: "wf_mat M \<Longrightarrow> tab (n_rows M) (n_cols M) (ent M) = M"
  by (cases M) (auto simp: wf_mat_def tab_def ent_def list_all_iff intro!: nth_equalityI)

lemma mat_eqI:
  assumes "wf_mat M" "wf_mat N" "n_rows M = n_rows N" "n_cols M = n_cols N"
    and "\<And>i j. i < n_rows M \<Longrightarrow> j < n_cols M \<Longrightarrow> ent M i j = ent N i j"
  shows "M = N"
proof -
  have "tab (n_rows M) (n_cols M) (ent M) = tab (n_rows M) (n_cols M) (ent N)"
    by (rule tab_cong) (rule assms(5))
  also have "\<dots> = tab (n_rows N) (n_cols N) (ent N)"
    using assms(3,4) by simp
  finally show ?thesis
    by (simp only: tab_ent [OF assms(1)] tab_ent [OF assms(2)])
qed

lemma for_loop_stop: "hi \<le> i \<Longrightarrow> for_loop i hi body s = Inr s"
  by (simp add: for_loop.simps)

lemma for_loop_go:
  "i < hi \<Longrightarrow> for_loop i hi body s = bindE (body i s) (for_loop (i + 1) hi body)"
  by (subst for_loop.simps) (simp add: bindE_def)

lemma for_loop_inv_aux:
  assumes step: "\<And>i a b. lo0 \<le> i \<Longrightarrow> i < hi \<Longrightarrow> I i a \<Longrightarrow> body i a = Inr b \<Longrightarrow> I (i + 1) b"
  shows "for_loop lo hi body s = Inr s' \<Longrightarrow> I lo s \<Longrightarrow> lo0 \<le> lo \<Longrightarrow> lo \<le> hi \<Longrightarrow> I hi s'"
proof (induction "nat (hi - lo)" arbitrary: lo s)
  case 0
  then show ?case by (simp add: for_loop_stop)
next
  case (Suc k)
  then have lt: "lo < hi" by linarith
  from Suc.prems(1) lt obtain b where b: "body lo s = Inr b"
    and rest: "for_loop (lo + 1) hi body b = Inr s'"
    by (auto simp: for_loop_go bindE_eq_Inr)
  have "I (lo + 1) b"
    using step [of lo s b] lt Suc.prems b by simp
  moreover have "k = nat (hi - (lo + 1))"
    using Suc.hyps(2) by linarith
  ultimately show ?case
    using Suc.hyps(1) [of "lo + 1" b] rest lt Suc.prems by simp
qed

lemma for_loop_inv:
  assumes "for_loop lo hi body s = Inr s'" and "I lo s" and "lo \<le> hi"
    and "\<And>i a b. lo \<le> i \<Longrightarrow> i < hi \<Longrightarrow> I i a \<Longrightarrow> body i a = Inr b \<Longrightarrow> I (i + 1) b"
  shows "I hi s'"
  using for_loop_inv_aux [of lo hi I body lo s s'] assms by simp

subsection \<open>Shapes\<close>

lemma dims_ops [simp]:
  "n_rows (zeros nr nc) = nr" "n_cols (zeros nr nc) = nc"
  "n_rows (eye nr nc) = nr" "n_cols (eye nr nc) = nc"
  "n_rows (t_mat M) = n_cols M" "n_cols (t_mat M) = n_rows M"
  "n_rows (plus_mat M N) = n_rows M" "n_cols (plus_mat M N) = n_cols M"
  "n_rows (minus_mat M N) = n_rows M" "n_cols (minus_mat M N) = n_cols M"
  "n_rows (times_mat M N) = n_rows M" "n_cols (times_mat M N) = n_cols N"
  "n_rows (real_of D) = n_rows D" "n_cols (real_of D) = n_cols D"
  "n_rows (x_obs X t miss) = length miss" "n_cols (x_obs X t miss) = 1"
  by (simp_all add: zeros_def eye_def t_mat_def plus_mat_def minus_mat_def times_mat_def
      real_of_def x_obs_def)

lemma wf_ops [simp]:
  "wf_mat (zeros nr nc)" "wf_mat (eye nr nc)" "wf_mat (t_mat M)" "wf_mat (plus_mat M N)"
  "wf_mat (minus_mat M N)" "wf_mat (times_mat M N)" "wf_mat (real_of D)"
  "wf_mat (x_obs X t miss)"
  by (simp_all add: zeros_def eye_def t_mat_def plus_mat_def minus_mat_def times_mat_def
      real_of_def x_obs_def)

lemma ent_ops [simp]:
  "i < nr \<Longrightarrow> j < nc \<Longrightarrow> ent (zeros nr nc) i j = 0"
  "i < n_cols M \<Longrightarrow> j < n_rows M \<Longrightarrow> ent (t_mat M) i j = ent M j i"
  "i < n_rows M \<Longrightarrow> j < n_cols M \<Longrightarrow> ent (plus_mat M N) i j = ent M i j + ent N i j"
  "i < n_rows M \<Longrightarrow> j < n_cols M \<Longrightarrow> ent (minus_mat M N) i j = ent M i j - ent N i j"
  "i < n_rows M \<Longrightarrow> j < n_cols N \<Longrightarrow>
     ent (times_mat M N) i j = (\<Sum>k\<leftarrow>[0..<n_cols M]. ent M i k * ent N k j)"
  by (simp_all add: zeros_def t_mat_def plus_mat_def minus_mat_def times_mat_def)

subsection \<open>When an operation returns\<close>

lemma arma_plus_Inr:
  "arma_plus M N = Inr P \<longleftrightarrow> n_rows M = n_rows N \<and> n_cols M = n_cols N \<and> P = plus_mat M N"
  by (auto simp: arma_plus_def)

lemma arma_minus_Inr:
  "arma_minus M N = Inr P \<longleftrightarrow> n_rows M = n_rows N \<and> n_cols M = n_cols N \<and> P = minus_mat M N"
  by (auto simp: arma_minus_def)

lemma arma_times_Inr:
  "arma_times M N = Inr P \<longleftrightarrow> n_cols M = n_rows N \<and> P = times_mat M N"
  by (auto simp: arma_times_def)

lemma arma_times3_Inr:
  "arma_times3 M N K = Inr P \<longleftrightarrow>
     n_cols M = n_rows N \<and> n_cols N = n_rows K \<and> P = times_mat (times_mat M N) K"
  by (auto simp: arma_times3_def bindE_eq_Inr arma_times_Inr)

lemma row_Inr:
  "row M i = Inr v \<longleftrightarrow>
     0 \<le> i \<and> i < int (n_rows M) \<and> v = tab 1 (n_cols M) (\<lambda>a j. ent M (nat i) j)"
  by (auto simp: row_def)

lemma set_row_Inr:
  "set_row M i v = Inr M' \<longleftrightarrow>
     0 \<le> i \<and> i < int (n_rows M) \<and> n_rows v = 1 \<and> n_cols v = n_cols M \<and>
     M' = tab (n_rows M) (n_cols M) (\<lambda>a j. if a = nat i then ent v 0 j else ent M a j)"
  by (auto simp: set_row_def)

lemma slice_Inr:
  "slice Q i = Inr M \<longleftrightarrow> 0 \<le> i \<and> i < int (length (slices Q)) \<and> M = slices Q ! nat i"
  by (auto simp: slice_def)

lemma set_slice_Inr:
  "set_slice Q i M = Inr Q' \<longleftrightarrow>
     0 \<le> i \<and> i < int (length (slices Q)) \<and> n_rows M = c_rows Q \<and> n_cols M = c_cols Q \<and>
     Q' = Cube (c_rows Q) (c_cols Q) ((slices Q)[nat i := M])"
  by (auto simp: set_slice_def)

lemma needs_finite_Inr:
  "needs_finite D m = Inr x \<longleftrightarrow> m = Inr x \<and> all_finite D"
  by (cases m) (auto simp: needs_finite_def)

lemma conv_to_double_Inr:
  "conv_to_double M = Inr q \<longleftrightarrow> n_rows M * n_cols M = 1 \<and> q = ent M 0 0"
  by (auto simp: conv_to_double_def)

lemma arma_det_Inr:
  "arma_det M = Inr d \<longleftrightarrow> n_rows M = n_cols M \<and> d = det_rows (rows_of M)"
  by (auto simp: arma_det_def)

lemma kf_stepE:
  assumes "kf_step X tC tR Q A nmiss t s = Inr s'"
  obtains miss C R S xe K ff Pf where
    "find_finite_row X t = Inr miss"
    "submat tC miss nmiss = Inr C"
    "submat tR miss miss = Inr R"
    "innov_S C (s_Pp s) R = Inr S"
    "pred_error (x_obs X t miss) C (s_fp s) = Inr xe"
    "kalman_gain (s_Pp s) C S = Inr K"
    "upd_mean (s_fp s) K xe = Inr ff"
    "upd_cov (s_Pp s) K C = Inr Pf"
    "upd_loglik (n_cols X) S xe (s_loglik s) = Inr (s_loglik s')"
    "set_row (s_PT s) t (t_mat (s_fp s)) = Inr (s_PT s')"
    "set_slice (s_PpT s) t (s_Pp s) = Inr (s_PpT s')"
    "set_row (s_FT s) t (t_mat ff) = Inr (s_FT s')"
    "set_slice (s_PfT s) t Pf = Inr (s_PfT s')"
    "predict_mean A (s_FT s') t = Inr (s_fp s')"
    "predict_cov A (s_PfT s') t Q = Inr (s_Pp s')"
    "s_C s' = C" "s_R s' = R"
proof -
  from assms obtain miss C R S xe K ff Pf l PT PpT FT PfT fp Pp where
    h: "find_finite_row X t = Inr miss"
    "submat tC miss nmiss = Inr C"
    "submat tR miss miss = Inr R"
    "innov_S C (s_Pp s) R = Inr S"
    "pred_error (x_obs X t miss) C (s_fp s) = Inr xe"
    "kalman_gain (s_Pp s) C S = Inr K"
    "upd_mean (s_fp s) K xe = Inr ff"
    "upd_cov (s_Pp s) K C = Inr Pf"
    "upd_loglik (n_cols X) S xe (s_loglik s) = Inr l"
    "set_row (s_PT s) t (t_mat (s_fp s)) = Inr PT"
    "set_slice (s_PpT s) t (s_Pp s) = Inr PpT"
    "set_row (s_FT s) t (t_mat ff) = Inr FT"
    "set_slice (s_PfT s) t Pf = Inr PfT"
    "predict_mean A FT t = Inr fp"
    "predict_cov A PfT t Q = Inr Pp"
    and s': "Inr \<lparr>s_C = C, s_R = R, s_fp = fp, s_Pp = Pp, s_loglik = l,
          s_PT = PT, s_PpT = PpT, s_FT = FT, s_PfT = PfT\<rparr> = (Inr s' :: error + kf_state)"
    unfolding kf_step_def bindE_eq_Inr by (elim exE conjE) (erule meta_mp | assumption)+
  from s' have "s' = \<lparr>s_C = C, s_R = R, s_fp = fp, s_Pp = Pp, s_loglik = l,
          s_PT = PT, s_PpT = PpT, s_FT = FT, s_PfT = PfT\<rparr>" by simp
  with h show ?thesis by (intro that [of miss C R S xe K ff Pf]) simp_all
qed

lemma find_finite_row_Inr:
  "find_finite_row M i = Inr ms \<longleftrightarrow>
     0 \<le> i \<and> i < int (n_rows M) \<and> ms = filter (\<lambda>j. is_finite (ent M (nat i) j)) [0..<n_cols M]"
  by (auto simp: find_finite_row_def)

lemma submat_Inr:
  "submat M ri ci = Inr P \<longleftrightarrow>
     (\<forall>c \<in> set ci. c < n_cols M) \<and> (ci = [] \<or> (\<forall>r \<in> set ri. r < n_rows M)) \<and>
     P = tab (length ri) (length ci) (\<lambda>i j. ent M (ri ! i) (ci ! j))"
  unfolding submat_def by (cases "ci = []") (auto simp: not_le, (metis not_le)+)

lemma arma_inv_empty: "n_rows M = 0 \<Longrightarrow> n_cols M = 0 \<Longrightarrow> arma_inv M = Inr (Mat 0 0 [])"
  by (simp add: arma_inv_def)

lemma innov_S_Inr:
  "innov_S C Pp R = Inr S \<longleftrightarrow>
     n_cols C = n_rows Pp \<and> n_cols Pp = n_cols C \<and> n_rows C = n_rows R \<and> n_rows C = n_cols R \<and>
     arma_inv (plus_mat (times_mat (times_mat C Pp) (t_mat C)) R) = Inr S"
  by (auto simp: innov_S_def bindE_eq_Inr arma_times3_Inr arma_plus_Inr)

lemma pred_error_Inr:
  "pred_error x C fp = Inr xe \<longleftrightarrow>
     n_cols C = n_rows fp \<and> n_rows x = n_rows C \<and> n_cols x = n_cols fp \<and>
     xe = minus_mat x (times_mat C fp)"
  by (auto simp: pred_error_def bindE_eq_Inr arma_times_Inr arma_minus_Inr)

lemma kalman_gain_Inr:
  "kalman_gain Pp C S = Inr K \<longleftrightarrow>
     n_cols Pp = n_cols C \<and> n_rows C = n_rows S \<and> K = times_mat (times_mat Pp (t_mat C)) S"
  by (auto simp: kalman_gain_def arma_times3_Inr)

lemma upd_mean_Inr:
  "upd_mean fp K xe = Inr ff \<longleftrightarrow>
     n_cols K = n_rows xe \<and> n_rows fp = n_rows K \<and> n_cols fp = n_cols xe \<and>
     ff = plus_mat fp (times_mat K xe)"
  by (auto simp: upd_mean_def bindE_eq_Inr arma_times_Inr arma_plus_Inr)

lemma upd_cov_Inr:
  "upd_cov Pp K C = Inr Pf \<longleftrightarrow>
     n_cols K = n_rows C \<and> n_cols C = n_rows Pp \<and> n_rows Pp = n_rows K \<and>
     Pf = minus_mat Pp (times_mat (times_mat K C) Pp)"
  by (auto simp: upd_cov_def bindE_eq_Inr arma_times3_Inr arma_minus_Inr)

lemma upd_loglik_Inr:
  "upd_loglik n S xe l = Inr l' \<longleftrightarrow>
     n_rows S = n_cols S \<and>
     (if det_rows (rows_of S) > 0
      then n_rows xe = n_rows S \<and> n_cols xe = 1 \<and>
           l' = l + loglik_term n (det_rows (rows_of S))
                  (ent (times_mat (times_mat (t_mat xe) S) xe) 0 0)
      else l' = l)"
  by (auto simp: upd_loglik_def bindE_eq_Inr arma_det_Inr arma_times3_Inr conv_to_double_Inr)

lemma predict_mean_Inr:
  "predict_mean A FT t = Inr fp \<longleftrightarrow>
     all_finite A \<and> 0 \<le> t \<and> t < int (n_rows FT) \<and> n_cols A = n_cols FT \<and>
     fp = times_mat (real_of A) (t_mat (tab 1 (n_cols FT) (\<lambda>a j. ent FT (nat t) j)))"
  by (auto simp: predict_mean_def needs_finite_Inr bindE_eq_Inr row_Inr arma_times_Inr)

lemma predict_cov_Inr:
  "predict_cov A PfT t Q = Inr Pp \<longleftrightarrow>
     all_finite A \<and> 0 \<le> t \<and> t < int (length (slices PfT)) \<and>
     n_cols A = n_rows (slices PfT ! nat t) \<and> n_cols (slices PfT ! nat t) = n_cols A \<and>
     n_rows A = n_rows Q \<and> n_rows A = n_cols Q \<and>
     Pp = plus_mat (times_mat (times_mat (real_of A) (slices PfT ! nat t)) (t_mat (real_of A))) Q"
  by (auto simp: predict_cov_def needs_finite_Inr bindE_eq_Inr slice_Inr arma_times3_Inr
      arma_plus_Inr)

text \<open>The step at a row with no finite cell.\<close>

lemma missing_step_loglik:
  assumes "kf_step X tC tR Q A nmiss t s = Inr s'" and "find_finite_row X t = Inr []"
  shows "s_loglik s' = s_loglik s + loglik_term (n_cols X) 1 0"
proof -
  from assms(1) obtain miss C R S xe K ff Pf where h:
    "find_finite_row X t = Inr miss"
    "submat tC miss nmiss = Inr C"
    "submat tR miss miss = Inr R"
    "innov_S C (s_Pp s) R = Inr S"
    "pred_error (x_obs X t miss) C (s_fp s) = Inr xe"
    "upd_loglik (n_cols X) S xe (s_loglik s) = Inr (s_loglik s')"
    by (rule kf_stepE)
  from h(1) assms(2) have miss: "miss = []" by simp
  from h(2,3) miss have C: "n_rows C = 0" and R: "n_rows R = 0" "n_cols R = 0"
    by (auto simp: submat_Inr)
  from h(4) C R have S: "S = Mat 0 0 []"
    by (simp add: innov_S_Inr arma_inv_empty)
  from h(5) miss have xe: "n_rows xe = 0" "n_cols xe = 1"
    by (auto simp: pred_error_Inr)
  have q: "ent (times_mat (times_mat (t_mat xe) S) xe) 0 0 = 0"
    using xe S by simp
  from h(6) show ?thesis
    using S xe q by (simp add: upd_loglik_Inr)
qed

subsection \<open>Evaluation on literals\<close>

lemmas ex_defs = ex_X_def ex_A_def ex_C_def ex_Q_def ex_R_def ex_F0_def ex_P0_def

lemmas mat_eval =
  needs_finite_def real_of_def all_finite_def arma_inv_def unit_row_def eliminate_def
  sub_row_def scale_row_def arma_det_def drop_col_def conv_to_double_def x_obs_def submat_def
  find_finite_row_def set_slice_def slice_def set_row_def row_def arma_times3_def
  arma_times_def arma_minus_def arma_plus_def zeros_cube_def times_mat_def minus_mat_def
  plus_mat_def t_mat_def eye_def zeros_def tab_def ent_def upt_rec numeral_eq_Suc

lemmas kf_eval =
  kf_run_def kf_init_def kf_step_def predict_cov_def predict_mean_def upd_loglik_def
  loglik_term_def upd_cov_def upd_mean_def kalman_gain_def pred_error_def innov_S_def
  for_loop_go for_loop_stop

lemmas sm_eval =
  smoother_body_def lag_step_def lag_one_def lag_last_def lk_step_def fs_step_def
  smooth_cov_def smooth_mean_def j_step_def smoother_gain_def sm_last_def sm_init_def
  kalman_gain_def innov_S_def for_loop_go for_loop_stop

lemma ex_kf_run:
  "kf_run ex_X ex_C ex_Q ex_R ex_A ex_F0 ex_P0 = Inr
     \<lparr>s_C = Mat 1 1 [[1]], s_R = Mat 1 1 [[1 / 2]],
      s_fp = Mat 1 1 [[2838051 / 3898325]], s_Pp = Mat 1 1 [[7651933 / 31186600]],
      s_loglik = loglik_term 1 (2 / 3) (2 / 3) + loglik_term 1 1 0
        + loglik_term 1 (10000 / 8997) (676 / 8997)
        + loglik_term 1 (599800 / 467799) (5578572384 / 11691076675),
      s_PT = Mat 5 1 [[0], [3 / 5], [27 / 50], [44232 / 74975], [0]],
      s_PpT = Cube 1 1 [Mat 1 1 [[1]], Mat 1 1 [[37 / 100]], Mat 1 1 [[3997 / 10000]],
                Mat 1 1 [[167899 / 599800]], Mat 1 1 [[0]]],
      s_FT = Mat 4 1 [[2 / 3], [3 / 5], [29488 / 44985], [630678 / 779665]],
      s_PfT = Cube 1 1 [Mat 1 1 [[1 / 3]], Mat 1 1 [[37 / 100]], Mat 1 1 [[3997 / 17994]],
                Mat 1 1 [[167899 / 935598]]]\<rparr>"
  by (simp add: ex_defs kf_eval mat_eval cong: bindE_weak_cong)

section \<open>The predicted histories\<close>

text \<open>
  C4 (the code departs from the claim). The predicted histories have \<open>T + 1\<close> slots, and
  the loop stores the predicted pair of step \<open>t\<close> in slot \<open>t\<close> for \<open>t < T\<close> only. On the
  worked model (\<open>T = 4\<close>) the forecast past the series is in \<^verbatim>\<open>fp\<close> and \<^verbatim>\<open>Pp\<close> when the
  loop ends, but slot 4 of both histories still holds the zeros it was created with.
\<close>

theorem C4_last_slot_left_zero:
  "map_sum id kf_P (KalmanFilter ex_X ex_C ex_Q ex_R ex_A ex_F0 ex_P0)
     = Inr (Mat 5 1 [[0], [3 / 5], [27 / 50], [44232 / 74975], [0]])
   \<and> map_sum id kf_Pp (KalmanFilter ex_X ex_C ex_Q ex_R ex_A ex_F0 ex_P0)
     = Inr (Cube 1 1 [Mat 1 1 [[1]], Mat 1 1 [[37 / 100]], Mat 1 1 [[3997 / 10000]],
              Mat 1 1 [[167899 / 599800]], Mat 1 1 [[0]]])
   \<and> map_sum id s_fp (kf_run ex_X ex_C ex_Q ex_R ex_A ex_F0 ex_P0)
     = Inr (Mat 1 1 [[2838051 / 3898325]])
   \<and> map_sum id s_Pp (kf_run ex_X ex_C ex_Q ex_R ex_A ex_F0 ex_P0)
     = Inr (Mat 1 1 [[7651933 / 31186600]])"
  by (simp add: KalmanFilter_def ex_kf_run)

section \<open>The likelihood\<close>

lemma ex_step0:
  "kf_step ex_X ex_C ex_R ex_Q ex_A [0] 0 (kf_init ex_X ex_C ex_R ex_A ex_F0 ex_P0)
     = Inr ex_s1"
  by (simp add: ex_s1_def ex_defs kf_eval mat_eval cong: bindE_weak_cong)

lemma ex_step1: "kf_step ex_X ex_C ex_R ex_Q ex_A [0] 1 ex_s1 = Inr ex_s2"
  by (simp add: ex_s1_def ex_s2_def ex_defs kf_eval mat_eval cong: bindE_weak_cong)

lemma ln_2pi_pos: "0 < ln (2 * pi)"
proof -
  have "1 < 2 * pi" using pi_ge_two by linarith
  then show ?thesis by simp
qed

text \<open>
  C1 as stated fails. In the worked model the row of step 1 is not-a-number; the loop
  reaches the state \<open>ex_s1\<close> after step 0, and step 1 lowers the accumulator by
  \<open>ln (2 \<pi>) / 2\<close>: the determinant of the empty \<open>S\<close> is 1, so the guard holds and the
  constant term \<open>n * ln (2 \<pi>)\<close> is added.
\<close>

theorem C1_accumulator_altered:
  "for_loop 0 1 (kf_step ex_X ex_C ex_R ex_Q ex_A [0])
       (kf_init ex_X ex_C ex_R ex_A ex_F0 ex_P0) = Inr ex_s1
   \<and> find_finite_row ex_X 1 = Inr []
   \<and> map_sum id s_loglik (kf_step ex_X ex_C ex_R ex_Q ex_A [0] 1 ex_s1)
       = Inr (s_loglik ex_s1 - ln (2 * pi) / 2)
   \<and> s_loglik ex_s1 - ln (2 * pi) / 2 < s_loglik ex_s1"
proof -
  have "for_loop 0 1 (kf_step ex_X ex_C ex_R ex_Q ex_A [0])
       (kf_init ex_X ex_C ex_R ex_A ex_F0 ex_P0) = Inr ex_s1"
    by (simp add: for_loop_go for_loop_stop ex_step0)
  moreover have "find_finite_row ex_X 1 = Inr []"
    by (simp add: ex_defs mat_eval)
  moreover have "map_sum id s_loglik (kf_step ex_X ex_C ex_R ex_Q ex_A [0] 1 ex_s1)
       = Inr (s_loglik ex_s1 - ln (2 * pi) / 2)"
    by (simp add: ex_step1) (simp add: ex_s1_def ex_s2_def loglik_term_def)
  ultimately show ?thesis using ln_2pi_pos by simp
qed

text \<open>
  C1, amended. A step whose row of \<open>X\<close> has no finite cell changes the running
  log-likelihood by exactly \<open>- n * ln (2 \<pi>) / 2\<close>, with \<open>n\<close> the number of channels: the
  accumulator is left as it was only when \<open>n = 0\<close>.
\<close>

theorem C1_missing_row_adds_constant:
  assumes "kf_step X tC tR Q A nmiss t s = Inr s'"
    and "list_all (\<lambda>j. \<not> is_finite (ent X (nat t) j)) [0..<n_cols X]"
  shows "s_loglik s' = s_loglik s - real (n_cols X) * ln (2 * pi) / 2"
proof -
  from assms(1) obtain miss where "find_finite_row X t = Inr miss"
    by (rule kf_stepE)
  with assms(2) have "find_finite_row X t = Inr []"
    by (auto simp: find_finite_row_Inr list_all_iff filter_empty_conv)
  from missing_step_loglik [OF assms(1) this] show ?thesis
    by (simp add: loglik_term_def)
qed

theorem C1_missing_row_witness:
  "map_sum id s_loglik (kf_step ex_X ex_C ex_R ex_Q ex_A [0] 1 ex_s1)
     = Inr (s_loglik ex_s1 - real (n_cols ex_X) * ln (2 * pi) / 2)"
proof -
  have "list_all (\<lambda>j. \<not> is_finite (ent ex_X (nat 1) j)) [0..<n_cols ex_X]"
    by (simp add: ex_defs mat_eval)
  from C1_missing_row_adds_constant [OF ex_step1 this] show ?thesis
    by (simp add: ex_step1)
qed

text \<open>
  C5 as stated fails. The claim writes the quadratic form as \<open>xe\<^sup>T S\<inverse> xe\<close>. At step 0 of
  the worked model the innovation covariance is \<open>3/2\<close>, the code's \<open>S\<close> is its inverse \<open>2/3\<close>
  and \<open>xe = 1\<close>; the increment the code adds uses \<open>ln (det S)\<close> and \<open>xe\<^sup>T S xe\<close> with that
  inverse. It differs from the claim's formula read with \<open>S\<close> the inverse (quadratic form
  \<open>3/2\<close>) and read with \<open>S\<close> the covariance itself (\<open>ln (det S) = ln (3/2)\<close>).
\<close>

theorem C5_claimed_formula_differs:
  "kf_step ex_X ex_C ex_R ex_Q ex_A [0] 0 (kf_init ex_X ex_C ex_R ex_A ex_F0 ex_P0) = Inr ex_s1
   \<and> s_loglik (kf_init ex_X ex_C ex_R ex_A ex_F0 ex_P0) = 0
   \<and> arma_plus (times_mat (times_mat ex_C ex_P0) (t_mat ex_C)) ex_R = Inr (Mat 1 1 [[3 / 2]])
   \<and> innov_S ex_C ex_P0 ex_R = Inr (Mat 1 1 [[2 / 3]])
   \<and> arma_inv (Mat 1 1 [[2 / 3]]) = Inr (Mat 1 1 [[3 / 2]])
   \<and> pred_error (x_obs ex_X 0 [0]) ex_C ex_F0 = Inr (Mat 1 1 [[1]])
   \<and> s_loglik ex_s1 = - (1 / 2) * (real (n_cols ex_X) * ln (2 * pi)
        - ln (det_rows (rows_of (Mat 1 1 [[2 / 3]])))
        + ent (times_mat (times_mat (t_mat (Mat 1 1 [[1]])) (Mat 1 1 [[2 / 3]]))
            (Mat 1 1 [[1]])) 0 0)
   \<and> s_loglik ex_s1 \<noteq> - (1 / 2) * (real (n_cols ex_X) * ln (2 * pi)
        - ln (det_rows (rows_of (Mat 1 1 [[2 / 3]])))
        + ent (times_mat (times_mat (t_mat (Mat 1 1 [[1]])) (Mat 1 1 [[3 / 2]]))
            (Mat 1 1 [[1]])) 0 0)
   \<and> s_loglik ex_s1 \<noteq> - (1 / 2) * (real (n_cols ex_X) * ln (2 * pi)
        - ln (det_rows (rows_of (Mat 1 1 [[3 / 2]])))
        + ent (times_mat (times_mat (t_mat (Mat 1 1 [[1]])) (Mat 1 1 [[2 / 3]]))
            (Mat 1 1 [[1]])) 0 0)"
proof -
  have q: "ent (times_mat (times_mat (t_mat (Mat 1 1 [[1]])) (Mat 1 1 [[2 / 3]]))
            (Mat 1 1 [[1]])) 0 0 = 2 / 3"
    "ent (times_mat (times_mat (t_mat (Mat 1 1 [[1]])) (Mat 1 1 [[3 / 2]]))
            (Mat 1 1 [[1]])) 0 0 = 3 / 2"
    by (simp_all add: mat_eval)
  have d: "det_rows (rows_of (Mat 1 1 [[2 / 3]])) = 2 / 3"
    "det_rows (rows_of (Mat 1 1 [[3 / 2]])) = 3 / 2"
    by (simp_all add: mat_eval)
  have l: "s_loglik ex_s1 = - (1 / 2) * (ln (2 * pi) - ln (2 / 3) + 2 / 3)"
    by (simp add: ex_s1_def loglik_term_def)
  have n: "real (n_cols ex_X) = 1"
    by (simp add: ex_X_def)
  have ne: "ln (2 / 3 :: real) \<noteq> ln (3 / 2)"
    by simp
  have "s_loglik (kf_init ex_X ex_C ex_R ex_A ex_F0 ex_P0) = 0"
    by (simp add: kf_init_def)
  moreover have "arma_plus (times_mat (times_mat ex_C ex_P0) (t_mat ex_C)) ex_R
      = Inr (Mat 1 1 [[3 / 2]])"
    by (simp add: ex_defs mat_eval)
  moreover have "innov_S ex_C ex_P0 ex_R = Inr (Mat 1 1 [[2 / 3]])"
    by (simp add: innov_S_def ex_defs mat_eval cong: bindE_weak_cong)
  moreover have "arma_inv (Mat 1 1 [[2 / 3]]) = Inr (Mat 1 1 [[3 / 2]])"
    by (simp add: mat_eval)
  moreover have "pred_error (x_obs ex_X 0 [0]) ex_C ex_F0 = Inr (Mat 1 1 [[1]])"
    by (simp add: pred_error_def ex_defs mat_eval cong: bindE_weak_cong)
  moreover have "s_loglik ex_s1 = - (1 / 2) * (real (n_cols ex_X) * ln (2 * pi)
        - ln (det_rows (rows_of (Mat 1 1 [[2 / 3]])))
        + ent (times_mat (times_mat (t_mat (Mat 1 1 [[1]])) (Mat 1 1 [[2 / 3]]))
            (Mat 1 1 [[1]])) 0 0)"
    unfolding q d l n by simp
  moreover have "s_loglik ex_s1 \<noteq> - (1 / 2) * (real (n_cols ex_X) * ln (2 * pi)
        - ln (det_rows (rows_of (Mat 1 1 [[2 / 3]])))
        + ent (times_mat (times_mat (t_mat (Mat 1 1 [[1]])) (Mat 1 1 [[3 / 2]]))
            (Mat 1 1 [[1]])) 0 0)"
    unfolding q d l n by simp
  moreover have "s_loglik ex_s1 \<noteq> - (1 / 2) * (real (n_cols ex_X) * ln (2 * pi)
        - ln (det_rows (rows_of (Mat 1 1 [[3 / 2]])))
        + ent (times_mat (times_mat (t_mat (Mat 1 1 [[1]])) (Mat 1 1 [[2 / 3]]))
            (Mat 1 1 [[1]])) 0 0)"
    unfolding q d l n using ne by simp
  ultimately show ?thesis
    using ex_step0 by (intro conjI)
qed

text \<open>
  C5, amended. In one step of the filter loop, with \<open>S\<close> the inverse of the innovation covariance
  of the restricted channels and \<open>xe\<close> the prediction error, the increment
  \<open>- 1/2 * (n * ln (2 \<pi>) - ln (det S) + xe\<^sup>T S xe)\<close> is added when \<open>det S > 0\<close> and the
  accumulator is left alone otherwise; \<open>n\<close> is the number of columns of \<open>X\<close>, not the
  number of channels observed at the step.
\<close>

theorem C5_loglik_increment:
  assumes "kf_step X tC tR Q A nmiss t s = Inr s'"
  shows "\<exists>miss C R S xe.
      find_finite_row X t = Inr miss \<and> submat tC miss nmiss = Inr C \<and>
      submat tR miss miss = Inr R \<and>
      arma_inv (plus_mat (times_mat (times_mat C (s_Pp s)) (t_mat C)) R) = Inr S \<and>
      xe = minus_mat (x_obs X t miss) (times_mat C (s_fp s)) \<and>
      s_loglik s' =
        (if 0 < det_rows (rows_of S)
         then s_loglik s + - (1 / 2) * (real (n_cols X) * ln (2 * pi)
                - ln (det_rows (rows_of S))
                + ent (times_mat (times_mat (t_mat xe) S) xe) 0 0)
         else s_loglik s)"
proof -
  from assms obtain miss C R S xe where h:
    "find_finite_row X t = Inr miss"
    "submat tC miss nmiss = Inr C"
    "submat tR miss miss = Inr R"
    "innov_S C (s_Pp s) R = Inr S"
    "pred_error (x_obs X t miss) C (s_fp s) = Inr xe"
    "upd_loglik (n_cols X) S xe (s_loglik s) = Inr (s_loglik s')"
    by (rule kf_stepE)
  from h(4) have S: "arma_inv (plus_mat (times_mat (times_mat C (s_Pp s)) (t_mat C)) R) = Inr S"
    by (simp add: innov_S_Inr)
  from h(5) have xe: "xe = minus_mat (x_obs X t miss) (times_mat C (s_fp s))"
    by (simp add: pred_error_Inr)
  from h(6) have "s_loglik s' =
        (if 0 < det_rows (rows_of S)
         then s_loglik s + - (1 / 2) * (real (n_cols X) * ln (2 * pi)
                - ln (det_rows (rows_of S))
                + ent (times_mat (times_mat (t_mat xe) S) xe) 0 0)
         else s_loglik s)"
    by (simp add: upd_loglik_Inr loglik_term_def split: if_splits)
  with h(1-3) S xe show ?thesis by blast
qed

theorem C5_loglik_increment_witness:
  "\<exists>miss C R S xe.
      find_finite_row ex_X 0 = Inr miss \<and> submat ex_C miss [0] = Inr C \<and>
      submat ex_R miss miss = Inr R \<and>
      arma_inv (plus_mat (times_mat (times_mat C
          (s_Pp (kf_init ex_X ex_C ex_R ex_A ex_F0 ex_P0))) (t_mat C)) R) = Inr S \<and>
      xe = minus_mat (x_obs ex_X 0 miss)
             (times_mat C (s_fp (kf_init ex_X ex_C ex_R ex_A ex_F0 ex_P0))) \<and>
      s_loglik ex_s1 =
        (if 0 < det_rows (rows_of S)
         then s_loglik (kf_init ex_X ex_C ex_R ex_A ex_F0 ex_P0)
                + - (1 / 2) * (real (n_cols ex_X) * ln (2 * pi)
                - ln (det_rows (rows_of S))
                + ent (times_mat (times_mat (t_mat xe) S) xe) 0 0)
         else s_loglik (kf_init ex_X ex_C ex_R ex_A ex_F0 ex_P0))"
  by (rule C5_loglik_increment [OF ex_step0])

section \<open>A step with every channel missing\<close>

lemma cube_sel [simp]:
  "c_rows (zeros_cube nr nc ns) = nr" "c_cols (zeros_cube nr nc ns) = nc"
  "length (slices (zeros_cube nr nc ns)) = ns"
  by (simp_all add: zeros_cube_def)

lemma kf_shaped_init:
  "conforming X C Q R A F0 P0 \<Longrightarrow> kf_shaped (n_rows X) (n_rows A) (kf_init X C R A F0 P0)"
  by (simp add: conforming_def kf_shaped_def kf_init_def)

lemma all_finite_iff:
  "all_finite M \<longleftrightarrow> (\<forall>i < n_rows M. \<forall>j < n_cols M. is_finite (ent M i j))"
  by (auto simp: all_finite_def list_all_iff)

lemma find_finite_all:
  "all_finite A \<Longrightarrow> 0 < n_rows A \<Longrightarrow> find_finite_row A 0 = Inr [0..<n_cols A]"
  by (auto simp: find_finite_row_def all_finite_iff filter_id_conv)

text \<open>What a step leaves alone, and what it stores.\<close>

lemma kf_step_frame:
  assumes "kf_step X tC tR Q A nmiss u s = Inr s'"
  shows "n_rows (s_PT s') = n_rows (s_PT s)" "n_cols (s_PT s') = n_cols (s_PT s)"
    "n_rows (s_FT s') = n_rows (s_FT s)" "n_cols (s_FT s') = n_cols (s_FT s)"
    "length (slices (s_PpT s')) = length (slices (s_PpT s))"
    "length (slices (s_PfT s')) = length (slices (s_PfT s))"
    "c_rows (s_PpT s') = c_rows (s_PpT s)" "c_cols (s_PpT s') = c_cols (s_PpT s)"
    "c_rows (s_PfT s') = c_rows (s_PfT s)" "c_cols (s_PfT s') = c_cols (s_PfT s)"
    "\<And>a j. a \<noteq> nat u \<Longrightarrow> a < n_rows (s_PT s) \<Longrightarrow> j < n_cols (s_PT s) \<Longrightarrow>
       ent (s_PT s') a j = ent (s_PT s) a j"
    "\<And>a j. a \<noteq> nat u \<Longrightarrow> a < n_rows (s_FT s) \<Longrightarrow> j < n_cols (s_FT s) \<Longrightarrow>
       ent (s_FT s') a j = ent (s_FT s) a j"
    "\<And>a. a \<noteq> nat u \<Longrightarrow> slices (s_PpT s') ! a = slices (s_PpT s) ! a"
    "\<And>a. a \<noteq> nat u \<Longrightarrow> slices (s_PfT s') ! a = slices (s_PfT s) ! a"
    "wf_mat (s_fp s')" "wf_mat (s_Pp s')"
proof -
  from assms obtain ff Pf where h:
    "set_row (s_PT s) u (t_mat (s_fp s)) = Inr (s_PT s')"
    "set_slice (s_PpT s) u (s_Pp s) = Inr (s_PpT s')"
    "set_row (s_FT s) u (t_mat ff) = Inr (s_FT s')"
    "set_slice (s_PfT s) u Pf = Inr (s_PfT s')"
    "predict_mean A (s_FT s') u = Inr (s_fp s')"
    "predict_cov A (s_PfT s') u Q = Inr (s_Pp s')"
    by (rule kf_stepE)
  from h(1) show "n_rows (s_PT s') = n_rows (s_PT s)" "n_cols (s_PT s') = n_cols (s_PT s)"
    "\<And>a j. a \<noteq> nat u \<Longrightarrow> a < n_rows (s_PT s) \<Longrightarrow> j < n_cols (s_PT s) \<Longrightarrow>
       ent (s_PT s') a j = ent (s_PT s) a j"
    by (auto simp: set_row_Inr)
  from h(3) show "n_rows (s_FT s') = n_rows (s_FT s)" "n_cols (s_FT s') = n_cols (s_FT s)"
    "\<And>a j. a \<noteq> nat u \<Longrightarrow> a < n_rows (s_FT s) \<Longrightarrow> j < n_cols (s_FT s) \<Longrightarrow>
       ent (s_FT s') a j = ent (s_FT s) a j"
    by (auto simp: set_row_Inr)
  from h(2) show "length (slices (s_PpT s')) = length (slices (s_PpT s))"
    "c_rows (s_PpT s') = c_rows (s_PpT s)" "c_cols (s_PpT s') = c_cols (s_PpT s)"
    "\<And>a. a \<noteq> nat u \<Longrightarrow> slices (s_PpT s') ! a = slices (s_PpT s) ! a"
    by (auto simp: set_slice_Inr)
  from h(4) show "length (slices (s_PfT s')) = length (slices (s_PfT s))"
    "c_rows (s_PfT s') = c_rows (s_PfT s)" "c_cols (s_PfT s') = c_cols (s_PfT s)"
    "\<And>a. a \<noteq> nat u \<Longrightarrow> slices (s_PfT s') ! a = slices (s_PfT s) ! a"
    by (auto simp: set_slice_Inr)
  from h(5) show "wf_mat (s_fp s')" by (auto simp: predict_mean_Inr)
  from h(6) show "wf_mat (s_Pp s')" by (auto simp: predict_cov_Inr)
qed

lemma sum_list_zero [simp]: "(\<Sum>k\<leftarrow>xs. (0::real)) = 0"
  by (induction xs) simp_all

lemma times_mat_empty: "n_cols M = 0 \<Longrightarrow> times_mat M N = zeros (n_rows M) (n_cols N)"
  by (simp add: times_mat_def zeros_def)

lemma times_mat_zeros: "times_mat (zeros a b) N = zeros a (n_cols N)"
proof -
  have "(\<Sum>k\<leftarrow>[0..<b]. ent (zeros a b) i k * ent N k j) = 0" if "i < a" for i j
  proof -
    have "map (\<lambda>k. ent (zeros a b) i k * ent N k j) [0..<b] = map (\<lambda>k. 0) [0..<b]"
      using that by (intro map_cong) auto
    then have "(\<Sum>k\<leftarrow>[0..<b]. ent (zeros a b) i k * ent N k j) = (\<Sum>k\<leftarrow>[0..<b]. 0)"
      by (rule arg_cong [where f = sum_list])
    also have "\<dots> = 0" by simp
    finally show ?thesis .
  qed
  then show ?thesis
    by (auto simp: times_mat_def zeros_def [of a "n_cols N"] intro!: tab_cong)
qed

text \<open>The update at a row with no finite cell: the filtered pair is the predicted pair.\<close>

lemma missing_step_stores:
  assumes "kf_step X tC tR Q A nmiss u s = Inr s'" and "find_finite_row X u = Inr []"
    and "wf_mat (s_Pp s)"
  shows "0 \<le> u" "nat u < n_rows (s_PT s)" "nat u < n_rows (s_FT s)"
    "nat u < length (slices (s_PpT s))" "nat u < length (slices (s_PfT s))"
    "n_cols (s_FT s) = n_cols (s_PT s)"
    "\<And>j. j < n_cols (s_PT s) \<Longrightarrow> ent (s_FT s') (nat u) j = ent (s_PT s') (nat u) j"
    "slices (s_PfT s') ! nat u = slices (s_PpT s') ! nat u"
proof -
  from assms(1) obtain miss C R S xe K ff Pf where h:
    "find_finite_row X u = Inr miss"
    "submat tC miss nmiss = Inr C"
    "submat tR miss miss = Inr R"
    "innov_S C (s_Pp s) R = Inr S"
    "pred_error (x_obs X u miss) C (s_fp s) = Inr xe"
    "kalman_gain (s_Pp s) C S = Inr K"
    "upd_mean (s_fp s) K xe = Inr ff"
    "upd_cov (s_Pp s) K C = Inr Pf"
    "set_row (s_PT s) u (t_mat (s_fp s)) = Inr (s_PT s')"
    "set_slice (s_PpT s) u (s_Pp s) = Inr (s_PpT s')"
    "set_row (s_FT s) u (t_mat ff) = Inr (s_FT s')"
    "set_slice (s_PfT s) u Pf = Inr (s_PfT s')"
    by (rule kf_stepE)
  from h(1) assms(2) have miss: "miss = []" by simp
  from h(2) miss have C: "n_rows C = 0"
    by (auto simp: submat_Inr)
  from h(3) miss have R: "n_rows R = 0" "n_cols R = 0"
    by (auto simp: submat_Inr)
  from h(4) C R have S: "S = Mat 0 0 []"
    by (simp add: innov_S_Inr arma_inv_empty)
  from h(6) C S have K: "n_cols K = 0" "n_rows K = n_rows (s_Pp s)"
    by (auto simp: kalman_gain_Inr)
  from h(5) miss have xe: "n_cols (s_fp s) = 1"
    by (auto simp: pred_error_Inr)
  from h(7) K have ff: "n_rows ff = n_rows (s_fp s)" "n_cols ff = n_cols (s_fp s)"
    "\<And>i. i < n_rows (s_fp s) \<Longrightarrow> ent ff i 0 = ent (s_fp s) i 0"
    using xe by (auto simp: upd_mean_Inr)
  have "Pf = s_Pp s"
  proof (rule mat_eqI)
    from h(8) show "wf_mat Pf" "n_rows Pf = n_rows (s_Pp s)" "n_cols Pf = n_cols (s_Pp s)"
      by (auto simp: upd_cov_Inr)
    show "wf_mat (s_Pp s)" by (rule assms(3))
    fix i j assume "i < n_rows Pf" "j < n_cols Pf"
    with h(8) K show "ent Pf i j = ent (s_Pp s) i j"
      by (auto simp: upd_cov_Inr times_mat_empty times_mat_zeros)
  qed
  with h(10,12) show "slices (s_PfT s') ! nat u = slices (s_PpT s') ! nat u"
    by (auto simp: set_slice_Inr)
  from h(9) show "0 \<le> u" "nat u < n_rows (s_PT s)"
    by (auto simp: set_row_Inr)
  from h(11) show "nat u < n_rows (s_FT s)"
    by (auto simp: set_row_Inr)
  from h(10) show "nat u < length (slices (s_PpT s))"
    by (auto simp: set_slice_Inr)
  from h(12) show "nat u < length (slices (s_PfT s))"
    by (auto simp: set_slice_Inr)
  from h(9,11) ff show nc: "n_cols (s_FT s) = n_cols (s_PT s)"
    by (auto simp: set_row_Inr)
  fix j assume j: "j < n_cols (s_PT s)"
  from h(9) j have "ent (s_PT s') (nat u) j = ent (s_fp s) j 0"
    using xe by (auto simp: set_row_Inr)
  moreover from h(11) j nc have "ent (s_FT s') (nat u) j = ent ff j 0"
    using xe ff by (auto simp: set_row_Inr)
  moreover from h(9) j have "j < n_rows (s_fp s)"
    by (auto simp: set_row_Inr)
  ultimately show "ent (s_FT s') (nat u) j = ent (s_PT s') (nat u) j"
    using ff(3) by simp
qed

lemma missing_step_runs:
  assumes c: "conforming X C Q R A F0 P0" and s: "kf_shaped (n_rows X) (n_rows A) s"
    and t: "0 \<le> t" "t < int (n_rows X)" and m: "find_finite_row X t = Inr []"
  shows "\<exists>s'. kf_step X C R Q A [0..<n_rows A] t s = Inr s'"
proof -
  let ?rp = "n_rows A"
  let ?e = "[] :: nat list"
  let ?C0 = "tab 0 ?rp (\<lambda>i j. ent C (?e ! i) ([0..<?rp] ! j))"
  let ?R0 = "tab 0 0 (\<lambda>i j. ent R (?e ! i) (?e ! j))"
  let ?S = "Mat 0 0 [] :: real mat"
  let ?xe = "minus_mat (x_obs X t []) (times_mat ?C0 (s_fp s))"
  let ?K = "times_mat (times_mat (s_Pp s) (t_mat ?C0)) ?S"
  let ?ff = "plus_mat (s_fp s) (times_mat ?K ?xe)"
  let ?Pf = "minus_mat (s_Pp s) (times_mat (times_mat ?K ?C0) (s_Pp s))"
  let ?PT = "tab (n_rows (s_PT s)) (n_cols (s_PT s))
      (\<lambda>a j. if a = nat t then ent (t_mat (s_fp s)) 0 j else ent (s_PT s) a j)"
  let ?PpT = "Cube (c_rows (s_PpT s)) (c_cols (s_PpT s)) ((slices (s_PpT s))[nat t := s_Pp s])"
  let ?FT = "tab (n_rows (s_FT s)) (n_cols (s_FT s))
      (\<lambda>a j. if a = nat t then ent (t_mat ?ff) 0 j else ent (s_FT s) a j)"
  let ?PfT = "Cube (c_rows (s_PfT s)) (c_cols (s_PfT s)) ((slices (s_PfT s))[nat t := ?Pf])"
  from c have cA: "n_cols A = n_rows A" "all_finite A"
    and cC: "n_cols C = n_rows A"
    and cQ: "n_rows Q = n_rows A" "n_cols Q = n_rows A"
    by (simp_all add: conforming_def)
  from s have fp: "n_rows (s_fp s) = ?rp" "n_cols (s_fp s) = 1"
    and Pp: "n_rows (s_Pp s) = ?rp" "n_cols (s_Pp s) = ?rp"
    and hPT: "n_rows (s_PT s) = n_rows X + 1" "n_cols (s_PT s) = ?rp"
    and hPpT: "c_rows (s_PpT s) = ?rp" "c_cols (s_PpT s) = ?rp"
      "length (slices (s_PpT s)) = n_rows X + 1"
    and hFT: "n_rows (s_FT s) = n_rows X" "n_cols (s_FT s) = ?rp"
    and hPfT: "c_rows (s_PfT s) = ?rp" "c_cols (s_PfT s) = ?rp"
      "length (slices (s_PfT s)) = n_rows X"
    by (simp_all add: kf_shaped_def)
  have C0: "submat C [] [0..<?rp] = Inr ?C0"
    by (simp add: submat_Inr cC)
  have R0: "submat R [] [] = Inr ?R0"
    by (simp add: submat_Inr)
  have S: "innov_S ?C0 (s_Pp s) ?R0 = Inr ?S"
    by (simp add: innov_S_Inr arma_inv_empty Pp)
  have xe: "pred_error (x_obs X t []) ?C0 (s_fp s) = Inr ?xe"
    by (simp add: pred_error_Inr fp)
  have K: "kalman_gain (s_Pp s) ?C0 ?S = Inr ?K"
    by (simp add: kalman_gain_Inr Pp)
  have ff: "upd_mean (s_fp s) ?K ?xe = Inr ?ff"
    by (simp add: upd_mean_Inr fp Pp)
  have Pf: "upd_cov (s_Pp s) ?K ?C0 = Inr ?Pf"
    by (simp add: upd_cov_Inr Pp)
  have l: "upd_loglik (n_cols X) ?S ?xe (s_loglik s)
      = Inr (s_loglik s + loglik_term (n_cols X) 1 0)"
    by (simp add: upd_loglik_Inr)
  have PT: "set_row (s_PT s) t (t_mat (s_fp s)) = Inr ?PT"
    using t by (simp add: set_row_Inr fp hPT)
  have PpT: "set_slice (s_PpT s) t (s_Pp s) = Inr ?PpT"
    using t by (simp add: set_slice_Inr Pp hPpT)
  have FT: "set_row (s_FT s) t (t_mat ?ff) = Inr ?FT"
    using t by (simp add: set_row_Inr fp hFT)
  have PfT: "set_slice (s_PfT s) t ?Pf = Inr ?PfT"
    using t by (simp add: set_slice_Inr Pp hPfT)
  have "\<exists>fp. predict_mean A ?FT t = Inr fp"
    using t by (simp add: predict_mean_Inr cA hFT)
  then obtain fp' where fp': "predict_mean A ?FT t = Inr fp'" ..
  have "\<exists>Pp. predict_cov A ?PfT t Q = Inr Pp"
    using t by (simp add: predict_cov_Inr cA cQ Pp hPfT)
  then obtain Pp' where Pp': "predict_cov A ?PfT t Q = Inr Pp'" ..
  show ?thesis
    unfolding kf_step_def
    by (simp only: m C0 R0 S xe K ff Pf l PT PpT FT PfT fp' Pp' bindE_Inr) blast
qed

lemma kf_shaped_step:
  assumes "kf_step X tC tR Q A nmiss u s = Inr s'" and "kf_shaped T (n_rows A) s"
  shows "kf_shaped T (n_rows A) s'"
proof -
  have p: "predict_mean A (s_FT s') u = Inr (s_fp s')"
    "predict_cov A (s_PfT s') u Q = Inr (s_Pp s')"
    by (rule kf_stepE [OF assms(1)]; assumption)+
  from p(1) have "wf_mat (s_fp s')" "n_rows (s_fp s') = n_rows A" "n_cols (s_fp s') = 1"
    by (auto simp: predict_mean_Inr)
  moreover from p(2) have "wf_mat (s_Pp s')" "n_rows (s_Pp s') = n_rows A"
    "n_cols (s_Pp s') = n_rows A"
    by (auto simp: predict_cov_Inr)
  ultimately show ?thesis
    using assms(2) kf_step_frame(1-10) [OF assms(1)] by (simp add: kf_shaped_def)
qed

lemma kf_shaped_prefix:
  assumes "conforming X C Q R A F0 P0" and "0 \<le> t"
    and "for_loop 0 t (kf_step X C R Q A nmiss) (kf_init X C R A F0 P0) = Inr s"
  shows "kf_shaped (n_rows X) (n_rows A) s"
  using assms(3) kf_shaped_init [OF assms(1)] assms(2)
  by (rule for_loop_inv [where I = "\<lambda>i. kf_shaped (n_rows X) (n_rows A)"])
    (rule kf_shaped_step)

lemma kf_runE:
  assumes "kf_run X C Q R A F0 P0 = Inr s'"
  obtains nmiss where "find_finite_row A 0 = Inr nmiss"
    "for_loop 0 (int (n_rows X)) (kf_step X C R Q A nmiss) (kf_init X C R A F0 P0) = Inr s'"
  using assms by (auto simp: kf_run_def bindE_eq_Inr)

subsection \<open>Reading back what was stored\<close>

lemma row_set_row_same:
  assumes "set_row M i v = Inr M'" and "wf_mat v"
  shows "row M' i = Inr v"
proof -
  from assms(1) have h: "0 \<le> i" "i < int (n_rows M)" "n_rows v = 1" "n_cols v = n_cols M"
    "M' = tab (n_rows M) (n_cols M) (\<lambda>a j. if a = nat i then ent v 0 j else ent M a j)"
    by (auto simp: set_row_Inr)
  have "tab 1 (n_cols M') (\<lambda>a j. ent M' (nat i) j) = v"
    using h assms(2) by (intro mat_eqI) auto
  with h show ?thesis by (simp add: row_def)
qed

lemma row_set_row_other:
  assumes "set_row M i v = Inr M'" and "a \<noteq> i"
  shows "row M' a = row M a"
proof -
  from assms(1) have h: "0 \<le> i" "i < int (n_rows M)"
    "M' = tab (n_rows M) (n_cols M) (\<lambda>a j. if a = nat i then ent v 0 j else ent M a j)"
    by (auto simp: set_row_Inr)
  show ?thesis
  proof (cases "0 \<le> a \<and> a < int (n_rows M)")
    case True
    with assms(2) h(1) have ne: "nat a \<noteq> nat i" by linarith
    from True have lt: "nat a < n_rows M" by linarith
    have "tab 1 (n_cols M) (\<lambda>b j. ent M' (nat a) j) = tab 1 (n_cols M) (\<lambda>b j. ent M (nat a) j)"
      using ne lt by (intro tab_cong) (simp add: h(3))
    with True show ?thesis by (simp add: row_def h(3))
  next
    case False
    then show ?thesis by (auto simp: row_def h(3))
  qed
qed

lemma slice_set_slice_same: "set_slice Q i M = Inr Q' \<Longrightarrow> slice Q' i = Inr M"
  by (auto simp: set_slice_Inr slice_def)

lemma slice_set_slice_other:
  assumes "set_slice Q i M = Inr Q'" and "a \<noteq> i"
  shows "slice Q' a = slice Q a"
proof -
  from assms(1) have h: "0 \<le> i" "Q' = Cube (c_rows Q) (c_cols Q) ((slices Q)[nat i := M])"
    by (auto simp: set_slice_Inr)
  show ?thesis
  proof (cases "0 \<le> a")
    case True
    with assms(2) h(1) have "nat a \<noteq> nat i" by linarith
    then show ?thesis by (simp add: slice_def h(2))
  next
    case False
    then show ?thesis by (simp add: slice_def)
  qed
qed

lemma for_loop_split:
  assumes "for_loop lo hi body s = Inr s'" and "lo \<le> t" and "t \<le> hi"
  shows "\<exists>a. for_loop lo t body s = Inr a \<and> for_loop t hi body a = Inr s'"
  using assms
proof (induction "nat (t - lo)" arbitrary: lo s)
  case 0
  then have "lo = t" by simp
  with 0 show ?case by (simp add: for_loop_stop)
next
  case (Suc k)
  then have lt: "lo < t" "lo < hi" by linarith+
  from Suc.prems(1) lt obtain b where b: "body lo s = Inr b"
    and rest: "for_loop (lo + 1) hi body b = Inr s'"
    by (auto simp: for_loop_go bindE_eq_Inr)
  have "k = nat (t - (lo + 1))" using Suc.hyps(2) by linarith
  from Suc.hyps(1) [OF this rest] lt Suc.prems(3)
  obtain a where "for_loop (lo + 1) t body b = Inr a" "for_loop t hi body a = Inr s'"
    by auto
  with b lt show ?case by (auto simp: for_loop_go)
qed

text \<open>A step leaves the other rows and slices of the four histories as they were.\<close>

lemma kf_step_other:
  assumes "kf_step X tC tR Q A nmiss u s = Inr s'" and "a \<noteq> u"
  shows "row (s_PT s') a = row (s_PT s) a" "row (s_FT s') a = row (s_FT s) a"
    "slice (s_PpT s') a = slice (s_PpT s) a" "slice (s_PfT s') a = slice (s_PfT s) a"
proof -
  from assms(1) obtain ff Pf where h:
    "set_row (s_PT s) u (t_mat (s_fp s)) = Inr (s_PT s')"
    "set_slice (s_PpT s) u (s_Pp s) = Inr (s_PpT s')"
    "set_row (s_FT s) u (t_mat ff) = Inr (s_FT s')"
    "set_slice (s_PfT s) u Pf = Inr (s_PfT s')"
    by (rule kf_stepE)
  from h(1) assms(2) show "row (s_PT s') a = row (s_PT s) a" by (rule row_set_row_other)
  from h(3) assms(2) show "row (s_FT s') a = row (s_FT s) a" by (rule row_set_row_other)
  from h(2) assms(2) show "slice (s_PpT s') a = slice (s_PpT s) a"
    by (rule slice_set_slice_other)
  from h(4) assms(2) show "slice (s_PfT s') a = slice (s_PfT s) a"
    by (rule slice_set_slice_other)
qed

text \<open>
  The step at a row with no finite cell stores the predicted pair it entered with in
  slot \<open>u\<close> of the predicted and of the filtered histories.
\<close>

lemma missing_step_pinned:
  assumes "kf_step X tC tR Q A nmiss u s = Inr s'" and "find_finite_row X u = Inr []"
    and "wf_mat (s_fp s)" and "wf_mat (s_Pp s)"
  shows "row (s_PT s') u = Inr (t_mat (s_fp s))" "row (s_FT s') u = Inr (t_mat (s_fp s))"
    "slice (s_PpT s') u = Inr (s_Pp s)" "slice (s_PfT s') u = Inr (s_Pp s)"
proof -
  from assms(1) obtain miss C R S xe K ff Pf where h:
    "find_finite_row X u = Inr miss"
    "submat tC miss nmiss = Inr C"
    "submat tR miss miss = Inr R"
    "innov_S C (s_Pp s) R = Inr S"
    "pred_error (x_obs X u miss) C (s_fp s) = Inr xe"
    "kalman_gain (s_Pp s) C S = Inr K"
    "upd_mean (s_fp s) K xe = Inr ff"
    "upd_cov (s_Pp s) K C = Inr Pf"
    "set_row (s_PT s) u (t_mat (s_fp s)) = Inr (s_PT s')"
    "set_slice (s_PpT s) u (s_Pp s) = Inr (s_PpT s')"
    "set_row (s_FT s) u (t_mat ff) = Inr (s_FT s')"
    "set_slice (s_PfT s) u Pf = Inr (s_PfT s')"
    by (rule kf_stepE)
  from h(1) assms(2) have miss: "miss = []" by simp
  from h(2) miss have C: "n_rows C = 0"
    by (auto simp: submat_Inr)
  from h(3) miss have R: "n_rows R = 0" "n_cols R = 0"
    by (auto simp: submat_Inr)
  from h(4) C R have S: "S = Mat 0 0 []"
    by (simp add: innov_S_Inr arma_inv_empty)
  from h(6) C S have K: "n_cols K = 0" "n_rows K = n_rows (s_Pp s)"
    by (auto simp: kalman_gain_Inr)
  from h(5) miss have xe: "n_cols (s_fp s) = 1"
    by (auto simp: pred_error_Inr)
  have "ff = s_fp s"
  proof (rule mat_eqI)
    from h(7) show "wf_mat ff" "n_rows ff = n_rows (s_fp s)" "n_cols ff = n_cols (s_fp s)"
      by (auto simp: upd_mean_Inr)
    show "wf_mat (s_fp s)" by (rule assms(3))
    fix i j assume "i < n_rows ff" "j < n_cols ff"
    with h(7) K xe show "ent ff i j = ent (s_fp s) i j"
      by (auto simp: upd_mean_Inr times_mat_empty)
  qed
  moreover have "Pf = s_Pp s"
  proof (rule mat_eqI)
    from h(8) show "wf_mat Pf" "n_rows Pf = n_rows (s_Pp s)" "n_cols Pf = n_cols (s_Pp s)"
      by (auto simp: upd_cov_Inr)
    show "wf_mat (s_Pp s)" by (rule assms(4))
    fix i j assume "i < n_rows Pf" "j < n_cols Pf"
    with h(8) K show "ent Pf i j = ent (s_Pp s) i j"
      by (auto simp: upd_cov_Inr times_mat_empty times_mat_zeros)
  qed
  ultimately show "row (s_PT s') u = Inr (t_mat (s_fp s))"
    "row (s_FT s') u = Inr (t_mat (s_fp s))"
    "slice (s_PpT s') u = Inr (s_Pp s)" "slice (s_PfT s') u = Inr (s_Pp s)"
    using h(9-12) by (auto intro: row_set_row_same slice_set_slice_same)
qed

lemma kf_prefix_wf:
  assumes "for_loop 0 t (kf_step X C R Q A nmiss) (kf_init X C R A F0 P0) = Inr s"
    and "wf_mat F0" and "wf_mat P0" and "0 \<le> t"
  shows "wf_mat (s_fp s) \<and> wf_mat (s_Pp s)"
  using assms(1) _ assms(4)
proof (rule for_loop_inv [where I = "\<lambda>i a. wf_mat (s_fp a) \<and> wf_mat (s_Pp a)"])
  show "wf_mat (s_fp (kf_init X C R A F0 P0)) \<and> wf_mat (s_Pp (kf_init X C R A F0 P0))"
    using assms(2,3) by (simp add: kf_init_def)
next
  fix i a b
  assume "kf_step X C R Q A nmiss i a = Inr b"
  from kf_step_frame(15,16) [OF this] show "wf_mat (s_fp b) \<and> wf_mat (s_Pp b)" by simp
qed

lemma missing_row_pinned:
  assumes run: "kf_run X C Q R A F0 P0 = Inr s'" and wf: "wf_mat F0" "wf_mat P0"
    and m: "find_finite_row X t = Inr []"
  shows "\<exists>nmiss s. find_finite_row A 0 = Inr nmiss \<and>
     for_loop 0 t (kf_step X C R Q A nmiss) (kf_init X C R A F0 P0) = Inr s \<and>
     row (s_PT s') t = Inr (t_mat (s_fp s)) \<and> row (s_FT s') t = Inr (t_mat (s_fp s)) \<and>
     slice (s_PpT s') t = Inr (s_Pp s) \<and> slice (s_PfT s') t = Inr (s_Pp s)"
proof -
  from m have t: "0 \<le> t" "t < int (n_rows X)"
    by (auto simp: find_finite_row_Inr)
  from run obtain nmiss where nm: "find_finite_row A 0 = Inr nmiss" and
    loop: "for_loop 0 (int (n_rows X)) (kf_step X C R Q A nmiss) (kf_init X C R A F0 P0) = Inr s'"
    by (rule kf_runE)
  from for_loop_split [OF loop t(1)] t(2) obtain s where
    pre: "for_loop 0 t (kf_step X C R Q A nmiss) (kf_init X C R A F0 P0) = Inr s"
    and post: "for_loop t (int (n_rows X)) (kf_step X C R Q A nmiss) s = Inr s'"
    by auto
  from post t(2) obtain s1 where step: "kf_step X C R Q A nmiss t s = Inr s1"
    and rest: "for_loop (t + 1) (int (n_rows X)) (kf_step X C R Q A nmiss) s1 = Inr s'"
    by (auto simp: for_loop_go bindE_eq_Inr)
  from kf_prefix_wf [OF pre wf t(1)] have w: "wf_mat (s_fp s)" "wf_mat (s_Pp s)"
    by simp_all
  note p = missing_step_pinned [OF step m w]
  have "row (s_PT s') t = row (s_PT s1) t \<and> row (s_FT s') t = row (s_FT s1) t \<and>
      slice (s_PpT s') t = slice (s_PpT s1) t \<and> slice (s_PfT s') t = slice (s_PfT s1) t"
    using rest
  proof (rule for_loop_inv [where I = "\<lambda>i a. row (s_PT a) t = row (s_PT s1) t \<and>
      row (s_FT a) t = row (s_FT s1) t \<and> slice (s_PpT a) t = slice (s_PpT s1) t \<and>
      slice (s_PfT a) t = slice (s_PfT s1) t"])
    show "t + 1 \<le> int (n_rows X)" using t(2) by simp
  next
    fix i a b
    assume i: "t + 1 \<le> i" and st: "kf_step X C R Q A nmiss i a = Inr b"
      and Ia: "row (s_PT a) t = row (s_PT s1) t \<and>
        row (s_FT a) t = row (s_FT s1) t \<and> slice (s_PpT a) t = slice (s_PpT s1) t \<and>
        slice (s_PfT a) t = slice (s_PfT s1) t"
    from i have "t \<noteq> i" by simp
    from kf_step_other [OF st this] Ia
    show "row (s_PT b) t = row (s_PT s1) t \<and>
        row (s_FT b) t = row (s_FT s1) t \<and> slice (s_PpT b) t = slice (s_PpT s1) t \<and>
        slice (s_PfT b) t = slice (s_PfT s1) t" by simp
  qed simp
  with p nm pre show ?thesis by auto
qed

lemma ex_conforming: "conforming ex_X ex_C ex_Q ex_R ex_A ex_F0 ex_P0"
  by (simp add: conforming_def ex_defs wf_mat_def all_finite_def ent_def)

text \<open>
  C6 as stated fails: the filter raises on inputs that have a row without a finite cell.
  In the first model below the shapes are those of the data model and row 0 is missing;
  step 0 passes, and step 1 meets a singular innovation covariance. In the second the
  start vector has the wrong length, and the step at the missing row itself fails its size
  check.
\<close>

theorem C6_filter_raises:
  "conforming (Mat 2 1 [[NaN], [Fin 1]]) (Mat 1 1 [[1]]) (Mat 1 1 [[0]]) (Mat 1 1 [[0]])
      (Mat 1 1 [[Fin 1]]) (Mat 1 1 [[0]]) (Mat 1 1 [[0]])
   \<and> find_finite_row (Mat 2 1 [[NaN], [Fin 1]]) 0 = Inr []
   \<and> KalmanFilter (Mat 2 1 [[NaN], [Fin 1]]) (Mat 1 1 [[1]]) (Mat 1 1 [[0]]) (Mat 1 1 [[0]])
        (Mat 1 1 [[Fin 1]]) (Mat 1 1 [[0]]) (Mat 1 1 [[0]]) = Inl Singular
   \<and> KalmanFilter (Mat 2 1 [[NaN], [Fin 1]]) ex_C ex_Q ex_R ex_A (Mat 2 1 [[0], [0]]) ex_P0
        = Inl IncompatibleDims"
proof -
  have "conforming (Mat 2 1 [[NaN], [Fin 1]]) (Mat 1 1 [[1]]) (Mat 1 1 [[0]]) (Mat 1 1 [[0]])
      (Mat 1 1 [[Fin 1]]) (Mat 1 1 [[0]]) (Mat 1 1 [[0]])"
    by (simp add: conforming_def wf_mat_def all_finite_def ent_def)
  moreover have "find_finite_row (Mat 2 1 [[NaN], [Fin 1]]) 0 = Inr []"
    by (simp add: mat_eval)
  moreover have "KalmanFilter (Mat 2 1 [[NaN], [Fin 1]]) (Mat 1 1 [[1]]) (Mat 1 1 [[0]])
        (Mat 1 1 [[0]]) (Mat 1 1 [[Fin 1]]) (Mat 1 1 [[0]]) (Mat 1 1 [[0]]) = Inl Singular"
    by (simp add: KalmanFilter_def kf_eval mat_eval cong: bindE_weak_cong)
  moreover have "KalmanFilter (Mat 2 1 [[NaN], [Fin 1]]) ex_C ex_Q ex_R ex_A
        (Mat 2 1 [[0], [0]]) ex_P0 = Inl IncompatibleDims"
    by (simp add: KalmanFilter_def ex_defs kf_eval mat_eval cong: bindE_weak_cong)
  ultimately show ?thesis by simp
qed

text \<open>
  C6, amended. Let row \<open>t\<close> of \<open>X\<close> hold no finite cell. If the shapes are those of the data
  model and the loop has reached step \<open>t\<close> in state \<open>s\<close>, then step \<open>t\<close> returns, and it
  stores the predicted mean and covariance it entered with (\<^verbatim>\<open>fp\<close> and \<^verbatim>\<open>Pp\<close> of \<open>s\<close>) in
  slot \<open>t\<close> of the predicted histories and of the filtered histories alike. Whenever the
  filter returns, slot \<open>t\<close> of the four histories it returns still holds that pair. Other
  steps may raise, so the filter as a whole may. The two first hypotheses say that \<^verbatim>\<open>F0\<close>
  and \<^verbatim>\<open>P0\<close> are matrices: each of their rows has the declared length.
\<close>

theorem C6_all_missing_row:
  assumes "wf_mat F0" and "wf_mat P0" and "0 \<le> t" and "t < int (n_rows X)"
    and "list_all (\<lambda>j. \<not> is_finite (ent X (nat t) j)) [0..<n_cols X]"
  shows "(conforming X C Q R A F0 P0 \<and>
          for_loop 0 t (kf_step X C R Q A [0..<n_rows A]) (kf_init X C R A F0 P0) = Inr s
         \<longrightarrow> find_finite_row A 0 = Inr [0..<n_rows A] \<and>
             (\<exists>s'. kf_step X C R Q A [0..<n_rows A] t s = Inr s' \<and>
                row (s_PT s') t = Inr (t_mat (s_fp s)) \<and>
                row (s_FT s') t = Inr (t_mat (s_fp s)) \<and>
                slice (s_PpT s') t = Inr (s_Pp s) \<and> slice (s_PfT s') t = Inr (s_Pp s)))
    \<and> (KalmanFilter X C Q R A F0 P0 = Inr out
         \<longrightarrow> (\<exists>nmiss s0. find_finite_row A 0 = Inr nmiss \<and>
                for_loop 0 t (kf_step X C R Q A nmiss) (kf_init X C R A F0 P0) = Inr s0 \<and>
                row (kf_P out) t = Inr (t_mat (s_fp s0)) \<and>
                row (kf_F out) t = Inr (t_mat (s_fp s0)) \<and>
                slice (kf_Pp out) t = Inr (s_Pp s0) \<and> slice (kf_Pf out) t = Inr (s_Pp s0)))"
proof (intro conjI impI)
  from assms(3-5) have m: "find_finite_row X t = Inr []"
    by (auto simp: find_finite_row_Inr list_all_iff filter_empty_conv)
  {
    assume a: "conforming X C Q R A F0 P0 \<and>
          for_loop 0 t (kf_step X C R Q A [0..<n_rows A]) (kf_init X C R A F0 P0) = Inr s"
    then have c: "conforming X C Q R A F0 P0"
      and l: "for_loop 0 t (kf_step X C R Q A [0..<n_rows A]) (kf_init X C R A F0 P0) = Inr s"
      by simp_all
    from c show "find_finite_row A 0 = Inr [0..<n_rows A]"
      using find_finite_all [of A] by (simp add: conforming_def)
    from c assms(3) l have sh: "kf_shaped (n_rows X) (n_rows A) s"
      by (rule kf_shaped_prefix)
    from c sh assms(3,4) m obtain s' where
      st: "kf_step X C R Q A [0..<n_rows A] t s = Inr s'"
      using missing_step_runs by blast
    from sh have "wf_mat (s_fp s)" "wf_mat (s_Pp s)"
      by (simp_all add: kf_shaped_def)
    from missing_step_pinned [OF st m this] st
    show "\<exists>s'. kf_step X C R Q A [0..<n_rows A] t s = Inr s' \<and>
                row (s_PT s') t = Inr (t_mat (s_fp s)) \<and>
                row (s_FT s') t = Inr (t_mat (s_fp s)) \<and>
                slice (s_PpT s') t = Inr (s_Pp s) \<and> slice (s_PfT s') t = Inr (s_Pp s)"
      by blast
  }
  {
    assume "KalmanFilter X C Q R A F0 P0 = Inr out"
    then obtain s' where run: "kf_run X C Q R A F0 P0 = Inr s'"
      and out: "out = \<lparr>kf_F = s_FT s', kf_Pf = s_PfT s', kf_P = s_PT s', kf_Pp = s_PpT s',
            kf_loglik = s_loglik s'\<rparr>"
      by (auto simp: KalmanFilter_def bindE_eq_Inr)
    from missing_row_pinned [OF run assms(1,2) m]
    show "\<exists>nmiss s0. find_finite_row A 0 = Inr nmiss \<and>
                for_loop 0 t (kf_step X C R Q A nmiss) (kf_init X C R A F0 P0) = Inr s0 \<and>
                row (kf_P out) t = Inr (t_mat (s_fp s0)) \<and>
                row (kf_F out) t = Inr (t_mat (s_fp s0)) \<and>
                slice (kf_Pp out) t = Inr (s_Pp s0) \<and> slice (kf_Pf out) t = Inr (s_Pp s0)"
      by (simp add: out)
  }
qed

theorem C6_all_missing_row_witness:
  "find_finite_row ex_A 0 = Inr [0..<n_rows ex_A]
    \<and> (\<exists>s'. kf_step ex_X ex_C ex_R ex_Q ex_A [0..<n_rows ex_A] 1 ex_s1 = Inr s' \<and>
          row (s_PT s') 1 = Inr (t_mat (s_fp ex_s1)) \<and>
          row (s_FT s') 1 = Inr (t_mat (s_fp ex_s1)) \<and>
          slice (s_PpT s') 1 = Inr (s_Pp ex_s1) \<and> slice (s_PfT s') 1 = Inr (s_Pp ex_s1))
    \<and> (\<exists>out nmiss s0. KalmanFilter ex_X ex_C ex_Q ex_R ex_A ex_F0 ex_P0 = Inr out \<and>
          find_finite_row ex_A 0 = Inr nmiss \<and>
          for_loop 0 1 (kf_step ex_X ex_C ex_R ex_Q ex_A nmiss)
            (kf_init ex_X ex_C ex_R ex_A ex_F0 ex_P0) = Inr s0 \<and>
          row (kf_P out) 1 = Inr (t_mat (s_fp s0)) \<and>
          row (kf_F out) 1 = Inr (t_mat (s_fp s0)) \<and>
          slice (kf_Pp out) 1 = Inr (s_Pp s0) \<and> slice (kf_Pf out) 1 = Inr (s_Pp s0))"
proof -
  have n: "[0..<n_rows ex_A] = [0]"
    by (simp add: ex_A_def)
  have w: "wf_mat ex_F0" "wf_mat ex_P0"
    using ex_conforming by (simp_all add: conforming_def)
  have a: "(0::int) \<le> 1" "(1::int) < int (n_rows ex_X)"
    by (simp_all add: ex_X_def)
  have b: "list_all (\<lambda>j. \<not> is_finite (ent ex_X (nat 1) j)) [0..<n_cols ex_X]"
    by (simp add: ex_defs mat_eval)
  have l: "for_loop 0 1 (kf_step ex_X ex_C ex_R ex_Q ex_A [0..<n_rows ex_A])
       (kf_init ex_X ex_C ex_R ex_A ex_F0 ex_P0) = Inr ex_s1"
    by (simp add: n for_loop_go for_loop_stop ex_step0)
  obtain out where o: "KalmanFilter ex_X ex_C ex_Q ex_R ex_A ex_F0 ex_P0 = Inr out"
    by (simp add: KalmanFilter_def ex_kf_run)
  from C6_all_missing_row [OF w a b, of ex_C ex_Q ex_R ex_A ex_s1 out] ex_conforming l o
  show ?thesis by blast
qed

section \<open>The smoother and the E-step\<close>

subsection \<open>The smoother, statement by statement\<close>

lemma sm_lastE:
  assumes "sm_last T FT PfT m = Inr m'"
  obtains f P where "row FT (T - 1) = Inr f" "set_row (m_FsT m) (T - 1) f = Inr (m_FsT m')"
    "slice PfT (T - 1) = Inr P" "set_slice (m_PsT m) (T - 1) P = Inr (m_PsT m')"
    "m_J m' = m_J m" "m_L m' = m_L m" "m_K m' = m_K m" "m_PsTm m' = m_PsTm m"
  using assms unfolding sm_last_def bindE_eq_Inr by auto

lemma j_stepE:
  assumes "j_step A PfT PpT t m = Inr m'"
  obtains Pf Pp1 v where "all_finite A" "slice PfT t = Inr Pf" "slice PpT (t + 1) = Inr Pp1"
    "smoother_gain A Pf Pp1 = Inr v" "set_slice (m_J m) t v = Inr (m_J m')"
    "m_L m' = m_L m" "m_K m' = m_K m" "m_PsTm m' = m_PsTm m" "m_FsT m' = m_FsT m"
    "m_PsT m' = m_PsT m"
  using assms unfolding j_step_def needs_finite_Inr bindE_eq_Inr by auto

lemma fs_stepE:
  assumes "fs_step T FT PT PfT PpT j m = Inr m'"
  obtains f Ji fs1 p1 v Pf Ps1 Pp1 V where
    "row FT (T - j) = Inr f" "slice (m_J m) (T - j) = Inr Ji"
    "row (m_FsT m) (T - j + 1) = Inr fs1" "row PT (T - j + 1) = Inr p1"
    "smooth_mean f Ji fs1 p1 = Inr v" "set_row (m_FsT m) (T - j) v = Inr (m_FsT m')"
    "slice PfT (T - j) = Inr Pf" "slice (m_PsT m) (T - j + 1) = Inr Ps1"
    "slice PpT (T - j + 1) = Inr Pp1" "smooth_cov Pf Ji Ps1 Pp1 = Inr V"
    "set_slice (m_PsT m) (T - j) V = Inr (m_PsT m')"
    "m_J m' = m_J m" "m_L m' = m_L m" "m_K m' = m_K m" "m_PsTm m' = m_PsTm m"
proof -
  from assms obtain f Ji fs1 p1 v FsT Pf Ps1 Pp1 V PsT where h:
    "row FT (T - j) = Inr f" "slice (m_J m) (T - j) = Inr Ji"
    "row (m_FsT m) (T - j + 1) = Inr fs1" "row PT (T - j + 1) = Inr p1"
    "smooth_mean f Ji fs1 p1 = Inr v" "set_row (m_FsT m) (T - j) v = Inr FsT"
    "slice PfT (T - j) = Inr Pf" "slice (m_PsT m) (T - j + 1) = Inr Ps1"
    "slice PpT (T - j + 1) = Inr Pp1" "smooth_cov Pf Ji Ps1 Pp1 = Inr V"
    "set_slice (m_PsT m) (T - j) V = Inr PsT"
    and m': "Inr (m\<lparr>m_FsT := FsT, m_PsT := PsT\<rparr>) = (Inr m' :: error + sm_state)"
    unfolding fs_step_def bindE_eq_Inr by (elim exE conjE) (erule meta_mp | assumption)+
  from m' have "m' = m\<lparr>m_FsT := FsT, m_PsT := PsT\<rparr>" by simp
  with h show ?thesis by (intro that [of f Ji fs1 p1 v Pf Ps1 Pp1 V]) simp_all
qed

lemma lk_stepE:
  assumes "lk_step C R PpT i m = Inr m'"
  obtains "m_J m' = m_J m" "m_PsTm m' = m_PsTm m" "m_FsT m' = m_FsT m" "m_PsT m' = m_PsT m"
  using assms unfolding lk_step_def bindE_eq_Inr by auto

lemma lag_lastE:
  assumes "lag_last A C T PfT m = Inr m'"
  obtains v where "set_slice (m_PsTm m) (T - 1) v = Inr (m_PsTm m')"
    "m_J m' = m_J m" "m_FsT m' = m_FsT m" "m_PsT m' = m_PsT m"
  using assms unfolding lag_last_def needs_finite_Inr bindE_eq_Inr by auto

lemma lag_stepE:
  assumes "lag_step A T PfT j m = Inr m'"
  obtains v where "set_slice (m_PsTm m) (T - j) v = Inr (m_PsTm m')"
    "m_J m' = m_J m" "m_FsT m' = m_FsT m" "m_PsT m' = m_PsT m"
  using assms unfolding lag_step_def needs_finite_Inr bindE_eq_Inr by auto

lemma smoother_bodyE:
  assumes "smoother_body T n A C R FT PT PfT PpT = Inr m"
  obtains m1 m2 m3 m4 m5 where
    "sm_last T FT PfT (sm_init (n_rows A) n (nat T)) = Inr m1"
    "for_loop 0 (T - 1) (j_step A PfT PpT) m1 = Inr m2"
    "for_loop 2 (T + 1) (fs_step T FT PT PfT PpT) m2 = Inr m3"
    "for_loop 0 T (lk_step C R PpT) m3 = Inr m4"
    "lag_last A C T PfT m4 = Inr m5"
    "for_loop 2 (T - 1) (lag_step A T PfT) m5 = Inr m"
  using assms unfolding smoother_body_def bindE_eq_Inr by blast

text \<open>A loop that leaves a field alone.\<close>

lemma for_loop_keeps:
  assumes "for_loop lo hi body s = Inr s'"
    and "\<And>i a b. body i a = Inr b \<Longrightarrow> g b = g a"
  shows "g s' = g s"
proof (cases "lo \<le> hi")
  case True
  from assms(1) _ True show ?thesis
    by (rule for_loop_inv [where I = "\<lambda>i a. g a = g s"]) (simp_all add: assms(2))
next
  case False
  with assms(1) show ?thesis by (simp add: for_loop_stop)
qed

text \<open>The lag-one history: slices 0 and 1 are never written when \<open>T \<ge> 3\<close>.\<close>

lemma lag_one_untouched:
  assumes body: "smoother_body T n A C R FT PT PfT PpT = Inr m" and T: "3 \<le> T"
  shows "slice (m_PsTm m) 0 = Inr (zeros (n_rows A) (n_rows A))"
    "slice (m_PsTm m) 1 = Inr (zeros (n_rows A) (n_rows A))"
proof -
  let ?Z = "zeros (n_rows A) (n_rows A)"
  define I where "I W \<longleftrightarrow> length (slices W) = nat T \<and> slices W ! 0 = ?Z \<and> slices W ! 1 = ?Z"
    for W
  from body obtain m1 m2 m3 m4 m5 where h:
    "sm_last T FT PfT (sm_init (n_rows A) n (nat T)) = Inr m1"
    "for_loop 0 (T - 1) (j_step A PfT PpT) m1 = Inr m2"
    "for_loop 2 (T + 1) (fs_step T FT PT PfT PpT) m2 = Inr m3"
    "for_loop 0 T (lk_step C R PpT) m3 = Inr m4"
    "lag_last A C T PfT m4 = Inr m5"
    "for_loop 2 (T - 1) (lag_step A T PfT) m5 = Inr m"
    by (rule smoother_bodyE)
  have set: "I W'" if "I W" "set_slice W i v = Inr W'" "2 \<le> i" for W W' i v
    using that by (auto simp: I_def set_slice_Inr nth_list_update)
  have "I (m_PsTm (sm_init (n_rows A) n (nat T)))"
    using T by (simp add: I_def sm_init_def zeros_cube_def)
  moreover from h(1) have "m_PsTm m1 = m_PsTm (sm_init (n_rows A) n (nat T))"
    by (rule sm_lastE)
  moreover from h(2) have "m_PsTm m2 = m_PsTm m1"
    by (rule for_loop_keeps) (erule j_stepE)
  moreover from h(3) have "m_PsTm m3 = m_PsTm m2"
    by (rule for_loop_keeps) (erule fs_stepE)
  moreover from h(4) have "m_PsTm m4 = m_PsTm m3"
    by (rule for_loop_keeps) (erule lk_stepE)
  ultimately have "I (m_PsTm m4)" by simp
  with h(5) T have I5: "I (m_PsTm m5)"
    by (elim lag_lastE) (rule set, assumption+, simp)
  have "I (m_PsTm m)"
    using h(6) I5
  proof (rule for_loop_inv [where I = "\<lambda>i a. I (m_PsTm a)"])
    show "2 \<le> T - 1" using T by simp
  next
    fix i a b
    assume "2 \<le> i" "i < T - 1" "I (m_PsTm a)" "lag_step A T PfT i a = Inr b"
    then show "I (m_PsTm b)"
      by (elim lag_stepE) (rule set, assumption+, simp)
  qed
  with T show "slice (m_PsTm m) 0 = Inr ?Z" "slice (m_PsTm m) 1 = Inr ?Z"
    by (simp_all add: I_def slice_def)
qed

subsection \<open>The E-step\<close>

lemma leave_out_Inr:
  "leave_out gamma Fs Ps i = Inr g \<longleftrightarrow>
     (\<exists>f P. row Fs i = Inr f \<and> slice Ps i = Inr P \<and>
        n_rows gamma = n_cols f \<and> n_cols gamma = n_cols f \<and>
        n_rows gamma = n_rows P \<and> n_cols gamma = n_cols P \<and>
        g = minus_mat (minus_mat gamma (times_mat (t_mat f) f)) P)"
  by (auto simp: leave_out_def outer_def bindE_eq_Inr arma_times_Inr arma_minus_Inr)

lemma minus_minus_mat:
  assumes "n_rows a = n_rows g" "n_cols a = n_cols g"
  shows "minus_mat (minus_mat g a) b = minus_mat g (plus_mat a b)"
  using assms by (auto simp: minus_mat_def [of _ b] minus_mat_def [of g "plus_mat a b"]
      intro!: tab_cong)

lemma EstepE:
  assumes "Estep X C Q R A F0 P0 = Inr e"
  obtains ks a where "KalmanFilterSmoother X C Q R A F0 P0 = Inr ks"
    "for_loop 0 (int (n_rows X))
       (acc_step (real_of X) (kfs_Fs ks) (kfs_Ps ks) (kfs_PsTm ks))
       \<lparr>a_delta = zeros (n_cols X) (n_rows A), a_gamma = zeros (n_rows A) (n_rows A),
        a_beta = zeros (n_rows A) (n_rows A)\<rparr> = Inr a"
    "leave_out (a_gamma a) (kfs_Fs ks) (kfs_Ps ks) (int (n_rows X) - 1) = Inr (e_gamma1 e)"
    "leave_out (a_gamma a) (kfs_Fs ks) (kfs_Ps ks) 0 = Inr (e_gamma2 e)"
    "e_gamma e = a_gamma a" "e_beta e = a_beta a" "e_delta e = a_delta a"
    "e_loglik e = kfs_loglik ks"
proof -
  from assms obtain ks a g1 g2 f0 P1 where h:
    "KalmanFilterSmoother X C Q R A F0 P0 = Inr ks"
    "for_loop 0 (int (n_rows X))
       (acc_step (real_of X) (kfs_Fs ks) (kfs_Ps ks) (kfs_PsTm ks))
       \<lparr>a_delta = zeros (n_cols X) (n_rows A), a_gamma = zeros (n_rows A) (n_rows A),
        a_beta = zeros (n_rows A) (n_rows A)\<rparr> = Inr a"
    "leave_out (a_gamma a) (kfs_Fs ks) (kfs_Ps ks) (int (n_rows X) - 1) = Inr g1"
    "leave_out (a_gamma a) (kfs_Fs ks) (kfs_Ps ks) 0 = Inr g2"
    and e: "Inr \<lparr>e_beta = a_beta a, e_gamma = a_gamma a, e_delta = a_delta a,
            e_gamma1 = g1, e_gamma2 = g2, e_F0 = t_mat f0, e_P0 = P1,
            e_loglik = kfs_loglik ks\<rparr> = (Inr e :: error + estep_out)"
    unfolding Estep_def bindE_eq_Inr by (elim exE conjE) (erule meta_mp | assumption)+
  from e have "e = \<lparr>e_beta = a_beta a, e_gamma = a_gamma a, e_delta = a_delta a,
            e_gamma1 = g1, e_gamma2 = g2, e_F0 = t_mat f0, e_P0 = P1,
            e_loglik = kfs_loglik ks\<rparr>" by simp
  with h show ?thesis by (intro that [of ks a]) simp_all
qed

lemma Estep_gamma:
  assumes "Estep X C Q R A F0 P0 = Inr e"
  shows "\<exists>ks fl Pl f0 Pz. KalmanFilterSmoother X C Q R A F0 P0 = Inr ks \<and>
     row (kfs_Fs ks) (int (n_rows X) - 1) = Inr fl \<and>
     slice (kfs_Ps ks) (int (n_rows X) - 1) = Inr Pl \<and>
     row (kfs_Fs ks) 0 = Inr f0 \<and> slice (kfs_Ps ks) 0 = Inr Pz \<and>
     e_gamma1 e = minus_mat (e_gamma e) (plus_mat (times_mat (t_mat fl) fl) Pl) \<and>
     e_gamma2 e = minus_mat (e_gamma e) (plus_mat (times_mat (t_mat f0) f0) Pz)"
proof -
  from assms obtain ks and a :: acc_state
    where h: "KalmanFilterSmoother X C Q R A F0 P0 = Inr ks"
    "leave_out (a_gamma a) (kfs_Fs ks) (kfs_Ps ks) (int (n_rows X) - 1) = Inr (e_gamma1 e)"
    "leave_out (a_gamma a) (kfs_Fs ks) (kfs_Ps ks) 0 = Inr (e_gamma2 e)"
    "e_gamma e = a_gamma a"
    by (rule EstepE)
  from h(2) obtain fl Pl where l: "row (kfs_Fs ks) (int (n_rows X) - 1) = Inr fl"
    "slice (kfs_Ps ks) (int (n_rows X) - 1) = Inr Pl"
    "n_rows (a_gamma a) = n_cols fl" "n_cols (a_gamma a) = n_cols fl"
    "e_gamma1 e = minus_mat (minus_mat (a_gamma a) (times_mat (t_mat fl) fl)) Pl"
    by (auto simp: leave_out_Inr)
  from h(3) obtain f0 Pz where z: "row (kfs_Fs ks) 0 = Inr f0"
    "slice (kfs_Ps ks) 0 = Inr Pz"
    "n_rows (a_gamma a) = n_cols f0" "n_cols (a_gamma a) = n_cols f0"
    "e_gamma2 e = minus_mat (minus_mat (a_gamma a) (times_mat (t_mat f0) f0)) Pz"
    by (auto simp: leave_out_Inr)
  have "e_gamma1 e = minus_mat (e_gamma e) (plus_mat (times_mat (t_mat fl) fl) Pl)"
    unfolding l(5) h(4) using l(3,4) by (intro minus_minus_mat) simp_all
  moreover have "e_gamma2 e = minus_mat (e_gamma e) (plus_mat (times_mat (t_mat f0) f0) Pz)"
    unfolding z(5) h(4) using z(3,4) by (intro minus_minus_mat) simp_all
  ultimately show ?thesis using h(1) l(1,2) z(1,2) by blast
qed

subsection \<open>The worked model, smoothed\<close>

lemma ex_smoother:
  "smoother_body 4 1 ex_A ex_C ex_R ex_FT ex_PT ex_PfT ex_PpT = Inr ex_sm"
  by (simp add: ex_sm_def ex_FT_def ex_PT_def ex_PfT_def ex_PpT_def ex_defs sm_eval mat_eval
      cong: bindE_weak_cong)

lemma ex_ks:
  "KalmanSmoother ex_A ex_C ex_R ex_FT ex_PT ex_PfT ex_PpT
     = Inr \<lparr>ks_Fs = m_FsT ex_sm, ks_Ps = m_PsT ex_sm, ks_PsTm = m_PsTm ex_sm\<rparr>"
proof -
  have "int (n_rows ex_FT) = 4" "n_rows ex_C = 1"
    by (simp_all add: ex_FT_def ex_C_def)
  then show ?thesis
    by (simp only: KalmanSmoother_def ex_smoother bindE_Inr)
qed

lemma ex_kfs:
  "KalmanFilterSmoother ex_X ex_C ex_Q ex_R ex_A ex_F0 ex_P0
     = Inr \<lparr>kfs_Fs = m_FsT ex_sm, kfs_Ps = m_PsT ex_sm, kfs_PsTm = m_PsTm ex_sm,
          kfs_loglik = loglik_term 1 (2 / 3) (2 / 3) + loglik_term 1 1 0
            + loglik_term 1 (10000 / 8997) (676 / 8997)
            + loglik_term 1 (599800 / 467799) (5578572384 / 11691076675)\<rparr>"
proof -
  have "int (n_rows ex_X) = 4" "n_cols ex_X = 1"
    by (simp_all add: ex_X_def)
  moreover have "Mat 1 1 [[1]] = ex_C" "Mat 1 1 [[1 / 2]] = ex_R"
    by (simp_all add: ex_C_def ex_R_def)
  moreover note ex_smoother [unfolded ex_FT_def ex_PT_def ex_PfT_def ex_PpT_def]
  ultimately show ?thesis
    by (simp only: KalmanFilterSmoother_def ex_kf_run bindE_Inr kf_state.simps)
qed

lemma ex_estep: "\<exists>e. Estep ex_X ex_C ex_Q ex_R ex_A ex_F0 ex_P0 = Inr e"
  unfolding Estep_def ex_kfs bindE_Inr
  by (simp add: ex_sm_def ex_defs acc_step_def leave_out_def outer_def for_loop_go for_loop_stop
      mat_eval cong: bindE_weak_cong)

subsection \<open>The lag-one history\<close>

text \<open>
  C10. When there are at least three time steps and the smoother returns, slices 0 and 1
  of the lag-one cross-covariance history are the zero matrix: the assignments write slice
  \<open>T - 1\<close> and slices \<open>T - 2\<close> down to 2 only. This holds for \<^verbatim>\<open>KalmanSmoother\<close> and for
  \<^verbatim>\<open>KalmanFilterSmoother\<close>, so the slice that \<^verbatim>\<open>Estep\<close> adds to \<^verbatim>\<open>beta\<close> at \<open>t = 1\<close> is
  zero.
\<close>

theorem C10_lag_one_slices_0_1_zero:
  "(KalmanSmoother A C R FT PT PfT PpT = Inr out \<and> 3 \<le> n_rows FT \<longrightarrow>
      slice (ks_PsTm out) 0 = Inr (zeros (n_rows A) (n_rows A)) \<and>
      slice (ks_PsTm out) 1 = Inr (zeros (n_rows A) (n_rows A)))
   \<and> (KalmanFilterSmoother X C' Q R' A' F0 P0 = Inr out' \<and> 3 \<le> n_rows X \<longrightarrow>
      slice (kfs_PsTm out') 0 = Inr (zeros (n_rows A') (n_rows A')) \<and>
      slice (kfs_PsTm out') 1 = Inr (zeros (n_rows A') (n_rows A')))
   \<and> (Estep X C' Q R' A' F0 P0 = Inr e \<and> 3 \<le> n_rows X \<longrightarrow>
      (\<exists>ks. KalmanFilterSmoother X C' Q R' A' F0 P0 = Inr ks \<and>
         slice (kfs_PsTm ks) 1 = Inr (zeros (n_rows A') (n_rows A'))))"
proof -
  have kfs: "slice (kfs_PsTm ks) 0 = Inr (zeros (n_rows A') (n_rows A')) \<and>
      slice (kfs_PsTm ks) 1 = Inr (zeros (n_rows A') (n_rows A'))"
    if "KalmanFilterSmoother X C' Q R' A' F0 P0 = Inr ks" "3 \<le> n_rows X" for ks
  proof -
    from that(1) obtain s :: kf_state and m :: sm_state where
      "smoother_body (int (n_rows X)) (n_cols X) A' (s_C s) (s_R s)
              (s_FT s) (s_PT s) (s_PfT s) (s_PpT s) = Inr m" "kfs_PsTm ks = m_PsTm m"
      by (auto simp: KalmanFilterSmoother_def bindE_eq_Inr)
    with that(2) lag_one_untouched [of "int (n_rows X)"] show ?thesis by simp
  qed
  have ks: "slice (ks_PsTm out) 0 = Inr (zeros (n_rows A) (n_rows A)) \<and>
      slice (ks_PsTm out) 1 = Inr (zeros (n_rows A) (n_rows A))"
    if "KalmanSmoother A C R FT PT PfT PpT = Inr out" "3 \<le> n_rows FT"
  proof -
    from that(1) obtain m :: sm_state where
      "smoother_body (int (n_rows FT)) (n_rows C) A C R FT PT PfT PpT = Inr m"
      "ks_PsTm out = m_PsTm m"
      by (auto simp: KalmanSmoother_def bindE_eq_Inr)
    with that(2) lag_one_untouched [of "int (n_rows FT)"] show ?thesis by simp
  qed
  have "\<exists>ks. KalmanFilterSmoother X C' Q R' A' F0 P0 = Inr ks \<and>
         slice (kfs_PsTm ks) 1 = Inr (zeros (n_rows A') (n_rows A'))"
    if "Estep X C' Q R' A' F0 P0 = Inr e" "3 \<le> n_rows X"
  proof -
    from that(1) obtain ks where "KalmanFilterSmoother X C' Q R' A' F0 P0 = Inr ks"
      by (auto simp: Estep_def bindE_eq_Inr)
    with kfs that(2) show ?thesis by blast
  qed
  with kfs ks show ?thesis by blast
qed

theorem C10_lag_one_witness:
  "(\<exists>out. KalmanSmoother ex_A ex_C ex_R ex_FT ex_PT ex_PfT ex_PpT = Inr out \<and>
      slice (ks_PsTm out) 0 = Inr (zeros (n_rows ex_A) (n_rows ex_A)) \<and>
      slice (ks_PsTm out) 1 = Inr (zeros (n_rows ex_A) (n_rows ex_A)))
   \<and> (\<exists>out. KalmanFilterSmoother ex_X ex_C ex_Q ex_R ex_A ex_F0 ex_P0 = Inr out \<and>
      slice (kfs_PsTm out) 0 = Inr (zeros (n_rows ex_A) (n_rows ex_A)) \<and>
      slice (kfs_PsTm out) 1 = Inr (zeros (n_rows ex_A) (n_rows ex_A)))
   \<and> (\<exists>e ks. Estep ex_X ex_C ex_Q ex_R ex_A ex_F0 ex_P0 = Inr e \<and>
         KalmanFilterSmoother ex_X ex_C ex_Q ex_R ex_A ex_F0 ex_P0 = Inr ks \<and>
         slice (kfs_PsTm ks) 1 = Inr (zeros (n_rows ex_A) (n_rows ex_A)))"
proof -
  have n: "3 \<le> n_rows ex_FT" "3 \<le> n_rows ex_X"
    by (simp_all add: ex_FT_def ex_X_def)
  obtain e where e: "Estep ex_X ex_C ex_Q ex_R ex_A ex_F0 ex_P0 = Inr e"
    using ex_estep ..
  obtain o1 where o1: "KalmanSmoother ex_A ex_C ex_R ex_FT ex_PT ex_PfT ex_PpT = Inr o1"
    using ex_ks by blast
  obtain o2 where o2: "KalmanFilterSmoother ex_X ex_C ex_Q ex_R ex_A ex_F0 ex_P0 = Inr o2"
    using ex_kfs by blast
  from C10_lag_one_slices_0_1_zero [of ex_A ex_C ex_R ex_FT ex_PT ex_PfT ex_PpT o1
      ex_X ex_C ex_Q ex_R ex_A ex_F0 ex_P0 o2 e] o1 o2 e n
  show ?thesis by blast
qed

subsection \<open>The leave-one-out sums\<close>

text \<open>
  C8. When \<^verbatim>\<open>Estep\<close> returns, \<^verbatim>\<open>gamma1\<close> is \<^verbatim>\<open>gamma\<close> minus the term of the last step,
  the outer product of the smoothed mean of step \<open>T - 1\<close> with itself plus the smoothed
  covariance of that step, and \<^verbatim>\<open>gamma2\<close> is \<^verbatim>\<open>gamma\<close> minus the same term of step 0.
\<close>

theorem C8_gamma1_gamma2:
  assumes "Estep X C Q R A F0 P0 = Inr e"
  shows "\<exists>ks fl Pl f0 Pz. KalmanFilterSmoother X C Q R A F0 P0 = Inr ks \<and>
     row (kfs_Fs ks) (int (n_rows X) - 1) = Inr fl \<and>
     slice (kfs_Ps ks) (int (n_rows X) - 1) = Inr Pl \<and>
     row (kfs_Fs ks) 0 = Inr f0 \<and> slice (kfs_Ps ks) 0 = Inr Pz \<and>
     e_gamma1 e = minus_mat (e_gamma e) (plus_mat (times_mat (t_mat fl) fl) Pl) \<and>
     e_gamma2 e = minus_mat (e_gamma e) (plus_mat (times_mat (t_mat f0) f0) Pz)"
  using assms by (rule Estep_gamma)

theorem C8_gamma1_gamma2_witness:
  "\<exists>e ks fl Pl f0 Pz. Estep ex_X ex_C ex_Q ex_R ex_A ex_F0 ex_P0 = Inr e \<and>
     KalmanFilterSmoother ex_X ex_C ex_Q ex_R ex_A ex_F0 ex_P0 = Inr ks \<and>
     row (kfs_Fs ks) (int (n_rows ex_X) - 1) = Inr fl \<and>
     slice (kfs_Ps ks) (int (n_rows ex_X) - 1) = Inr Pl \<and>
     row (kfs_Fs ks) 0 = Inr f0 \<and> slice (kfs_Ps ks) 0 = Inr Pz \<and>
     e_gamma1 e = minus_mat (e_gamma e) (plus_mat (times_mat (t_mat fl) fl) Pl) \<and>
     e_gamma2 e = minus_mat (e_gamma e) (plus_mat (times_mat (t_mat f0) f0) Pz)"
proof -
  obtain e where e: "Estep ex_X ex_C ex_Q ex_R ex_A ex_F0 ex_P0 = Inr e"
    using ex_estep ..
  from C8_gamma1_gamma2 [OF e] e show ?thesis by blast
qed

subsection \<open>The backward recursion\<close>

lemma smooth_mean_Inr:
  "smooth_mean f Ji fs1 p1 = Inr v \<longleftrightarrow>
     n_rows fs1 = n_rows p1 \<and> n_cols fs1 = n_cols p1 \<and> n_cols Ji = n_cols fs1 \<and>
     n_rows f = n_rows fs1 \<and> n_cols f = n_rows Ji \<and>
     v = plus_mat f (t_mat (times_mat Ji (t_mat (minus_mat fs1 p1))))"
  by (auto simp: smooth_mean_def bindE_eq_Inr arma_minus_Inr arma_times_Inr arma_plus_Inr)

lemma smooth_cov_Inr:
  "smooth_cov Pf Ji Ps1 Pp1 = Inr V \<longleftrightarrow>
     n_rows Ps1 = n_rows Pp1 \<and> n_cols Ps1 = n_cols Pp1 \<and> n_cols Ji = n_rows Ps1 \<and>
     n_cols Ps1 = n_cols Ji \<and> n_rows Pf = n_rows Ji \<and> n_cols Pf = n_rows Ji \<and>
     V = plus_mat Pf (times_mat (times_mat Ji (minus_mat Ps1 Pp1)) (t_mat Ji))"
  by (auto simp: smooth_cov_def bindE_eq_Inr arma_minus_Inr arma_times3_Inr arma_plus_Inr)

lemma smoother_gain_Inr:
  "smoother_gain A Pf Pp1 = Inr v \<longleftrightarrow>
     (\<exists>Pinv. arma_inv Pp1 = Inr Pinv \<and> n_cols Pf = n_cols A \<and> n_rows A = n_rows Pinv \<and>
        v = times_mat (times_mat Pf (t_mat (real_of A))) Pinv)"
  by (auto simp: smoother_gain_def bindE_eq_Inr arma_times3_Inr)

lemma smoother_rts:
  assumes body: "smoother_body T n A C R FT PT PfT PpT = Inr m"
  shows "\<exists>f P. row FT (T - 1) = Inr f \<and> row (m_FsT m) (T - 1) = Inr f \<and>
           slice PfT (T - 1) = Inr P \<and> slice (m_PsT m) (T - 1) = Inr P"
    and "\<And>t. 0 \<le> t \<Longrightarrow> t < T - 1 \<Longrightarrow>
      \<exists>f Pf Pp1 Pinv fs1 p1 Ps1.
        row FT t = Inr f \<and> slice PfT t = Inr Pf \<and> slice PpT (t + 1) = Inr Pp1 \<and>
        arma_inv Pp1 = Inr Pinv \<and>
        row (m_FsT m) (t + 1) = Inr fs1 \<and> row PT (t + 1) = Inr p1 \<and>
        slice (m_PsT m) (t + 1) = Inr Ps1 \<and>
        row (m_FsT m) t = Inr (plus_mat f (t_mat (times_mat
            (times_mat (times_mat Pf (t_mat (real_of A))) Pinv)
            (t_mat (minus_mat fs1 p1))))) \<and>
        slice (m_PsT m) t = Inr (plus_mat Pf (times_mat (times_mat
            (times_mat (times_mat Pf (t_mat (real_of A))) Pinv)
            (minus_mat Ps1 Pp1))
            (t_mat (times_mat (times_mat Pf (t_mat (real_of A))) Pinv))))"
proof -
  define G where "G J t \<longleftrightarrow> (\<exists>Pf Pp1 v. slice PfT t = Inr Pf \<and> slice PpT (t + 1) = Inr Pp1 \<and>
      smoother_gain A Pf Pp1 = Inr v \<and> slice J t = Inr v)" for J t
  define E where "E FsT PsT J t \<longleftrightarrow> (\<exists>f Ji fs1 p1 v Pf Ps1 Pp1 V.
      row FT t = Inr f \<and> slice J t = Inr Ji \<and> row FsT (t + 1) = Inr fs1 \<and>
      row PT (t + 1) = Inr p1 \<and> smooth_mean f Ji fs1 p1 = Inr v \<and> row FsT t = Inr v \<and>
      slice PfT t = Inr Pf \<and> slice PsT (t + 1) = Inr Ps1 \<and> slice PpT (t + 1) = Inr Pp1 \<and>
      smooth_cov Pf Ji Ps1 Pp1 = Inr V \<and> slice PsT t = Inr V)" for FsT PsT J t
  have E_cong: "E FsT' PsT' J' t" if "E FsT PsT J t" "row FsT' t = row FsT t"
    "row FsT' (t + 1) = row FsT (t + 1)" "slice PsT' t = slice PsT t"
    "slice PsT' (t + 1) = slice PsT (t + 1)" "slice J' t = slice J t"
    for FsT' PsT' J' FsT PsT J t
    using that unfolding E_def by simp
  from body obtain m1 m2 m3 m4 m5 where h:
    "sm_last T FT PfT (sm_init (n_rows A) n (nat T)) = Inr m1"
    "for_loop 0 (T - 1) (j_step A PfT PpT) m1 = Inr m2"
    "for_loop 2 (T + 1) (fs_step T FT PT PfT PpT) m2 = Inr m3"
    "for_loop 0 T (lk_step C R PpT) m3 = Inr m4"
    "lag_last A C T PfT m4 = Inr m5"
    "for_loop 2 (T - 1) (lag_step A T PfT) m5 = Inr m"
    by (rule smoother_bodyE)
  \<comment> \<open>the last step\<close>
  from h(1) obtain f P where l: "row FT (T - 1) = Inr f"
    "set_row (m_FsT (sm_init (n_rows A) n (nat T))) (T - 1) f = Inr (m_FsT m1)"
    "slice PfT (T - 1) = Inr P"
    "set_slice (m_PsT (sm_init (n_rows A) n (nat T))) (T - 1) P = Inr (m_PsT m1)"
    by (rule sm_lastE)
  from l(1) have T1: "0 \<le> T - 1" and wf_f: "wf_mat f"
    by (auto simp: row_Inr)
  have L1: "row (m_FsT m1) (T - 1) = Inr f" "slice (m_PsT m1) (T - 1) = Inr P"
    using l(2,4) wf_f by (auto intro: row_set_row_same slice_set_slice_same)
  \<comment> \<open>the gains\<close>
  have k2: "m_FsT m2 = m_FsT m1" "m_PsT m2 = m_PsT m1"
    by (rule for_loop_keeps [OF h(2)], erule j_stepE, assumption)+
  have G2: "\<forall>t. 0 \<le> t \<and> t < T - 1 \<longrightarrow> G (m_J m2) t"
    using h(2) _ T1
  proof (rule for_loop_inv [where I = "\<lambda>i a. \<forall>t. 0 \<le> t \<and> t < i \<longrightarrow> G (m_J a) t"])
    show "\<forall>t. 0 \<le> t \<and> t < 0 \<longrightarrow> G (m_J m1) t" by auto
  next
    fix i a b
    assume i: "0 \<le> i" "i < T - 1" and Ia: "\<forall>t. 0 \<le> t \<and> t < i \<longrightarrow> G (m_J a) t"
      and step: "j_step A PfT PpT i a = Inr b"
    from step obtain Pf Pp1 v where s: "slice PfT i = Inr Pf" "slice PpT (i + 1) = Inr Pp1"
      "smoother_gain A Pf Pp1 = Inr v" "set_slice (m_J a) i v = Inr (m_J b)"
      by (rule j_stepE)
    show "\<forall>t. 0 \<le> t \<and> t < i + 1 \<longrightarrow> G (m_J b) t"
    proof (intro allI impI)
      fix t assume t: "0 \<le> t \<and> t < i + 1"
      show "G (m_J b) t"
      proof (cases "t = i")
        case True
        with s slice_set_slice_same [OF s(4)] show ?thesis
          unfolding G_def by blast
      next
        case False
        with t Ia have "G (m_J a) t" by simp
        with slice_set_slice_other [OF s(4) False] show ?thesis
          unfolding G_def by simp
      qed
    qed
  qed
  \<comment> \<open>the backward pass\<close>
  define I where "I j a \<longleftrightarrow> m_J a = m_J m2 \<and> row (m_FsT a) (T - 1) = Inr f \<and>
      slice (m_PsT a) (T - 1) = Inr P \<and>
      (\<forall>t. T - j < t \<and> t < T - 1 \<longrightarrow> E (m_FsT a) (m_PsT a) (m_J a) t)" for j and a :: sm_state
  have I3: "I (T + 1) m3"
    using h(3)
  proof (rule for_loop_inv [where I = I])
    show "I 2 m2" using L1 k2 by (auto simp: I_def)
    show "2 \<le> T + 1" using T1 by simp
  next
    fix j a b
    assume j: "2 \<le> j" "j < T + 1" and Ia: "I j a"
      and step: "fs_step T FT PT PfT PpT j a = Inr b"
    from step obtain f' Ji fs1 p1 v Pf Ps1 Pp1 V where s:
      "row FT (T - j) = Inr f'" "slice (m_J a) (T - j) = Inr Ji"
      "row (m_FsT a) (T - j + 1) = Inr fs1" "row PT (T - j + 1) = Inr p1"
      "smooth_mean f' Ji fs1 p1 = Inr v" "set_row (m_FsT a) (T - j) v = Inr (m_FsT b)"
      "slice PfT (T - j) = Inr Pf" "slice (m_PsT a) (T - j + 1) = Inr Ps1"
      "slice PpT (T - j + 1) = Inr Pp1" "smooth_cov Pf Ji Ps1 Pp1 = Inr V"
      "set_slice (m_PsT a) (T - j) V = Inr (m_PsT b)"
      "m_J b = m_J a"
      by (rule fs_stepE)
    from s(5) have wf_v: "wf_mat v" by (auto simp: smooth_mean_Inr)
    have ro: "row (m_FsT b) u = row (m_FsT a) u" if "u \<noteq> T - j" for u
      using s(6) that by (rule row_set_row_other)
    have so: "slice (m_PsT b) u = slice (m_PsT a) u" if "u \<noteq> T - j" for u
      using s(11) that by (rule slice_set_slice_other)
    have new: "E (m_FsT b) (m_PsT b) (m_J b) (T - j)"
      unfolding E_def
      using s(1-5,7-10) row_set_row_same [OF s(6) wf_v] slice_set_slice_same [OF s(11)]
        ro [of "T - j + 1"] so [of "T - j + 1"] s(12)
      by simp
    have old: "E (m_FsT b) (m_PsT b) (m_J b) t" if "T - j < t" "t < T - 1" for t
    proof -
      from Ia have "\<forall>t. T - j < t \<and> t < T - 1 \<longrightarrow> E (m_FsT a) (m_PsT a) (m_J a) t"
        unfolding I_def by blast
      with that have Ea: "E (m_FsT a) (m_PsT a) (m_J a) t" by blast
      from that have ne: "t \<noteq> T - j" "t + 1 \<noteq> T - j" by linarith+
      show ?thesis
        by (rule E_cong [OF Ea ro [OF ne(1)] ro [OF ne(2)] so [OF ne(1)] so [OF ne(2)]])
          (simp add: s(12))
    qed
    have "E (m_FsT b) (m_PsT b) (m_J b) t" if "T - (j + 1) < t" "t < T - 1" for t
      using that new old [of t] by (cases "t = T - j") simp_all
    moreover from Ia j have "row (m_FsT b) (T - 1) = Inr f" "slice (m_PsT b) (T - 1) = Inr P"
      using ro [of "T - 1"] so [of "T - 1"] by (simp_all add: I_def)
    ultimately show "I (j + 1) b"
      using Ia s(12) by (simp add: I_def)
  qed
  \<comment> \<open>the rest leaves the smoothed histories alone\<close>
  have k4: "m_FsT m4 = m_FsT m3" "m_PsT m4 = m_PsT m3"
    by (rule for_loop_keeps [OF h(4)], erule lk_stepE, assumption)+
  have k5: "m_FsT m5 = m_FsT m4" "m_PsT m5 = m_PsT m4"
    by (rule lag_lastE [OF h(5)], assumption)+
  have k6: "m_FsT m = m_FsT m5" "m_PsT m = m_PsT m5"
    by (rule for_loop_keeps [OF h(6)], erule lag_stepE, assumption)+
  have eq: "m_FsT m = m_FsT m3" "m_PsT m = m_PsT m3"
    using k4 k5 k6 by simp_all
  from I3 have I3': "m_J m3 = m_J m2" "row (m_FsT m3) (T - 1) = Inr f"
    "slice (m_PsT m3) (T - 1) = Inr P"
    "\<forall>t. T - (T + 1) < t \<and> t < T - 1 \<longrightarrow> E (m_FsT m3) (m_PsT m3) (m_J m3) t"
    unfolding I_def by blast+
  from I3'(2,3) l(1,3) show "\<exists>f P. row FT (T - 1) = Inr f \<and> row (m_FsT m) (T - 1) = Inr f \<and>
           slice PfT (T - 1) = Inr P \<and> slice (m_PsT m) (T - 1) = Inr P"
    by (simp add: eq)
  fix t assume t: "0 \<le> t" "t < T - 1"
  from I3'(1,4) t have "E (m_FsT m) (m_PsT m) (m_J m2) t"
    by (auto simp: eq)
  then obtain f0 Ji fs1 p1 v Pf Ps1 Pp1 V where e:
      "row FT t = Inr f0" "slice (m_J m2) t = Inr Ji" "row (m_FsT m) (t + 1) = Inr fs1"
      "row PT (t + 1) = Inr p1" "smooth_mean f0 Ji fs1 p1 = Inr v" "row (m_FsT m) t = Inr v"
      "slice PfT t = Inr Pf" "slice (m_PsT m) (t + 1) = Inr Ps1" "slice PpT (t + 1) = Inr Pp1"
      "smooth_cov Pf Ji Ps1 Pp1 = Inr V" "slice (m_PsT m) t = Inr V"
    unfolding E_def by blast
  from G2 t have "G (m_J m2) t" by simp
  then obtain Pf' Pp1' v' where g: "slice PfT t = Inr Pf'" "slice PpT (t + 1) = Inr Pp1'"
      "smoother_gain A Pf' Pp1' = Inr v'" "slice (m_J m2) t = Inr v'"
    unfolding G_def by blast
  from e(2,7,9) g have "smoother_gain A Pf Pp1 = Inr Ji" by simp
  then obtain Pinv where p: "arma_inv Pp1 = Inr Pinv"
      "Ji = times_mat (times_mat Pf (t_mat (real_of A))) Pinv"
    unfolding smoother_gain_Inr by blast
  from e(5) have v: "v = plus_mat f0 (t_mat (times_mat Ji (t_mat (minus_mat fs1 p1))))"
    unfolding smooth_mean_Inr by blast
  from e(10) have V: "V = plus_mat Pf (times_mat (times_mat Ji (minus_mat Ps1 Pp1)) (t_mat Ji))"
    unfolding smooth_cov_Inr by blast
  show "\<exists>f Pf Pp1 Pinv fs1 p1 Ps1.
        row FT t = Inr f \<and> slice PfT t = Inr Pf \<and> slice PpT (t + 1) = Inr Pp1 \<and>
        arma_inv Pp1 = Inr Pinv \<and>
        row (m_FsT m) (t + 1) = Inr fs1 \<and> row PT (t + 1) = Inr p1 \<and>
        slice (m_PsT m) (t + 1) = Inr Ps1 \<and>
        row (m_FsT m) t = Inr (plus_mat f (t_mat (times_mat
            (times_mat (times_mat Pf (t_mat (real_of A))) Pinv)
            (t_mat (minus_mat fs1 p1))))) \<and>
        slice (m_PsT m) t = Inr (plus_mat Pf (times_mat (times_mat
            (times_mat (times_mat Pf (t_mat (real_of A))) Pinv)
            (minus_mat Ps1 Pp1))
            (t_mat (times_mat (times_mat Pf (t_mat (real_of A))) Pinv))))"
    using e(1,7,9) p(1) e(3,4,8) e(6) [unfolded v p(2)] e(11) [unfolded V p(2)]
    by (intro exI conjI)
qed


text \<open>
  C7. Whenever \<^verbatim>\<open>KalmanSmoother\<close> returns, with \<open>T\<close> the number of rows of the filtered
  mean history: the smoothed mean and covariance at \<open>T - 1\<close> are the filtered ones, and for
  every \<open>t\<close> with \<open>0 \<le> t < T - 1\<close> the smoothed mean at \<open>t\<close> is the filtered mean at \<open>t\<close> plus
  \<open>J\<^sub>t\<close> times (smoothed mean at \<open>t + 1\<close> minus predicted mean at \<open>t + 1\<close>), and the smoothed
  covariance at \<open>t\<close> is the filtered covariance at \<open>t\<close> plus \<open>J\<^sub>t\<close> times (smoothed covariance
  at \<open>t + 1\<close> minus predicted covariance at \<open>t + 1\<close>) times the transpose of \<open>J\<^sub>t\<close>, where
  \<open>J\<^sub>t\<close> is the filtered covariance at \<open>t\<close> times the transpose of \<open>A\<close> times the inverse of
  the predicted covariance at \<open>t + 1\<close>. Means are stored as rows, so the product with
  \<open>J\<^sub>t\<close> is transposed back into a row.
\<close>

theorem C7_smoother_equations:
  assumes "KalmanSmoother A C R FT PT PfT PpT = Inr out"
  shows "(\<exists>f P. row FT (int (n_rows FT) - 1) = Inr f \<and>
            row (ks_Fs out) (int (n_rows FT) - 1) = Inr f \<and>
            slice PfT (int (n_rows FT) - 1) = Inr P \<and>
            slice (ks_Ps out) (int (n_rows FT) - 1) = Inr P)
    \<and> (\<forall>t. 0 \<le> t \<and> t < int (n_rows FT) - 1 \<longrightarrow>
      (\<exists>f Pf Pp1 Pinv fs1 p1 Ps1.
        row FT t = Inr f \<and> slice PfT t = Inr Pf \<and> slice PpT (t + 1) = Inr Pp1 \<and>
        arma_inv Pp1 = Inr Pinv \<and>
        row (ks_Fs out) (t + 1) = Inr fs1 \<and> row PT (t + 1) = Inr p1 \<and>
        slice (ks_Ps out) (t + 1) = Inr Ps1 \<and>
        row (ks_Fs out) t = Inr (plus_mat f (t_mat (times_mat
            (times_mat (times_mat Pf (t_mat (real_of A))) Pinv)
            (t_mat (minus_mat fs1 p1))))) \<and>
        slice (ks_Ps out) t = Inr (plus_mat Pf (times_mat (times_mat
            (times_mat (times_mat Pf (t_mat (real_of A))) Pinv)
            (minus_mat Ps1 Pp1))
            (t_mat (times_mat (times_mat Pf (t_mat (real_of A))) Pinv))))))"
proof -
  from assms obtain m :: sm_state where
    b: "smoother_body (int (n_rows FT)) (n_rows C) A C R FT PT PfT PpT = Inr m"
    and o: "out = \<lparr>ks_Fs = m_FsT m, ks_Ps = m_PsT m, ks_PsTm = m_PsTm m\<rparr>"
    by (auto simp: KalmanSmoother_def bindE_eq_Inr)
  have s: "ks_Fs out = m_FsT m" "ks_Ps out = m_PsT m"
    by (simp_all add: o)
  show ?thesis
    unfolding s
    by (intro conjI allI impI, rule smoother_rts(1) [OF b], rule smoother_rts(2) [OF b]) simp_all
qed

theorem C7_smoother_equations_witness:
  "\<exists>out. KalmanSmoother ex_A ex_C ex_R ex_FT ex_PT ex_PfT ex_PpT = Inr out
    \<and> (\<exists>f P. row ex_FT 3 = Inr f \<and> row (ks_Fs out) 3 = Inr f \<and>
            slice ex_PfT 3 = Inr P \<and> slice (ks_Ps out) 3 = Inr P)
    \<and> (\<exists>f Pf Pp1 Pinv fs1 p1 Ps1.
        row ex_FT 2 = Inr f \<and> slice ex_PfT 2 = Inr Pf \<and> slice ex_PpT 3 = Inr Pp1 \<and>
        arma_inv Pp1 = Inr Pinv \<and>
        row (ks_Fs out) 3 = Inr fs1 \<and> row ex_PT 3 = Inr p1 \<and>
        slice (ks_Ps out) 3 = Inr Ps1 \<and>
        row (ks_Fs out) 2 = Inr (plus_mat f (t_mat (times_mat
            (times_mat (times_mat Pf (t_mat (real_of ex_A))) Pinv)
            (t_mat (minus_mat fs1 p1))))) \<and>
        slice (ks_Ps out) 2 = Inr (plus_mat Pf (times_mat (times_mat
            (times_mat (times_mat Pf (t_mat (real_of ex_A))) Pinv)
            (minus_mat Ps1 Pp1))
            (t_mat (times_mat (times_mat Pf (t_mat (real_of ex_A))) Pinv)))))"
proof -
  have n: "int (n_rows ex_FT) - 1 = 3"
    by (simp add: ex_FT_def)
  note th = C7_smoother_equations [OF ex_ks, unfolded n]
  from th have a: "\<exists>f P. row ex_FT 3 = Inr f \<and>
      row (ks_Fs \<lparr>ks_Fs = m_FsT ex_sm, ks_Ps = m_PsT ex_sm, ks_PsTm = m_PsTm ex_sm\<rparr>) 3 = Inr f \<and>
      slice ex_PfT 3 = Inr P \<and>
      slice (ks_Ps \<lparr>ks_Fs = m_FsT ex_sm, ks_Ps = m_PsT ex_sm, ks_PsTm = m_PsTm ex_sm\<rparr>) 3 = Inr P"
    by (rule conjunct1)
  from th have "\<forall>t. 0 \<le> t \<and> t < 3 \<longrightarrow>
      (\<exists>f Pf Pp1 Pinv fs1 p1 Ps1.
        row ex_FT t = Inr f \<and> slice ex_PfT t = Inr Pf \<and> slice ex_PpT (t + 1) = Inr Pp1 \<and>
        arma_inv Pp1 = Inr Pinv \<and>
        row (ks_Fs \<lparr>ks_Fs = m_FsT ex_sm, ks_Ps = m_PsT ex_sm, ks_PsTm = m_PsTm ex_sm\<rparr>) (t + 1)
          = Inr fs1 \<and> row ex_PT (t + 1) = Inr p1 \<and>
        slice (ks_Ps \<lparr>ks_Fs = m_FsT ex_sm, ks_Ps = m_PsT ex_sm, ks_PsTm = m_PsTm ex_sm\<rparr>) (t + 1)
          = Inr Ps1 \<and>
        row (ks_Fs \<lparr>ks_Fs = m_FsT ex_sm, ks_Ps = m_PsT ex_sm, ks_PsTm = m_PsTm ex_sm\<rparr>) t
          = Inr (plus_mat f (t_mat (times_mat
            (times_mat (times_mat Pf (t_mat (real_of ex_A))) Pinv)
            (t_mat (minus_mat fs1 p1))))) \<and>
        slice (ks_Ps \<lparr>ks_Fs = m_FsT ex_sm, ks_Ps = m_PsT ex_sm, ks_PsTm = m_PsTm ex_sm\<rparr>) t
          = Inr (plus_mat Pf (times_mat (times_mat
            (times_mat (times_mat Pf (t_mat (real_of ex_A))) Pinv)
            (minus_mat Ps1 Pp1))
            (t_mat (times_mat (times_mat Pf (t_mat (real_of ex_A))) Pinv)))))"
    by (rule conjunct2)
  from this [rule_format, of 2] have b: "\<exists>f Pf Pp1 Pinv fs1 p1 Ps1.
        row ex_FT 2 = Inr f \<and> slice ex_PfT 2 = Inr Pf \<and> slice ex_PpT 3 = Inr Pp1 \<and>
        arma_inv Pp1 = Inr Pinv \<and>
        row (ks_Fs \<lparr>ks_Fs = m_FsT ex_sm, ks_Ps = m_PsT ex_sm, ks_PsTm = m_PsTm ex_sm\<rparr>) 3
          = Inr fs1 \<and> row ex_PT 3 = Inr p1 \<and>
        slice (ks_Ps \<lparr>ks_Fs = m_FsT ex_sm, ks_Ps = m_PsT ex_sm, ks_PsTm = m_PsTm ex_sm\<rparr>) 3
          = Inr Ps1 \<and>
        row (ks_Fs \<lparr>ks_Fs = m_FsT ex_sm, ks_Ps = m_PsT ex_sm, ks_PsTm = m_PsTm ex_sm\<rparr>) 2
          = Inr (plus_mat f (t_mat (times_mat
            (times_mat (times_mat Pf (t_mat (real_of ex_A))) Pinv)
            (t_mat (minus_mat fs1 p1))))) \<and>
        slice (ks_Ps \<lparr>ks_Fs = m_FsT ex_sm, ks_Ps = m_PsT ex_sm, ks_PsTm = m_PsTm ex_sm\<rparr>) 2
          = Inr (plus_mat Pf (times_mat (times_mat
            (times_mat (times_mat Pf (t_mat (real_of ex_A))) Pinv)
            (minus_mat Ps1 Pp1))
            (t_mat (times_mat (times_mat Pf (t_mat (real_of ex_A))) Pinv))))"
    by simp
  show ?thesis
    by (rule exI, intro conjI, rule ex_ks, rule a, rule b)
qed

section \<open>The fused call against the composition\<close>

lemmas ex2_defs = ex2_X_def ex2_C_def ex2_R_def ex2_A_def ex2_Q_def ex2_F0_def ex2_P0_def

lemma ex2_kf_run:
  "kf_run ex2_X ex2_C ex2_Q ex2_R ex2_A ex2_F0 ex2_P0 = Inr
     \<lparr>s_C = Mat 1 1 [[1]], s_R = Mat 1 1 [[1]],
      s_fp = Mat 1 1 [[6 / 7]], s_Pp = Mat 1 1 [[11 / 7]],
      s_loglik = loglik_term 2 (1 / 3) (2 / 3) + loglik_term 2 (3 / 7) (1 / 21),
      s_PT = Mat 3 1 [[0], [2 / 3], [0]],
      s_PpT = Cube 1 1 [Mat 1 1 [[1]], Mat 1 1 [[4 / 3]], Mat 1 1 [[0]]],
      s_FT = Mat 2 1 [[2 / 3], [6 / 7]],
      s_PfT = Cube 1 1 [Mat 1 1 [[1 / 3]], Mat 1 1 [[4 / 7]]]\<rparr>"
  by (simp add: ex2_defs kf_eval mat_eval cong: bindE_weak_cong)

text \<open>
  C2 fails in the code. The filter loop of \<^verbatim>\<open>KalmanFilterSmoother\<close> overwrites \<^verbatim>\<open>C\<close> and
  \<^verbatim>\<open>R\<close> with their restrictions to the channels observed at each step, and its smoother
  half reads them as the last step left them. In the second model the last step observes
  one channel of two: the fused call computes a \<open>1 \<times> 1\<close> matrix for a slice of the
  \<open>2 \<times> 2\<close> cube \<^verbatim>\<open>L\<close> and raises, while \<^verbatim>\<open>KalmanFilter\<close> followed by \<^verbatim>\<open>KalmanSmoother\<close> on
  the full \<^verbatim>\<open>C\<close> and \<^verbatim>\<open>R\<close> returns.
\<close>

theorem C2_fused_call_differs:
  "KalmanFilterSmoother ex2_X ex2_C ex2_Q ex2_R ex2_A ex2_F0 ex2_P0 = Inl FixedSize
   \<and> filter_then_smooth ex2_X ex2_C ex2_Q ex2_R ex2_A ex2_F0 ex2_P0 = Inr
       \<lparr>kfs_Fs = Mat 2 1 [[5 / 7], [6 / 7]],
        kfs_Ps = Cube 1 1 [Mat 1 1 [[2 / 7]], Mat 1 1 [[4 / 7]]],
        kfs_PsTm = Cube 1 1 [Mat 1 1 [[0]], Mat 1 1 [[1 / 11]]],
        kfs_loglik = loglik_term 2 (1 / 3) (2 / 3) + loglik_term 2 (3 / 7) (1 / 21)\<rparr>"
proof
  show "KalmanFilterSmoother ex2_X ex2_C ex2_Q ex2_R ex2_A ex2_F0 ex2_P0 = Inl FixedSize"
    unfolding KalmanFilterSmoother_def ex2_kf_run bindE_Inr kf_state.simps
    by (simp add: ex2_defs sm_eval mat_eval cong: bindE_weak_cong)
  show "filter_then_smooth ex2_X ex2_C ex2_Q ex2_R ex2_A ex2_F0 ex2_P0 = Inr
       \<lparr>kfs_Fs = Mat 2 1 [[5 / 7], [6 / 7]],
        kfs_Ps = Cube 1 1 [Mat 1 1 [[2 / 7]], Mat 1 1 [[4 / 7]]],
        kfs_PsTm = Cube 1 1 [Mat 1 1 [[0]], Mat 1 1 [[1 / 11]]],
        kfs_loglik = loglik_term 2 (1 / 3) (2 / 3) + loglik_term 2 (3 / 7) (1 / 21)\<rparr>"
    unfolding filter_then_smooth_def KalmanFilter_def ex2_kf_run bindE_Inr kf_out.simps
      KalmanSmoother_def
    by (simp add: ex2_defs sm_eval mat_eval cong: bindE_weak_cong)
qed

section \<open>A transition matrix with a non-finite cell in its first row\<close>

subsection \<open>Which exceptions a statement can raise\<close>

lemma bindE_clean:
  "m \<noteq> Inl NonFiniteArith \<Longrightarrow> (\<And>x. f x \<noteq> Inl NonFiniteArith) \<Longrightarrow>
     bindE m f \<noteq> Inl NonFiniteArith"
  by (cases m) simp_all

lemma bindE_nonfinite:
  "m \<noteq> Inl NonFiniteArith \<Longrightarrow>
     bindE m f = Inl NonFiniteArith \<longleftrightarrow> (\<exists>x. m = Inr x \<and> f x = Inl NonFiniteArith)"
  by (cases m) simp_all

lemma library_clean:
  "arma_plus M N \<noteq> Inl NonFiniteArith"
  "arma_minus M N \<noteq> Inl NonFiniteArith"
  "arma_times M N \<noteq> Inl NonFiniteArith"
  "row M i \<noteq> Inl NonFiniteArith"
  "set_row M i v \<noteq> Inl NonFiniteArith"
  "slice Q i \<noteq> Inl NonFiniteArith"
  "set_slice Q i M \<noteq> Inl NonFiniteArith"
  "find_finite_row D i \<noteq> Inl NonFiniteArith"
  "submat M ri ci \<noteq> Inl NonFiniteArith"
  "conv_to_double M \<noteq> Inl NonFiniteArith"
  "arma_det M \<noteq> Inl NonFiniteArith"
  "arma_inv M \<noteq> Inl NonFiniteArith"
  by (simp_all add: arma_plus_def arma_minus_def arma_times_def row_def set_row_def slice_def
      set_slice_def find_finite_row_def submat_def conv_to_double_def arma_det_def arma_inv_def
      split: option.split)

lemma arma_times3_clean: "arma_times3 M N K \<noteq> Inl NonFiniteArith"
  unfolding arma_times3_def by (intro bindE_clean library_clean)

lemma update_clean:
  "innov_S C Pp R \<noteq> Inl NonFiniteArith"
  "pred_error x C fp \<noteq> Inl NonFiniteArith"
  "kalman_gain Pp C S \<noteq> Inl NonFiniteArith"
  "upd_mean fp K xe \<noteq> Inl NonFiniteArith"
  "upd_cov Pp K C \<noteq> Inl NonFiniteArith"
  unfolding innov_S_def pred_error_def kalman_gain_def upd_mean_def upd_cov_def
  by (intro bindE_clean library_clean arma_times3_clean)+

lemma upd_loglik_clean: "upd_loglik n S xe l \<noteq> Inl NonFiniteArith"
proof -
  have "(if 0 < d then bindE (bindE (arma_times3 (t_mat xe) S xe) conv_to_double)
          (\<lambda>q. Inr (l + loglik_term n d q)) else Inr l) \<noteq> Inl NonFiniteArith" for d
    using bindE_clean [OF bindE_clean [OF arma_times3_clean library_clean(10)],
        of "\<lambda>q. Inr (l + loglik_term n d q)" "t_mat xe" S xe]
    by simp
  then show ?thesis
    unfolding upd_loglik_def by (intro bindE_clean library_clean)
qed

lemma predict_mean_reached:
  assumes "bindE (predict_mean A FT t) g = Inl NonFiniteArith"
  shows "n_cols A = n_cols FT"
proof -
  have c: "bindE (row FT t) (\<lambda>r. arma_times (real_of A) (t_mat r)) \<noteq> Inl NonFiniteArith"
    by (intro bindE_clean library_clean)
  obtain v where "bindE (row FT t) (\<lambda>r. arma_times (real_of A) (t_mat r)) = Inr v"
  proof (cases "bindE (row FT t) (\<lambda>r. arma_times (real_of A) (t_mat r))")
    case (Inl e)
    with c have "predict_mean A FT t = Inl e" "e \<noteq> NonFiniteArith"
      by (auto simp: predict_mean_def needs_finite_def)
    with assms show ?thesis by simp
  next
    case (Inr v)
    then show ?thesis by (rule that)
  qed
  then show ?thesis
    by (auto simp: bindE_eq_Inr row_Inr arma_times_Inr real_of_def t_mat_def)
qed

lemma kf_step_nonfiniteE:
  assumes "kf_step X tC tR Q A nmiss t s = Inl NonFiniteArith"
  obtains miss C xe ff PT FT where
    "find_finite_row X t = Inr miss"
    "submat tC miss nmiss = Inr C"
    "pred_error (x_obs X t miss) C (s_fp s) = Inr xe"
    "set_row (s_PT s) t (t_mat (s_fp s)) = Inr PT"
    "set_row (s_FT s) t (t_mat ff) = Inr FT"
    "n_cols A = n_cols FT"
proof -
  from assms obtain miss C R S xe K ff Pf l PT PpT FT PfT where
    h: "find_finite_row X t = Inr miss"
    "submat tC miss nmiss = Inr C"
    "submat tR miss miss = Inr R"
    "innov_S C (s_Pp s) R = Inr S"
    "pred_error (x_obs X t miss) C (s_fp s) = Inr xe"
    "kalman_gain (s_Pp s) C S = Inr K"
    "upd_mean (s_fp s) K xe = Inr ff"
    "upd_cov (s_Pp s) K C = Inr Pf"
    "upd_loglik (n_cols X) S xe (s_loglik s) = Inr l"
    "set_row (s_PT s) t (t_mat (s_fp s)) = Inr PT"
    "set_slice (s_PpT s) t (s_Pp s) = Inr PpT"
    "set_row (s_FT s) t (t_mat ff) = Inr FT"
    "set_slice (s_PfT s) t Pf = Inr PfT"
    and r: "bindE (predict_mean A FT t) (\<lambda>fp. bindE (predict_cov A PfT t Q) (\<lambda>Pp.
       Inr \<lparr>s_C = C, s_R = R, s_fp = fp, s_Pp = Pp, s_loglik = l,
          s_PT = PT, s_PpT = PpT, s_FT = FT, s_PfT = PfT\<rparr>)) = (Inl NonFiniteArith :: error + kf_state)"
    unfolding kf_step_def
    by (simp only: bindE_nonfinite library_clean update_clean upd_loglik_clean
        not_False_eq_True simp_thms)
      ((elim exE conjE), (erule meta_mp | assumption)+)
  from r have "n_cols A = n_cols FT"
    by (rule predict_mean_reached)
  with h show ?thesis
    by (intro that [of miss C xe PT ff FT])
qed

subsection \<open>The first step\<close>

lemmas ex3_defs = ex3_X_def ex3_C_def ex3_Q_def ex3_R_def ex3_A_def ex3_F0_def ex3_P0_def

lemma first_step_raises:
  assumes f: "find_finite_row A 0 = Inr nmiss"
    and nf: "\<not> list_all (\<lambda>j. is_finite (ent A 0 j)) [0..<n_cols A]"
  shows "length nmiss < n_cols A"
    and "\<exists>e. e \<noteq> NonFiniteArith \<and> kf_step X C R Q A nmiss 0 (kf_init X C R A F0 P0) = Inl e"
proof -
  from f have rA: "0 < n_rows A"
    and nm: "nmiss = filter (\<lambda>j. is_finite (ent A (nat 0) j)) [0..<n_cols A]"
    by (simp_all add: find_finite_row_Inr)
  from nf obtain j where "j \<in> set [0..<n_cols A]" "\<not> is_finite (ent A 0 j)"
    by (auto simp: list_all_iff)
  then have "length (filter (\<lambda>j. is_finite (ent A 0 j)) [0..<n_cols A]) < length [0..<n_cols A]"
    by (intro length_filter_less) simp_all
  then show len: "length nmiss < n_cols A"
    by (simp add: nm)
  from rA nf have na: "\<not> all_finite A"
    by (auto simp: all_finite_def list_all_iff)
  let ?r = "kf_step X C R Q A nmiss 0 (kf_init X C R A F0 P0)"
  have "?r \<noteq> Inr s'" for s'
  proof
    assume "?r = Inr s'"
    then have "predict_mean A (s_FT s') 0 = Inr (s_fp s')"
      by (rule kf_stepE)
    with na show False
      by (simp add: predict_mean_Inr)
  qed
  moreover have "?r \<noteq> Inl NonFiniteArith"
  proof
    assume "?r = Inl NonFiniteArith"
    then obtain miss C' xe ff PT FT where h:
      "find_finite_row X 0 = Inr miss"
      "submat C miss nmiss = Inr C'"
      "pred_error (x_obs X 0 miss) C' (s_fp (kf_init X C R A F0 P0)) = Inr xe"
      "set_row (s_PT (kf_init X C R A F0 P0)) 0 (t_mat (s_fp (kf_init X C R A F0 P0))) = Inr PT"
      "set_row (s_FT (kf_init X C R A F0 P0)) 0 (t_mat ff) = Inr FT"
      "n_cols A = n_cols FT"
      by (rule kf_step_nonfiniteE)
    from h(2) have "n_cols C' = length nmiss"
      by (simp add: submat_Inr)
    moreover from h(3) have "n_cols C' = n_rows F0"
      by (simp add: pred_error_Inr kf_init_def)
    moreover from h(4) have "n_rows F0 = n_rows A"
      by (simp add: set_row_Inr kf_init_def t_mat_def zeros_def)
    moreover from h(5) have "n_cols FT = n_rows A"
      by (auto simp: set_row_Inr kf_init_def zeros_def)
    ultimately show False
      using h(6) len by simp
  qed
  ultimately show "\<exists>e. e \<noteq> NonFiniteArith \<and> ?r = Inl e"
    by (cases ?r) auto
qed

text \<open>
  C9 as stated fails. In the third model the first row of \<^verbatim>\<open>A\<close> has one finite cell, so
  \<^verbatim>\<open>C\<close> is restricted to its first column; the restricted \<open>1 \<times> 1\<close> matrix does not
  conform with the \<open>2 \<times> 2\<close> predicted covariance, and the product \<^verbatim>\<open>C * Pp\<close> of the first
  step fails its size check.
\<close>

theorem C9_restricted_product_fails:
  "find_finite_row ex3_A 0 = Inr [0]
   \<and> find_finite_row ex3_X 0 = Inr [0]
   \<and> submat ex3_C [0] [0] = Inr (Mat 1 1 [[1]])
   \<and> arma_times (Mat 1 1 [[1]]) ex3_P0 = Inl IncompatibleDims
   \<and> innov_S (Mat 1 1 [[1]]) ex3_P0 ex3_R = Inl IncompatibleDims
   \<and> KalmanFilter ex3_X ex3_C ex3_Q ex3_R ex3_A ex3_F0 ex3_P0 = Inl IncompatibleDims"
  by (simp add: KalmanFilter_def ex3_defs kf_eval mat_eval cong: bindE_weak_cong)

text \<open>
  C9, amended. If the first row of \<^verbatim>\<open>A\<close> holds a non-finite cell and \<^verbatim>\<open>X\<close> has at least
  one row, \<^verbatim>\<open>KalmanFilter\<close> raises an exception of the matrix library, whatever the other
  arguments: either \<^verbatim>\<open>A\<close> has no first row, or the index vector \<^verbatim>\<open>nmiss\<close>, computed once
  before the loop, is shorter than a row of \<^verbatim>\<open>A\<close> and the first time step raises.
\<close>

theorem C9_nonfinite_first_row_raises:
  assumes "0 < n_rows X" and "\<not> list_all (\<lambda>j. is_finite (ent A 0 j)) [0..<n_cols A]"
  shows "\<exists>e. e \<noteq> NonFiniteArith \<and> KalmanFilter X C Q R A F0 P0 = Inl e \<and>
     (find_finite_row A 0 = Inl e \<or>
      (\<exists>nmiss. find_finite_row A 0 = Inr nmiss \<and> length nmiss < n_cols A \<and>
         kf_step X C R Q A nmiss 0 (kf_init X C R A F0 P0) = Inl e))"
proof (cases "find_finite_row A 0")
  case (Inl e)
  moreover from Inl have "e \<noteq> NonFiniteArith"
    using library_clean(8) [of A 0] by auto
  moreover from Inl have "KalmanFilter X C Q R A F0 P0 = Inl e"
    by (simp add: KalmanFilter_def kf_run_def)
  ultimately show ?thesis by blast
next
  case (Inr nmiss)
  from first_step_raises [OF Inr assms(2)] obtain e where len: "length nmiss < n_cols A"
    and e: "e \<noteq> NonFiniteArith" "kf_step X C R Q A nmiss 0 (kf_init X C R A F0 P0) = Inl e"
    by blast
  from assms(1) e(2) have "KalmanFilter X C Q R A F0 P0 = Inl e"
    by (simp add: KalmanFilter_def kf_run_def Inr for_loop_go)
  with Inr len e show ?thesis by blast
qed

theorem C9_nonfinite_first_row_witness:
  "\<exists>e. e \<noteq> NonFiniteArith \<and>
      KalmanFilter ex3_X ex3_C ex3_Q ex3_R ex3_A ex3_F0 ex3_P0 = Inl e \<and>
     (find_finite_row ex3_A 0 = Inl e \<or>
      (\<exists>nmiss. find_finite_row ex3_A 0 = Inr nmiss \<and> length nmiss < n_cols ex3_A \<and>
         kf_step ex3_X ex3_C ex3_R ex3_Q ex3_A nmiss 0
           (kf_init ex3_X ex3_C ex3_R ex3_A ex3_F0 ex3_P0) = Inl e))"
proof (rule C9_nonfinite_first_row_raises)
  show "0 < n_rows ex3_X"
    by (simp add: ex3_X_def)
  show "\<not> list_all (\<lambda>j. is_finite (ent ex3_A 0 j)) [0..<n_cols ex3_A]"
    by (simp add: ex3_A_def mat_eval)
qed

section \<open>Symmetry of the covariance histories\<close>

subsection \<open>Matrix algebra\<close>

lemma tab_eqI:
  "nr = nr' \<Longrightarrow> nc = nc' \<Longrightarrow> (\<And>i j. i < nr \<Longrightarrow> j < nc \<Longrightarrow> f i j = g i j) \<Longrightarrow>
     tab nr nc f = tab nr' nc' g"
  by (simp add: tab_def)

lemma t_times:
  assumes "n_cols M = n_rows N"
  shows "t_mat (times_mat M N) = times_mat (t_mat N) (t_mat M)"
proof -
  have "ent (times_mat M N) j i = (\<Sum>k\<leftarrow>[0..<n_cols (t_mat N)]. ent (t_mat N) i k * ent (t_mat M) k j)"
    if "i < n_cols N" "j < n_rows M" for i j
  proof -
    have "(\<Sum>k\<leftarrow>[0..<n_cols M]. ent M j k * ent N k i)
        = (\<Sum>k\<leftarrow>[0..<n_cols M]. ent (t_mat N) i k * ent (t_mat M) k j)"
      using that assms by (intro arg_cong [where f = sum_list] map_cong) simp_all
    with that assms show ?thesis by simp
  qed
  then show ?thesis
    unfolding t_mat_def [of "times_mat M N"] times_mat_def [of "t_mat N"]
    by (intro tab_eqI) simp_all
qed

lemma t_plus:
  assumes "n_rows M = n_rows N" "n_cols M = n_cols N"
  shows "t_mat (plus_mat M N) = plus_mat (t_mat M) (t_mat N)"
  unfolding t_mat_def [of "plus_mat M N"] plus_mat_def [of "t_mat M"]
  using assms by (intro tab_eqI) simp_all

lemma t_minus:
  assumes "n_rows M = n_rows N" "n_cols M = n_cols N"
  shows "t_mat (minus_mat M N) = minus_mat (t_mat M) (t_mat N)"
  unfolding t_mat_def [of "minus_mat M N"] minus_mat_def [of "t_mat M"]
  using assms by (intro tab_eqI) simp_all

lemma t_t: "wf_mat M \<Longrightarrow> t_mat (t_mat M) = M"
  by (rule mat_eqI) simp_all

lemma sum_list_upt: "(\<Sum>k\<leftarrow>[0..<n]. f k) = sum f {..<n}"
  by (simp add: interv_sum_list_conv_sum_set_nat atLeast0LessThan)

lemma times_assoc:
  assumes "n_cols M = n_rows N" "n_cols N = n_rows K"
  shows "times_mat (times_mat M N) K = times_mat M (times_mat N K)"
proof -
  have "(\<Sum>l\<leftarrow>[0..<n_cols N]. ent (times_mat M N) i l * ent K l j)
      = (\<Sum>k\<leftarrow>[0..<n_cols M]. ent M i k * ent (times_mat N K) k j)"
    if "i < n_rows M" "j < n_cols K" for i j
  proof -
    have "(\<Sum>l<n_cols N. ent (times_mat M N) i l * ent K l j)
        = (\<Sum>l<n_cols N. \<Sum>k<n_cols M. ent M i k * ent N k l * ent K l j)"
      using that by (intro sum.cong refl) (simp add: sum_list_upt sum_distrib_right)
    also have "\<dots> = (\<Sum>k<n_cols M. \<Sum>l<n_cols N. ent M i k * ent N k l * ent K l j)"
      by (rule sum.swap)
    also have "\<dots> = (\<Sum>k<n_cols M. ent M i k * ent (times_mat N K) k j)"
      using that assms
      by (intro sum.cong refl) (simp add: sum_list_upt sum_distrib_left mult.assoc)
    finally show ?thesis
      by (simp add: sum_list_upt)
  qed
  then show ?thesis
    unfolding times_mat_def [of "times_mat M N"] times_mat_def [of M "times_mat N K"]
    by (intro tab_eqI) simp_all
qed

lemma symmetric_dims: "symmetric M \<Longrightarrow> n_rows M = n_cols M"
  unfolding symmetric_def by (metis dims_ops(5))

lemma symmetric_wf: "symmetric M \<Longrightarrow> wf_mat M"
  unfolding symmetric_def by (metis wf_ops(3))

lemma symmetric_zeros: "symmetric (zeros n n)"
  unfolding symmetric_def t_mat_def zeros_def by (intro tab_eqI) simp_all

lemma symmetric_plus:
  "symmetric M \<Longrightarrow> symmetric N \<Longrightarrow> n_rows M = n_rows N \<Longrightarrow> symmetric (plus_mat M N)"
  using symmetric_dims [of M] symmetric_dims [of N] by (simp add: symmetric_def t_plus)

lemma symmetric_minus:
  "symmetric M \<Longrightarrow> symmetric N \<Longrightarrow> n_rows M = n_rows N \<Longrightarrow> symmetric (minus_mat M N)"
  using symmetric_dims [of M] symmetric_dims [of N] by (simp add: symmetric_def t_minus)

text \<open>\<open>B P B\<^sup>T\<close> is symmetric when \<open>P\<close> is.\<close>

lemma symmetric_sandwich:
  assumes "symmetric P" and "n_cols B = n_rows P" and "wf_mat B"
  shows "symmetric (times_mat (times_mat B P) (t_mat B))"
proof -
  from assms(1) have d: "n_rows P = n_cols P" and P: "t_mat P = P"
    by (simp_all add: symmetric_dims symmetric_def)
  have "t_mat (times_mat (times_mat B P) (t_mat B))
      = times_mat (t_mat (t_mat B)) (t_mat (times_mat B P))"
    using assms(2) d by (intro t_times) simp
  also have "\<dots> = times_mat B (times_mat (t_mat P) (t_mat B))"
    using assms(2,3) by (simp add: t_t t_times)
  also have "\<dots> = times_mat (times_mat B P) (t_mat B)"
    using assms(2) d by (simp add: P times_assoc)
  finally show ?thesis
    by (simp add: symmetric_def)
qed

subsection \<open>The inverse is a left inverse\<close>

lemma find_pivot_Some:
  "find_pivot j rs = Some (p, rest) \<Longrightarrow>
     fst p ! j \<noteq> 0 \<and> p \<in> set rs \<and> set rest \<subseteq> set rs \<and> Suc (length rest) = length rs"
  by (induction rs arbitrary: p rest) (auto split: if_splits option.splits)

lemma fst_scale:
  "length (fst p) = n \<Longrightarrow> c < n \<Longrightarrow> fst (scale_row s p) ! c = s * fst p ! c"
  by (simp add: scale_row_def)

lemma lin_scale:
  assumes "lin M n r"
  shows "lin M n (scale_row s r)"
proof -
  from assms have l: "length (fst r) = n" "length (snd r) = n"
    and e: "\<And>c. c < n \<Longrightarrow> fst r ! c = (\<Sum>k<n. snd r ! k * ent M k c)"
    by (simp_all add: lin_def)
  have "fst (scale_row s r) ! c = (\<Sum>k<n. snd (scale_row s r) ! k * ent M k c)" if "c < n" for c
  proof -
    have "fst (scale_row s r) ! c = s * (\<Sum>k<n. snd r ! k * ent M k c)"
      using that l e by (simp add: scale_row_def)
    also have "\<dots> = (\<Sum>k<n. snd (scale_row s r) ! k * ent M k c)"
      unfolding sum_distrib_left using l
      by (intro sum.cong refl) (simp add: scale_row_def mult.assoc)
    finally show ?thesis .
  qed
  with l show ?thesis
    by (simp add: lin_def scale_row_def)
qed

lemma lin_sub:
  assumes "lin M n r" and "lin M n p"
  shows "lin M n (sub_row r p)"
proof -
  from assms have l: "length (fst r) = n" "length (snd r) = n" "length (fst p) = n"
      "length (snd p) = n"
    and e: "\<And>c. c < n \<Longrightarrow> fst r ! c = (\<Sum>k<n. snd r ! k * ent M k c)"
      "\<And>c. c < n \<Longrightarrow> fst p ! c = (\<Sum>k<n. snd p ! k * ent M k c)"
    by (simp_all add: lin_def)
  have "fst (sub_row r p) ! c = (\<Sum>k<n. snd (sub_row r p) ! k * ent M k c)" if "c < n" for c
  proof -
    have "fst (sub_row r p) ! c
        = (\<Sum>k<n. snd r ! k * ent M k c) - (\<Sum>k<n. snd p ! k * ent M k c)"
      using that l e by (simp add: sub_row_def)
    also have "\<dots> = (\<Sum>k<n. snd (sub_row r p) ! k * ent M k c)"
      unfolding sum_subtractf [symmetric] using l
      by (intro sum.cong refl) (simp add: sub_row_def left_diff_distrib)
    finally show ?thesis .
  qed
  with l show ?thesis
    by (simp add: lin_def sub_row_def)
qed

lemma lin_eliminate: "lin M n q \<Longrightarrow> lin M n r \<Longrightarrow> lin M n (eliminate j q r)"
  unfolding eliminate_def by (intro lin_sub lin_scale)

lemma fst_eliminate:
  "length (fst q) = n \<Longrightarrow> length (fst r) = n \<Longrightarrow> c < n \<Longrightarrow>
     fst (eliminate j q r) ! c = fst r ! c - fst r ! j * fst q ! c"
  by (simp add: eliminate_def sub_row_def scale_row_def)

lemma gj_inv_step:
  assumes inv: "gj_inv M n done (r # rs)"
    and piv: "find_pivot (length done) (r # rs) = Some (p, rest)"
    and q: "q = scale_row (1 / fst p ! length done) p"
  shows "gj_inv M n (map (eliminate (length done) q) done @ [q])
           (map (eliminate (length done) q) rest)"
proof -
  let ?j = "length done"
  let ?e = "eliminate ?j q"
  from piv have p: "fst p ! ?j \<noteq> 0" "p \<in> set (r # rs)" "set rest \<subseteq> set (r # rs)"
      "Suc (length rest) = length (r # rs)"
    using find_pivot_Some by blast+
  from inv have lin: "\<And>x. x \<in> set done \<union> set (r # rs) \<Longrightarrow> lin M n x"
    and unit: "\<And>i c. i < ?j \<Longrightarrow> c < ?j \<Longrightarrow> fst (done ! i) ! c = (if i = c then 1 else 0)"
    and zero: "\<And>x c. x \<in> set (r # rs) \<Longrightarrow> c < ?j \<Longrightarrow> fst x ! c = 0"
    and len: "?j + length (r # rs) = n"
    unfolding gj_inv_def by blast+
  from len have j: "?j < n" by simp
  from lin p(2) have lp: "lin M n p" by blast
  then have lq: "lin M n q" unfolding q by (rule lin_scale)
  from lp have np: "length (fst p) = n" by (simp add: lin_def)
  from lq have nq: "length (fst q) = n" by (simp add: lin_def)
  have qj: "fst q ! ?j = 1"
    using p(1) j np by (simp add: q fst_scale)
  have qc: "fst q ! c = 0" if "c < ?j" for c
    using that j np zero [OF p(2) that] by (simp add: q fst_scale)
  have nx: "length (fst x) = n" if "x \<in> set done \<union> set (r # rs)" for x
    using lin [OF that] by (simp add: lin_def)
  have ec: "fst (?e x) ! c = fst x ! c" if "x \<in> set done \<union> set (r # rs)" "c < ?j" for x c
    using that j qc [OF that(2)] by (simp add: fst_eliminate [OF nq nx [OF that(1)]])
  have ej: "fst (?e x) ! ?j = 0" if "x \<in> set done \<union> set (r # rs)" for x
    using that j qj by (simp add: fst_eliminate [OF nq nx [OF that]])
  have 1: "lin M n x" if "x \<in> set (map ?e done @ [q]) \<union> set (map ?e rest)" for x
    using that lq lin p(3) by (auto intro!: lin_eliminate)
  have 2: "fst ((map ?e done @ [q]) ! i) ! c = (if i = c then 1 else 0)"
    if "i < length (map ?e done @ [q])" "c < length (map ?e done @ [q])" for i c
  proof (cases "i < ?j")
    case True
    then have d: "done ! i \<in> set done \<union> set (r # rs)" by simp
    from True have s: "(map ?e done @ [q]) ! i = ?e (done ! i)"
      by (simp add: nth_append)
    show ?thesis
    proof (cases "c < ?j")
      case c: True
      with True show ?thesis
        by (simp add: s ec [OF d c] unit)
    next
      case False
      with that(2) have "c = ?j" by simp
      with True show ?thesis
        by (simp add: s ej [OF d])
    qed
  next
    case False
    with that(1) have i: "i = ?j" by simp
    have s: "(map ?e done @ [q]) ! ?j = q"
      by (simp add: nth_append)
    from that(2) have "c < ?j \<or> c = ?j" by auto
    then show ?thesis
      using i qj qc by (auto simp: s)
  qed
  have 3: "fst x ! c = 0" if "x \<in> set (map ?e rest)" "c < length (map ?e done @ [q])" for x c
  proof -
    from that(1) obtain y where y: "y \<in> set rest" "x = ?e y" by auto
    with p(3) have d: "y \<in> set done \<union> set (r # rs)" "y \<in> set (r # rs)" by auto
    from that(2) have "c < ?j \<or> c = ?j" by auto
    then show ?thesis
      using ec [OF d(1)] ej [OF d(1)] zero [OF d(2)] by (auto simp: y(2))
  qed
  have 4: "length (map ?e done @ [q]) + length (map ?e rest) = n"
    using len p(4) by simp
  from 1 2 3 4 show ?thesis
    unfolding gj_inv_def by blast
qed

lemma gj_inv_final:
  "gauss_jordan done todo = Some res \<Longrightarrow> gj_inv M n done todo \<Longrightarrow> gj_inv M n res []"
proof (induction "done" todo rule: gauss_jordan.induct)
  case (1 "done")
  then show ?case by simp
next
  case (2 "done" r rs)
  from "2.prems"(1) obtain p rest where
    piv: "find_pivot (length done) (r # rs) = Some (p, rest)"
    by (auto split: option.splits)
  define q where "q = scale_row (1 / fst p ! length done) p"
  from "2.prems"(1) piv have g: "gauss_jordan (map (eliminate (length done) q) done @ [q])
      (map (eliminate (length done) q) rest) = Some res"
    by (simp add: q_def Let_def)
  from "2.prems"(2) piv q_def have "gj_inv M n (map (eliminate (length done) q) done @ [q])
           (map (eliminate (length done) q) rest)"
    by (rule gj_inv_step)
  with g show ?case
    using "2.IH" [OF piv refl q_def] by blast
qed

lemma ent_eye: "i < n \<Longrightarrow> j < m \<Longrightarrow> ent (eye n m) i j = (if i = j then 1 else 0)"
  by (simp add: eye_def)

lemma times_eye_right:
  assumes "wf_mat B" and "n_cols B = n"
  shows "times_mat B (eye n n) = B"
proof (rule mat_eqI)
  fix i j assume "i < n_rows (times_mat B (eye n n))" "j < n_cols (times_mat B (eye n n))"
  then have ij: "i < n_rows B" "j < n" by simp_all
  have "(\<Sum>k<n. ent B i k * ent (eye n n) k j) = (\<Sum>k<n. if k = j then ent B i k else 0)"
    using ij by (intro sum.cong refl) (simp add: ent_eye)
  also have "\<dots> = ent B i j"
    using ij by (simp add: sum.delta)
  finally show "ent (times_mat B (eye n n)) i j = ent B i j"
    using ij assms(2) by (simp add: sum_list_upt)
qed (use assms in simp_all)

lemma times_eye_left:
  assumes "wf_mat B" and "n_rows B = n"
  shows "times_mat (eye n n) B = B"
proof (rule mat_eqI)
  fix i j assume "i < n_rows (times_mat (eye n n) B)" "j < n_cols (times_mat (eye n n) B)"
  then have ij: "i < n" "j < n_cols B" by simp_all
  have "(\<Sum>k<n. ent (eye n n) i k * ent B k j) = (\<Sum>k<n. if i = k then ent B k j else 0)"
    using ij by (intro sum.cong refl) (simp add: ent_eye)
  also have "\<dots> = ent B i j"
    using ij by (simp add: sum.delta')
  finally show "ent (times_mat (eye n n) B) i j = ent B i j"
    using ij by (simp add: sum_list_upt)
qed (use assms in simp_all)

lemma t_eye: "t_mat (eye n n) = eye n n"
  unfolding t_mat_def eye_def [of n n] by (rule tab_eqI) (auto simp: ent_eye)

lemma gj_inv_start:
  assumes "wf_mat M" and "n_rows M = n" and "n_cols M = n"
  shows "gj_inv M n [] (zip (rows_of M) (map (unit_row n) [0..<n]))"
proof -
  have l: "length (rows_of M) = n" "\<And>i. i < n \<Longrightarrow> length (rows_of M ! i) = n"
    using assms by (auto simp: wf_mat_def list_all_length)
  have "lin M n x" if "x \<in> set (zip (rows_of M) (map (unit_row n) [0..<n]))" for x
  proof -
    from that l(1) obtain i where i: "i < n" "x = (rows_of M ! i, unit_row n i)"
      by (auto simp: set_zip)
    have "rows_of M ! i ! c = (\<Sum>k<n. unit_row n i ! k * ent M k c)" if "c < n" for c
    proof -
      have "(\<Sum>k<n. unit_row n i ! k * ent M k c) = (\<Sum>k<n. if i = k then ent M k c else 0)"
        by (intro sum.cong refl) (simp add: unit_row_def)
      also have "\<dots> = ent M i c"
        using i(1) by (simp add: sum.delta')
      finally show ?thesis by (simp add: ent_def)
    qed
    with i l(2) show ?thesis
      by (simp add: lin_def unit_row_def)
  qed
  with l(1) show ?thesis
    by (simp add: gj_inv_def)
qed

lemma arma_inv_left:
  assumes inv: "arma_inv M = Inr B" and wf: "wf_mat M"
  shows "n_rows B = n_rows M" "n_cols B = n_rows M" "wf_mat B"
    "times_mat B M = eye (n_rows M) (n_rows M)"
proof -
  let ?n = "n_rows M"
  from inv obtain rs where sq: "n_rows M = n_cols M"
    and g: "gauss_jordan [] (zip (rows_of M) (map (unit_row ?n) [0..<?n])) = Some rs"
    and B: "B = Mat ?n ?n (map snd rs)"
    by (auto simp: arma_inv_def split: if_splits option.splits)
  from wf sq have "gj_inv M ?n [] (zip (rows_of M) (map (unit_row ?n) [0..<?n]))"
    by (intro gj_inv_start) simp_all
  with g have "gj_inv M ?n rs []"
    by (rule gj_inv_final)
  then have len: "length rs = ?n"
    and lin: "\<And>x. x \<in> set rs \<Longrightarrow> lin M ?n x"
    and unit: "\<And>i c. i < ?n \<Longrightarrow> c < ?n \<Longrightarrow> fst (rs ! i) ! c = (if i = c then 1 else 0)"
    by (simp_all add: gj_inv_def)
  show "n_rows B = ?n" "n_cols B = ?n"
    by (simp_all add: B)
  show "wf_mat B"
    using len lin by (auto simp: B wf_mat_def list_all_iff lin_def)
  have e: "ent B i k = snd (rs ! i) ! k" if "i < ?n" for i k
    using that len by (simp add: B ent_def)
  have "(\<Sum>k\<leftarrow>[0..<n_cols B]. ent B i k * ent M k c) = (if i = c then 1 else 0)"
    if "i < ?n" "c < ?n" for i c
  proof -
    from that(1) len have "lin M ?n (rs ! i)"
      by (intro lin) simp
    with that(2) have "fst (rs ! i) ! c = (\<Sum>k<?n. snd (rs ! i) ! k * ent M k c)"
      by (simp add: lin_def)
    also have "\<dots> = (\<Sum>k<?n. ent B i k * ent M k c)"
      by (simp add: e [OF that(1)])
    finally have "(\<Sum>k<?n. ent B i k * ent M k c) = (if i = c then 1 else 0)"
      using that by (simp add: unit)
    then show ?thesis
      by (simp add: sum_list_upt B)
  qed
  then show "times_mat B M = eye ?n ?n"
    unfolding times_mat_def eye_def using sq by (intro tab_eqI) (simp_all add: B)
qed

lemma arma_inv_symmetric:
  assumes inv: "arma_inv M = Inr B" and sym: "symmetric M"
  shows "symmetric B"
proof -
  let ?n = "n_rows M"
  from sym have wf: "wf_mat M" and sq: "n_rows M = n_cols M" and tM: "t_mat M = M"
    by (simp_all add: symmetric_wf symmetric_dims symmetric_def)
  note B = arma_inv_left [OF inv wf]
  have "times_mat M (t_mat B) = t_mat (times_mat B M)"
    using B(2) by (simp add: t_times tM)
  then have r: "times_mat M (t_mat B) = eye ?n ?n"
    by (simp add: B(4) t_eye)
  have "B = times_mat B (eye ?n ?n)"
    using B(2,3) by (simp add: times_eye_right)
  also have "\<dots> = times_mat B (times_mat M (t_mat B))"
    by (simp only: r)
  also have "\<dots> = times_mat (times_mat B M) (t_mat B)"
    using B(1,2) sq by (simp add: times_assoc)
  also have "\<dots> = t_mat B"
    using B(2) by (simp add: B(4) times_eye_left)
  finally show ?thesis
    by (simp add: symmetric_def)
qed

subsection \<open>The filter keeps its covariances symmetric\<close>

lemma for_loop_pres:
  assumes "for_loop lo hi body s = Inr s'" and "P s"
    and "\<And>i a b. P a \<Longrightarrow> body i a = Inr b \<Longrightarrow> P b"
  shows "P s'"
proof (cases "lo \<le> hi")
  case True
  from assms(1,2) True show ?thesis
    by (rule for_loop_inv [where I = "\<lambda>i. P"]) (rule assms(3))
next
  case False
  with assms(1,2) show ?thesis by (simp add: for_loop_stop)
qed

lemma symmetric_ent:
  assumes "symmetric M" and "i < n_rows M" and "j < n_rows M"
  shows "ent M i j = ent M j i"
proof -
  from assms(1) have d: "n_rows M = n_cols M" by (rule symmetric_dims)
  from assms(1) have "ent M i j = ent (t_mat M) i j" by (simp add: symmetric_def)
  also have "\<dots> = ent M j i" using assms(2,3) d by simp
  finally show ?thesis .
qed

lemma symmetric_submat:
  assumes "symmetric M" and "submat M ms ms = Inr R"
  shows "symmetric R"
proof -
  from assms(1) have d: "n_rows M = n_cols M" by (rule symmetric_dims)
  from assms(2) have b: "\<And>c. c \<in> set ms \<Longrightarrow> c < n_rows M"
    and R: "R = tab (length ms) (length ms) (\<lambda>i j. ent M (ms ! i) (ms ! j))"
    using d by (auto simp: submat_Inr)
  show ?thesis
    unfolding symmetric_def t_mat_def
    by (subst (3) R, rule tab_eqI) (simp_all add: R symmetric_ent [OF assms(1)] b)
qed

lemma symmetric_update:
  assumes "list_all symmetric (slices Q)" and "symmetric M" and "set_slice Q i M = Inr Q'"
  shows "list_all symmetric (slices Q')"
proof -
  from assms(3) have "slices Q' = (slices Q)[nat i := M]"
    by (auto simp: set_slice_Inr)
  with assms(1,2) show ?thesis
    by (auto simp: list_all_iff dest!: subsetD [OF set_update_subset_insert])
qed

lemma wf_update:
  assumes "list_all wf_mat (slices Q)" and "wf_mat M" and "set_slice Q i M = Inr Q'"
  shows "list_all wf_mat (slices Q')"
proof -
  from assms(3) have "slices Q' = (slices Q)[nat i := M]"
    by (auto simp: set_slice_Inr)
  with assms(1,2) show ?thesis
    by (auto simp: list_all_iff dest!: subsetD [OF set_update_subset_insert])
qed

lemma symmetric_slice:
  "list_all symmetric (slices Q) \<Longrightarrow> slice Q i = Inr M \<Longrightarrow> symmetric M"
  by (auto simp: slice_Inr list_all_length)

lemma wf_slice:
  "list_all wf_mat (slices Q) \<Longrightarrow> slice Q i = Inr M \<Longrightarrow> wf_mat M"
  by (auto simp: slice_Inr list_all_length)

lemma symmetric_zeros_cube: "list_all symmetric (slices (zeros_cube n n k))"
  by (simp add: zeros_cube_def list_all_iff symmetric_zeros)

lemma wf_zeros_cube: "list_all wf_mat (slices (zeros_cube n m k))"
  by (simp add: zeros_cube_def list_all_iff)

lemma submat_wf: "submat M ri ci = Inr C \<Longrightarrow> wf_mat C"
  by (auto simp: submat_Inr)

text \<open>The inverted innovation covariance of lines 54.\<close>

lemma symmetric_innov_S:
  assumes "innov_S C Pp R = Inr S" and "symmetric Pp" and "symmetric R" and "wf_mat C"
  shows "symmetric S" and "n_rows S = n_rows C" and "n_cols S = n_rows C"
proof -
  from assms(1) have d: "n_cols C = n_rows Pp" "n_rows C = n_rows R"
    and i: "arma_inv (plus_mat (times_mat (times_mat C Pp) (t_mat C)) R) = Inr S"
    by (simp_all add: innov_S_Inr)
  have s: "symmetric (plus_mat (times_mat (times_mat C Pp) (t_mat C)) R)"
    using assms(2,3,4) d by (intro symmetric_plus symmetric_sandwich) simp_all
  from i s show "symmetric S"
    by (rule arma_inv_symmetric)
  from arma_inv_left(1,2) [OF i symmetric_wf [OF s]]
  show "n_rows S = n_rows C" "n_cols S = n_rows C"
    by simp_all
qed

text \<open>The filtered covariance of line 63, \<open>Pp - K C Pp\<close> with \<open>K = Pp C\<^sup>T S\<close>.\<close>

lemma symmetric_upd_cov:
  assumes K: "kalman_gain Pp C S = Inr K" and Pf: "upd_cov Pp K C = Inr Pf"
    and Pp: "symmetric Pp" and S: "symmetric S" and C: "wf_mat C"
  shows "symmetric Pf"
proof -
  let ?B = "times_mat Pp (t_mat C)"
  from Pp have dP: "n_rows Pp = n_cols Pp" and tP: "t_mat Pp = Pp"
    by (simp_all add: symmetric_dims symmetric_def)
  from K have k: "n_cols Pp = n_cols C" "n_rows C = n_rows S" "K = times_mat ?B S"
    by (simp_all add: kalman_gain_Inr)
  from Pf have p: "Pf = minus_mat Pp (times_mat (times_mat K C) Pp)"
    by (simp add: upd_cov_Inr)
  from S have dS: "n_rows S = n_cols S" by (rule symmetric_dims)
  have "t_mat ?B = times_mat C Pp"
    using k(1) C by (simp add: t_times t_t tP)
  moreover have "times_mat (times_mat K C) Pp = times_mat K (times_mat C Pp)"
    using k dP dS by (intro times_assoc) simp_all
  ultimately have "times_mat (times_mat K C) Pp = times_mat (times_mat ?B S) (t_mat ?B)"
    by (simp add: k(3))
  moreover have "symmetric (times_mat (times_mat ?B S) (t_mat ?B))"
    using S k(2) by (intro symmetric_sandwich) simp_all
  ultimately have "symmetric (times_mat (times_mat K C) Pp)"
    by simp
  with Pp show ?thesis
    unfolding p by (intro symmetric_minus) (simp_all add: k(3))
qed

lemma symmetric_predict_cov:
  assumes "predict_cov A PfT t Q = Inr Pp" and "list_all symmetric (slices PfT)"
    and "symmetric Q"
  shows "symmetric Pp"
proof -
  from assms(1) have h: "0 \<le> t" "t < int (length (slices PfT))"
    "n_cols A = n_rows (slices PfT ! nat t)" "n_rows A = n_rows Q"
    "Pp = plus_mat (times_mat (times_mat (real_of A) (slices PfT ! nat t))
       (t_mat (real_of A))) Q"
    by (simp_all add: predict_cov_Inr)
  from assms(2) h(1,2) have "symmetric (slices PfT ! nat t)"
    by (simp add: list_all_length)
  with assms(3) h(3,4) show ?thesis
    unfolding h(5) by (intro symmetric_plus symmetric_sandwich) simp_all
qed

lemma symmetric_kf_step:
  assumes step: "kf_step X tC tR Q A nmiss t s = Inr s'"
    and tR: "symmetric tR" and Q: "symmetric Q"
    and inv: "symmetric (s_Pp s) \<and> list_all symmetric (slices (s_PpT s)) \<and>
       list_all symmetric (slices (s_PfT s))"
  shows "symmetric (s_Pp s') \<and> list_all symmetric (slices (s_PpT s')) \<and>
       list_all symmetric (slices (s_PfT s'))"
proof -
  from step obtain miss C R S xe K ff Pf where h:
    "find_finite_row X t = Inr miss"
    "submat tC miss nmiss = Inr C"
    "submat tR miss miss = Inr R"
    "innov_S C (s_Pp s) R = Inr S"
    "pred_error (x_obs X t miss) C (s_fp s) = Inr xe"
    "kalman_gain (s_Pp s) C S = Inr K"
    "upd_mean (s_fp s) K xe = Inr ff"
    "upd_cov (s_Pp s) K C = Inr Pf"
    "upd_loglik (n_cols X) S xe (s_loglik s) = Inr (s_loglik s')"
    "set_row (s_PT s) t (t_mat (s_fp s)) = Inr (s_PT s')"
    "set_slice (s_PpT s) t (s_Pp s) = Inr (s_PpT s')"
    "set_row (s_FT s) t (t_mat ff) = Inr (s_FT s')"
    "set_slice (s_PfT s) t Pf = Inr (s_PfT s')"
    "predict_mean A (s_FT s') t = Inr (s_fp s')"
    "predict_cov A (s_PfT s') t Q = Inr (s_Pp s')"
    by (rule kf_stepE)
  from inv have Pp: "symmetric (s_Pp s)" and PpT: "list_all symmetric (slices (s_PpT s))"
    and PfT: "list_all symmetric (slices (s_PfT s))"
    by simp_all
  from h(2) have C: "wf_mat C" by (rule submat_wf)
  from tR h(3) have R: "symmetric R" by (rule symmetric_submat)
  from h(4) Pp R C have S: "symmetric S" by (rule symmetric_innov_S)
  from h(6,8) Pp S C have Pf: "symmetric Pf" by (rule symmetric_upd_cov)
  from PpT Pp h(11) have 1: "list_all symmetric (slices (s_PpT s'))"
    by (rule symmetric_update)
  from PfT Pf h(13) have 2: "list_all symmetric (slices (s_PfT s'))"
    by (rule symmetric_update)
  from h(15) 2 Q have "symmetric (s_Pp s')"
    by (rule symmetric_predict_cov)
  with 1 2 show ?thesis by simp
qed

lemma symmetric_kf_run:
  assumes run: "kf_run X C Q R A F0 P0 = Inr s"
    and sym: "symmetric P0" "symmetric Q" "symmetric R"
  shows "list_all symmetric (slices (s_PpT s))" "list_all symmetric (slices (s_PfT s))"
proof -
  from run obtain nmiss where
    l: "for_loop 0 (int (n_rows X)) (kf_step X C R Q A nmiss) (kf_init X C R A F0 P0) = Inr s"
    by (rule kf_runE)
  have "symmetric (s_Pp s) \<and> list_all symmetric (slices (s_PpT s)) \<and>
       list_all symmetric (slices (s_PfT s))"
    using l
  proof (rule for_loop_pres)
    show "symmetric (s_Pp (kf_init X C R A F0 P0)) \<and>
       list_all symmetric (slices (s_PpT (kf_init X C R A F0 P0))) \<and>
       list_all symmetric (slices (s_PfT (kf_init X C R A F0 P0)))"
      using sym(1) by (simp add: kf_init_def symmetric_zeros_cube)
  next
    fix i and a b :: kf_state
    assume "symmetric (s_Pp a) \<and> list_all symmetric (slices (s_PpT a)) \<and>
       list_all symmetric (slices (s_PfT a))"
      and "kf_step X C R Q A nmiss i a = Inr b"
    from this(2) sym(3,2) this(1)
    show "symmetric (s_Pp b) \<and> list_all symmetric (slices (s_PpT b)) \<and>
       list_all symmetric (slices (s_PfT b))"
      by (rule symmetric_kf_step)
  qed
  then show "list_all symmetric (slices (s_PpT s))" "list_all symmetric (slices (s_PfT s))"
    by simp_all
qed

subsection \<open>The smoother keeps its covariances symmetric\<close>

lemma symmetric_smooth_cov:
  assumes "smooth_cov Pf Ji Ps1 Pp1 = Inr V" and "symmetric Pf" and "symmetric Ps1"
    and "symmetric Pp1" and "wf_mat Ji"
  shows "symmetric V"
proof -
  from assms(1) have h: "n_rows Ps1 = n_rows Pp1" "n_cols Ji = n_rows Ps1"
    "n_rows Pf = n_rows Ji"
    "V = plus_mat Pf (times_mat (times_mat Ji (minus_mat Ps1 Pp1)) (t_mat Ji))"
    by (simp_all add: smooth_cov_Inr)
  from assms(2-5) h(1-3) show ?thesis
    unfolding h(4) by (intro symmetric_plus symmetric_sandwich symmetric_minus) simp_all
qed

lemma symmetric_smoother_body:
  assumes body: "smoother_body T n A C R FT PT PfT PpT = Inr m"
    and PfT: "list_all symmetric (slices PfT)" and PpT: "list_all symmetric (slices PpT)"
  shows "list_all symmetric (slices (m_PsT m))"
proof -
  from body obtain m1 m2 m3 m4 m5 where h:
    "sm_last T FT PfT (sm_init (n_rows A) n (nat T)) = Inr m1"
    "for_loop 0 (T - 1) (j_step A PfT PpT) m1 = Inr m2"
    "for_loop 2 (T + 1) (fs_step T FT PT PfT PpT) m2 = Inr m3"
    "for_loop 0 T (lk_step C R PpT) m3 = Inr m4"
    "lag_last A C T PfT m4 = Inr m5"
    "for_loop 2 (T - 1) (lag_step A T PfT) m5 = Inr m"
    by (rule smoother_bodyE)
  from h(1) obtain f P where l: "slice PfT (T - 1) = Inr P"
    "set_slice (m_PsT (sm_init (n_rows A) n (nat T))) (T - 1) P = Inr (m_PsT m1)"
    "m_J m1 = m_J (sm_init (n_rows A) n (nat T))"
    by (rule sm_lastE)
  from PfT l(1) have "symmetric P" by (rule symmetric_slice)
  with l(2) have s1: "list_all symmetric (slices (m_PsT m1))"
    by (intro symmetric_update [OF _ _ l(2)]) (simp_all add: sm_init_def symmetric_zeros_cube)
  from l(3) have w1: "list_all wf_mat (slices (m_J m1))"
    by (simp add: sm_init_def wf_zeros_cube)
  have 2: "list_all symmetric (slices (m_PsT m2)) \<and> list_all wf_mat (slices (m_J m2))"
    using h(2)
  proof (rule for_loop_pres)
    show "list_all symmetric (slices (m_PsT m1)) \<and> list_all wf_mat (slices (m_J m1))"
      using s1 w1 by simp
  next
    fix i and a b :: sm_state
    assume a: "list_all symmetric (slices (m_PsT a)) \<and> list_all wf_mat (slices (m_J a))"
      and "j_step A PfT PpT i a = Inr b"
    from this(2) obtain Pf Pp1 v where s: "smoother_gain A Pf Pp1 = Inr v"
      "set_slice (m_J a) i v = Inr (m_J b)" "m_PsT b = m_PsT a"
      by (rule j_stepE)
    from s(1) have "wf_mat v" by (auto simp: smoother_gain_Inr)
    with a s(2,3) show "list_all symmetric (slices (m_PsT b)) \<and> list_all wf_mat (slices (m_J b))"
      by (auto intro: wf_update)
  qed
  have 3: "list_all symmetric (slices (m_PsT m3)) \<and> list_all wf_mat (slices (m_J m3))"
    using h(3) 2
  proof (rule for_loop_pres)
    fix j and a b :: sm_state
    assume a: "list_all symmetric (slices (m_PsT a)) \<and> list_all wf_mat (slices (m_J a))"
      and "fs_step T FT PT PfT PpT j a = Inr b"
    from this(2) obtain f' Ji fs1 p1 v Pf Ps1 Pp1 V where s:
      "row FT (T - j) = Inr f'" "slice (m_J a) (T - j) = Inr Ji"
      "row (m_FsT a) (T - j + 1) = Inr fs1" "row PT (T - j + 1) = Inr p1"
      "smooth_mean f' Ji fs1 p1 = Inr v" "set_row (m_FsT a) (T - j) v = Inr (m_FsT b)"
      "slice PfT (T - j) = Inr Pf" "slice (m_PsT a) (T - j + 1) = Inr Ps1"
      "slice PpT (T - j + 1) = Inr Pp1" "smooth_cov Pf Ji Ps1 Pp1 = Inr V"
      "set_slice (m_PsT a) (T - j) V = Inr (m_PsT b)"
      "m_J b = m_J a"
      by (rule fs_stepE)
    from a s(2) have "wf_mat Ji" by (auto intro: wf_slice)
    moreover from PfT s(7) have "symmetric Pf" by (rule symmetric_slice)
    moreover from a s(8) have "symmetric Ps1" by (auto intro: symmetric_slice)
    moreover from PpT s(9) have "symmetric Pp1" by (rule symmetric_slice)
    ultimately have "symmetric V"
      using s(10) by (intro symmetric_smooth_cov [OF s(10)])
    with a s(11,12) show "list_all symmetric (slices (m_PsT b)) \<and> list_all wf_mat (slices (m_J b))"
      by (auto intro: symmetric_update)
  qed
  have "m_PsT m4 = m_PsT m3"
    by (rule for_loop_keeps [OF h(4)], erule lk_stepE, assumption)
  moreover have "m_PsT m5 = m_PsT m4"
    by (rule lag_lastE [OF h(5)], assumption)
  moreover have "m_PsT m = m_PsT m5"
    by (rule for_loop_keeps [OF h(6)], erule lag_stepE, assumption)
  ultimately show ?thesis
    using 3 by simp
qed

subsection \<open>The fourth model\<close>

lemmas ex4_defs = ex4_X_def ex4_C_def ex4_Q_def ex4_R_def ex4_A_def ex4_F0_def ex4_P0_def

lemma ex4_kf_run:
  "kf_run ex4_X ex4_C ex4_Q ex4_R ex4_A ex4_F0 ex4_P0 = Inr
     \<lparr>s_C = Mat 1 2 [[1, 0]], s_R = Mat 1 1 [[1]],
      s_fp = Mat 2 1 [[1], [1 / 7]], s_Pp = Mat 2 2 [[4, 2], [2, 19 / 7]],
      s_loglik = loglik_term 1 (1 / 2) (1 / 2) + loglik_term 1 (2 / 7) (1 / 14),
      s_PT = Mat 3 2 [[0, 0], [1 / 2, 0], [0, 0]],
      s_PpT = Cube 2 2 [Mat 2 2 [[1, 0], [0, 1]], Mat 2 2 [[5 / 2, 1], [1, 2]],
                 Mat 2 2 [[0, 0], [0, 0]]],
      s_FT = Mat 2 2 [[1 / 2, 0], [6 / 7, 1 / 7]],
      s_PfT = Cube 2 2 [Mat 2 2 [[1 / 2, 0], [0, 1]],
                 Mat 2 2 [[5 / 7, 2 / 7], [2 / 7, 12 / 7]]]\<rparr>"
  by (simp add: ex4_defs kf_eval mat_eval cong: bindE_weak_cong)

lemma ex4_smoother:
  "smoother_body 2 1 ex4_A ex4_C ex4_R (Mat 2 2 [[1 / 2, 0], [6 / 7, 1 / 7]])
      (Mat 3 2 [[0, 0], [1 / 2, 0], [0, 0]])
      (Cube 2 2 [Mat 2 2 [[1 / 2, 0], [0, 1]], Mat 2 2 [[5 / 7, 2 / 7], [2 / 7, 12 / 7]]])
      (Cube 2 2 [Mat 2 2 [[1, 0], [0, 1]], Mat 2 2 [[5 / 2, 1], [1, 2]],
                 Mat 2 2 [[0, 0], [0, 0]]])
    = Inr
     \<lparr>m_J = Cube 2 2 [Mat 2 2 [[1 / 4, - (1 / 8)], [1 / 4, 3 / 8]],
              Mat 2 2 [[0, 0], [0, 0]]],
      m_L = Cube 1 1 [Mat 1 1 [[1 / 2]], Mat 1 1 [[2 / 7]]],
      m_K = Cube 2 1 [Mat 2 1 [[1 / 2], [0]], Mat 2 1 [[5 / 7], [2 / 7]]],
      m_PsTm = Cube 2 2 [Mat 2 2 [[0, 0], [0, 0]],
              Mat 2 2 [[1 / 7, 2 / 7], [- (1 / 7), 5 / 7]]],
      m_FsT = Mat 2 2 [[4 / 7, 1 / 7], [6 / 7, 1 / 7]],
      m_PsT = Cube 2 2 [Mat 2 2 [[3 / 7, - (1 / 7)], [- (1 / 7), 5 / 7]],
              Mat 2 2 [[5 / 7, 2 / 7], [2 / 7, 12 / 7]]]\<rparr>"
  by (simp add: ex4_defs sm_eval mat_eval cong: bindE_weak_cong)

lemma ex4_kf:
  "KalmanFilter ex4_X ex4_C ex4_Q ex4_R ex4_A ex4_F0 ex4_P0 = Inr
     \<lparr>kf_F = Mat 2 2 [[1 / 2, 0], [6 / 7, 1 / 7]],
      kf_Pf = Cube 2 2 [Mat 2 2 [[1 / 2, 0], [0, 1]],
                 Mat 2 2 [[5 / 7, 2 / 7], [2 / 7, 12 / 7]]],
      kf_P = Mat 3 2 [[0, 0], [1 / 2, 0], [0, 0]],
      kf_Pp = Cube 2 2 [Mat 2 2 [[1, 0], [0, 1]], Mat 2 2 [[5 / 2, 1], [1, 2]],
                 Mat 2 2 [[0, 0], [0, 0]]],
      kf_loglik = loglik_term 1 (1 / 2) (1 / 2) + loglik_term 1 (2 / 7) (1 / 14)\<rparr>"
  by (simp only: KalmanFilter_def ex4_kf_run bindE_Inr kf_state.simps)

lemma ex4_ks:
  "KalmanSmoother ex4_A ex4_C ex4_R (Mat 2 2 [[1 / 2, 0], [6 / 7, 1 / 7]])
      (Mat 3 2 [[0, 0], [1 / 2, 0], [0, 0]])
      (Cube 2 2 [Mat 2 2 [[1 / 2, 0], [0, 1]], Mat 2 2 [[5 / 7, 2 / 7], [2 / 7, 12 / 7]]])
      (Cube 2 2 [Mat 2 2 [[1, 0], [0, 1]], Mat 2 2 [[5 / 2, 1], [1, 2]],
                 Mat 2 2 [[0, 0], [0, 0]]])
    = Inr
     \<lparr>ks_Fs = Mat 2 2 [[4 / 7, 1 / 7], [6 / 7, 1 / 7]],
      ks_Ps = Cube 2 2 [Mat 2 2 [[3 / 7, - (1 / 7)], [- (1 / 7), 5 / 7]],
              Mat 2 2 [[5 / 7, 2 / 7], [2 / 7, 12 / 7]]],
      ks_PsTm = Cube 2 2 [Mat 2 2 [[0, 0], [0, 0]],
              Mat 2 2 [[1 / 7, 2 / 7], [- (1 / 7), 5 / 7]]]\<rparr>"
proof -
  have "int (n_rows (Mat 2 2 [[1 / 2, 0], [6 / 7, 1 / 7 :: real]])) = 2" "n_rows ex4_C = 1"
    by (simp_all add: ex4_C_def)
  then show ?thesis
    by (simp only: KalmanSmoother_def ex4_smoother bindE_Inr sm_state.simps)
qed

lemma ex4_kfs:
  "KalmanFilterSmoother ex4_X ex4_C ex4_Q ex4_R ex4_A ex4_F0 ex4_P0 = Inr
     \<lparr>kfs_Fs = Mat 2 2 [[4 / 7, 1 / 7], [6 / 7, 1 / 7]],
      kfs_Ps = Cube 2 2 [Mat 2 2 [[3 / 7, - (1 / 7)], [- (1 / 7), 5 / 7]],
              Mat 2 2 [[5 / 7, 2 / 7], [2 / 7, 12 / 7]]],
      kfs_PsTm = Cube 2 2 [Mat 2 2 [[0, 0], [0, 0]],
              Mat 2 2 [[1 / 7, 2 / 7], [- (1 / 7), 5 / 7]]],
      kfs_loglik = loglik_term 1 (1 / 2) (1 / 2) + loglik_term 1 (2 / 7) (1 / 14)\<rparr>"
proof -
  have "int (n_rows ex4_X) = 2" "n_cols ex4_X = 1"
    by (simp_all add: ex4_X_def)
  moreover have "Mat 1 2 [[1, 0]] = ex4_C" "Mat 1 1 [[1]] = ex4_R"
    by (simp_all add: ex4_C_def ex4_R_def)
  ultimately show ?thesis
    by (simp only: KalmanFilterSmoother_def ex4_kf_run bindE_Inr kf_state.simps ex4_smoother
        sm_state.simps)
qed

lemma ex4_symmetric: "symmetric ex4_P0" "symmetric ex4_Q" "symmetric ex4_R"
  by (simp_all add: symmetric_def ex4_defs mat_eval)

subsection \<open>The claim\<close>

text \<open>
  C3 as stated fails for the lag-one history. In the fourth model \<^verbatim>\<open>P0\<close>, \<^verbatim>\<open>Q\<close> and \<^verbatim>\<open>R\<close>
  are identity matrices, and the last lag-one slice that \<^verbatim>\<open>KalmanSmoother\<close> and
  \<^verbatim>\<open>KalmanFilterSmoother\<close> return has \<open>2/7\<close> above the diagonal and \<open>-1/7\<close> below it.
\<close>

theorem C3_lag_one_not_symmetric:
  "symmetric ex4_P0 \<and> symmetric ex4_Q \<and> symmetric ex4_R
   \<and> map_sum id kfs_PsTm (KalmanFilterSmoother ex4_X ex4_C ex4_Q ex4_R ex4_A ex4_F0 ex4_P0)
       = Inr (Cube 2 2 [Mat 2 2 [[0, 0], [0, 0]], Mat 2 2 [[1 / 7, 2 / 7], [- (1 / 7), 5 / 7]]])
   \<and> map_sum id kf_F (KalmanFilter ex4_X ex4_C ex4_Q ex4_R ex4_A ex4_F0 ex4_P0)
       = Inr (Mat 2 2 [[1 / 2, 0], [6 / 7, 1 / 7]])
   \<and> map_sum id kf_P (KalmanFilter ex4_X ex4_C ex4_Q ex4_R ex4_A ex4_F0 ex4_P0)
       = Inr (Mat 3 2 [[0, 0], [1 / 2, 0], [0, 0]])
   \<and> map_sum id kf_Pf (KalmanFilter ex4_X ex4_C ex4_Q ex4_R ex4_A ex4_F0 ex4_P0)
       = Inr (Cube 2 2 [Mat 2 2 [[1 / 2, 0], [0, 1]],
                Mat 2 2 [[5 / 7, 2 / 7], [2 / 7, 12 / 7]]])
   \<and> map_sum id kf_Pp (KalmanFilter ex4_X ex4_C ex4_Q ex4_R ex4_A ex4_F0 ex4_P0)
       = Inr (Cube 2 2 [Mat 2 2 [[1, 0], [0, 1]], Mat 2 2 [[5 / 2, 1], [1, 2]],
                Mat 2 2 [[0, 0], [0, 0]]])
   \<and> map_sum id ks_PsTm (KalmanSmoother ex4_A ex4_C ex4_R
         (Mat 2 2 [[1 / 2, 0], [6 / 7, 1 / 7]]) (Mat 3 2 [[0, 0], [1 / 2, 0], [0, 0]])
         (Cube 2 2 [Mat 2 2 [[1 / 2, 0], [0, 1]], Mat 2 2 [[5 / 7, 2 / 7], [2 / 7, 12 / 7]]])
         (Cube 2 2 [Mat 2 2 [[1, 0], [0, 1]], Mat 2 2 [[5 / 2, 1], [1, 2]],
                 Mat 2 2 [[0, 0], [0, 0]]]))
       = Inr (Cube 2 2 [Mat 2 2 [[0, 0], [0, 0]], Mat 2 2 [[1 / 7, 2 / 7], [- (1 / 7), 5 / 7]]])
   \<and> \<not> symmetric (Mat 2 2 [[1 / 7, 2 / 7], [- (1 / 7), 5 / 7]])
   \<and> ent (Mat 2 2 [[1 / 7, 2 / 7], [- (1 / 7), 5 / 7 :: real]]) 0 1 = 2 / 7
   \<and> ent (Mat 2 2 [[1 / 7, 2 / 7], [- (1 / 7), 5 / 7 :: real]]) 1 0 = - (1 / 7)"
proof -
  have "\<not> symmetric (Mat 2 2 [[1 / 7, 2 / 7], [- (1 / 7), 5 / 7]])"
    by (simp add: symmetric_def mat_eval)
  moreover have "ent (Mat 2 2 [[1 / 7, 2 / 7], [- (1 / 7), 5 / 7 :: real]]) 0 1 = 2 / 7"
    "ent (Mat 2 2 [[1 / 7, 2 / 7], [- (1 / 7), 5 / 7 :: real]]) 1 0 = - (1 / 7)"
    by (simp_all add: ent_def)
  ultimately show ?thesis
    by (simp add: ex4_symmetric ex4_kfs ex4_kf ex4_ks)
qed

text \<open>
  C3, amended. For symmetric \<^verbatim>\<open>P0\<close>, \<^verbatim>\<open>Q\<close> and \<^verbatim>\<open>R\<close>, in exact arithmetic: every predicted
  and every filtered covariance that \<^verbatim>\<open>KalmanFilter\<close> returns is symmetric, every smoothed
  covariance that \<^verbatim>\<open>KalmanSmoother\<close> returns on the filter's histories is symmetric, and so
  is every smoothed covariance that \<^verbatim>\<open>KalmanFilterSmoother\<close> returns. The lag-one slices are
  cross-covariances and need not be symmetric.
\<close>

theorem C3_covariances_symmetric:
  assumes "symmetric P0" and "symmetric Q" and "symmetric R"
  shows "(KalmanFilter X C Q R A F0 P0 = Inr f \<longrightarrow>
            list_all symmetric (slices (kf_Pp f)) \<and> list_all symmetric (slices (kf_Pf f)) \<and>
            (KalmanSmoother A C R (kf_F f) (kf_P f) (kf_Pf f) (kf_Pp f) = Inr k \<longrightarrow>
               list_all symmetric (slices (ks_Ps k))))
    \<and> (KalmanFilterSmoother X C Q R A F0 P0 = Inr g \<longrightarrow>
          list_all symmetric (slices (kfs_Ps g)))"
proof (intro conjI impI)
  {
    assume "KalmanFilter X C Q R A F0 P0 = Inr f"
    then obtain s :: kf_state where run: "kf_run X C Q R A F0 P0 = Inr s"
      and f: "kf_Pp f = s_PpT s" "kf_Pf f = s_PfT s"
      by (auto simp: KalmanFilter_def bindE_eq_Inr)
    from symmetric_kf_run [OF run assms]
    show p: "list_all symmetric (slices (kf_Pp f))" "list_all symmetric (slices (kf_Pf f))"
      by (simp_all add: f)
    assume "KalmanSmoother A C R (kf_F f) (kf_P f) (kf_Pf f) (kf_Pp f) = Inr k"
    then obtain m :: sm_state where
      b: "smoother_body (int (n_rows (kf_F f))) (n_rows C) A C R (kf_F f) (kf_P f) (kf_Pf f)
            (kf_Pp f) = Inr m"
      and k: "ks_Ps k = m_PsT m"
      by (auto simp: KalmanSmoother_def bindE_eq_Inr)
    from symmetric_smoother_body [OF b p(2,1)]
    show "list_all symmetric (slices (ks_Ps k))"
      by (simp add: k)
  }
  {
    assume "KalmanFilterSmoother X C Q R A F0 P0 = Inr g"
    then obtain s :: kf_state and m :: sm_state where run: "kf_run X C Q R A F0 P0 = Inr s"
      and b: "smoother_body (int (n_rows X)) (n_cols X) A (s_C s) (s_R s)
              (s_FT s) (s_PT s) (s_PfT s) (s_PpT s) = Inr m"
      and g: "kfs_Ps g = m_PsT m"
      by (auto simp: KalmanFilterSmoother_def bindE_eq_Inr)
    from symmetric_smoother_body [OF b symmetric_kf_run(2,1) [OF run assms]]
    show "list_all symmetric (slices (kfs_Ps g))"
      by (simp add: g)
  }
qed

theorem C3_covariances_symmetric_witness:
  "\<exists>f k g. KalmanFilter ex4_X ex4_C ex4_Q ex4_R ex4_A ex4_F0 ex4_P0 = Inr f
     \<and> list_all symmetric (slices (kf_Pp f)) \<and> list_all symmetric (slices (kf_Pf f))
     \<and> KalmanSmoother ex4_A ex4_C ex4_R (kf_F f) (kf_P f) (kf_Pf f) (kf_Pp f) = Inr k
     \<and> list_all symmetric (slices (ks_Ps k))
     \<and> KalmanFilterSmoother ex4_X ex4_C ex4_Q ex4_R ex4_A ex4_F0 ex4_P0 = Inr g
     \<and> list_all symmetric (slices (kfs_Ps g))"
proof -
  obtain f where f: "KalmanFilter ex4_X ex4_C ex4_Q ex4_R ex4_A ex4_F0 ex4_P0 = Inr f"
    using ex4_kf by blast
  then obtain k where
    k: "KalmanSmoother ex4_A ex4_C ex4_R (kf_F f) (kf_P f) (kf_Pf f) (kf_Pp f) = Inr k"
    using ex4_ks by (auto simp: ex4_kf)
  obtain g where g: "KalmanFilterSmoother ex4_X ex4_C ex4_Q ex4_R ex4_A ex4_F0 ex4_P0 = Inr g"
    using ex4_kfs by blast
  from C3_covariances_symmetric [OF ex4_symmetric, of ex4_X ex4_C ex4_A ex4_F0 f k g] f k g
  show ?thesis by blast
qed

end
